(* ===== verification/Prelude.thy ===== *)
theory Prelude
  imports Main "HOL-Library.Word"
begin

text \<open>
  Shared vocabulary of the development: Go's fixed-width integers and byte slices, Go
  errors and \<open>errors.Is\<close>, the fault/outcome types, and the state-passing programs in
  which the stateful code of the indexer and of the scanner is written, together with the
  rules that carry the component proofs.

  \<^item> \<open>u8 \<dots> u64\<close> are Go's unsigned integers, \<open>i32\<close> and \<open>i64\<close> its signed ones in
    two's complement: the same words, compared through \<^term>\<open>sint\<close>.
  \<^item> A Go \<open>error\<close> is a \<open>go_error\<close>; \<open>fmt.Errorf\<close> with \<open>%w\<close> is \<open>Wrap\<close>, without it
    \<open>Errorf\<close>. Only the fixed part of the message is kept. An error value made by a
    third-party package is a \<open>LibErr\<close>, so that it is never one of the sentinels declared
    in this repository.
  \<^item> A run-time panic is a \<open>Panic\<close>, a \<open>logger.Fatal\<close>, which ends the process, a
    \<open>Fatal\<close>; a loop cut off by its fuel is \<open>OutOfFuel\<close>.
\<close>

section \<open>Integers and bytes\<close>

type_synonym u8 = "8 word"
type_synonym u16 = "16 word"
type_synonym u32 = "32 word"
type_synonym u64 = "64 word"
type_synonym i32 = "32 word"
type_synonym i64 = "64 word"
type_synonym bytes = "u8 list"

text \<open>A \<open>chainhash.Hash\<close> is 32 bytes; slicing or cloning it gives those bytes.\<close>

type_synonym hash = bytes

text \<open>Conversion \<open>[]byte(s)\<close> of a string.\<close>

definition bytes_of_string :: "string \<Rightarrow> bytes" where
  "bytes_of_string s = map of_char s"

text \<open>\<open>uint64(x)\<close> of an \<open>int32\<close>: sign extension.\<close>

definition u64_of_i32 :: "i32 \<Rightarrow> u64" where
  "u64_of_i32 x = word_of_int (sint x)"

section \<open>Go's encoding/hex and encoding/binary, as far as the source uses them\<close>

text \<open>\<open>hex.EncodeToString\<close>: two lower-case digits per byte.\<close>

definition hex_digit :: "nat \<Rightarrow> char" where
  "hex_digit n = ''0123456789abcdef'' ! (n mod 16)"

fun hex_EncodeToString :: "bytes \<Rightarrow> string" where
  "hex_EncodeToString [] = []"
| "hex_EncodeToString (b # bs) =
     hex_digit (unat b div 16) # hex_digit (unat b mod 16) # hex_EncodeToString bs"

text \<open>\<open>binary.BigEndian.PutUint64\<close> and \<open>binary.BigEndian.Uint64\<close> (on 8 bytes).\<close>

definition BigEndian_PutUint64 :: "u64 \<Rightarrow> bytes" where
  "BigEndian_PutUint64 v =
     [ucast (drop_bit 56 v), ucast (drop_bit 48 v), ucast (drop_bit 40 v), ucast (drop_bit 32 v),
      ucast (drop_bit 24 v), ucast (drop_bit 16 v), ucast (drop_bit 8 v), ucast v]"

definition BigEndian_Uint64 :: "bytes \<Rightarrow> u64" where
  "BigEndian_Uint64 b = foldl (\<lambda>acc x. push_bit 8 acc + ucast x) 0 b"

section \<open>Errors, faults and outcomes\<close>

text \<open>An error value of a third-party package, known by its text only.\<close>

type_synonym lib_error = string

text \<open>\<open>indexerstore/errors.go\<close>\<close>

datatype store_error =
    ErrCorruptedTransactionsDb
  | ErrTransactionNotFound
  | ErrDuplicateTransaction
  | ErrCorruptedStateDb
  | ErrLastProcessedHeightNotFound
  | ErrNegativeTvl

text \<open>\<open>indexer/errors.go\<close>\<close>

datatype indexer_error =
    ErrInvalidUnbondingTx
  | ErrInvalidStakingTx
  | ErrInvalidWithdrawalTx

text \<open>\<open>btcscanner/errors.go\<close>\<close>

datatype scanner_error =
    ErrEmptyCache
  | ErrInvalidMaxEntries
  | ErrTooManyEntries
  | ErrUnsortedBlocks

datatype go_error =
    StoreErr store_error
  | IndexerErr indexer_error
  | ScannerErr scanner_error
  | LibErr lib_error
  | Errorf string
  | Wrap string go_error

text \<open>\<open>errors.Is(err, target)\<close> for a sentinel target: unwrap until it is found.\<close>

fun errors_Is :: "go_error \<Rightarrow> go_error \<Rightarrow> bool" where
  "errors_Is (Wrap m e) t = (Wrap m e = t \<or> errors_Is e t)"
| "errors_Is e t = (e = t)"

datatype fault = Error go_error | Panic string | Fatal string | OutOfFuel

text \<open>The result of a call that may return an error or panic.\<close>

type_synonym 'a outcome = "fault + 'a"

text \<open>Errors of a pure call as the outcome of its caller, wrapped or as they are.\<close>

definition lib_result :: "lib_error + 'a \<Rightarrow> go_error + 'a" where
  "lib_result r = (case r of Inl e \<Rightarrow> Inl (LibErr e) | Inr x \<Rightarrow> Inr x)"

text \<open>Indexing a slice: a run-time panic when the index is out of range.\<close>

definition slice_index :: "'a list \<Rightarrow> nat \<Rightarrow> 'a outcome" where
  "slice_index xs i = (if i < length xs then Inr (xs ! i) else Inl (Panic ''index out of range''))"

section \<open>State-passing programs\<close>

text \<open>
  A stateful Go function is a function from the state to its outcome and the state it leaves
  behind. Faults keep the effects made before them, as in the code.
\<close>

type_synonym ('s, 'a) prog = "'s \<Rightarrow> 'a outcome \<times> 's"

definition ret :: "'a \<Rightarrow> ('s, 'a) prog" where
  "ret x s = (Inr x, s)"

definition raise :: "go_error \<Rightarrow> ('s, 'a) prog" where
  "raise e s = (Inl (Error e), s)"

definition panic :: "string \<Rightarrow> ('s, 'a) prog" where
  "panic m s = (Inl (Panic m), s)"

definition fatal :: "string \<Rightarrow> ('s, 'a) prog" where
  "fatal m s = (Inl (Fatal m), s)"

definition out_of_fuel :: "('s, 'a) prog" where
  "out_of_fuel s = (Inl OutOfFuel, s)"

definition lift :: "'a outcome \<Rightarrow> ('s, 'a) prog" where
  "lift r s = (r, s)"

definition gets :: "('s \<Rightarrow> 'a) \<Rightarrow> ('s, 'a) prog" where
  "gets f s = (Inr (f s), s)"

definition modify :: "('s \<Rightarrow> 's) \<Rightarrow> ('s, unit) prog" where
  "modify f s = (Inr (), f s)"

definition bind :: "('s, 'a) prog \<Rightarrow> ('a \<Rightarrow> ('s, 'b) prog) \<Rightarrow> ('s, 'b) prog" where
  "bind m k s = (case m s of (Inl f, s') \<Rightarrow> (Inl f, s') | (Inr x, s') \<Rightarrow> k x s')"

text \<open>\<open>x, err := m()\<close>: the caller receives the error as a value; a panic goes through.\<close>

definition attempt :: "('s, 'a) prog \<Rightarrow> ('s, go_error + 'a) prog" where
  "attempt m s =
     (case m s of
        (Inl (Error e), s') \<Rightarrow> (Inr (Inl e), s')
      | (Inl f, s') \<Rightarrow> (Inl f, s')
      | (Inr x, s') \<Rightarrow> (Inr (Inr x), s'))"

text \<open>\<open>if err := m(); err != nil { handler }\<close>, with the error as the handler's argument.\<close>

definition on_error :: "('s, 'a) prog \<Rightarrow> (go_error \<Rightarrow> ('s, 'a) prog) \<Rightarrow> ('s, 'a) prog" where
  "on_error m handler =
     bind (attempt m) (\<lambda>r. case r of Inl e \<Rightarrow> handler e | Inr x \<Rightarrow> ret x)"

text \<open>\<open>for _, x := range xs { body }\<close>, left by the first fault.\<close>

primrec for_each :: "'a list \<Rightarrow> ('a \<Rightarrow> ('s, unit) prog) \<Rightarrow> ('s, unit) prog" where
  "for_each [] body = ret ()"
| "for_each (x # xs) body = bind (body x) (\<lambda>_. for_each xs body)"

text \<open>The same with variables that the body assigns.\<close>

primrec for_acc :: "'a list \<Rightarrow> ('a \<Rightarrow> 'v \<Rightarrow> ('s, 'v) prog) \<Rightarrow> 'v \<Rightarrow> ('s, 'v) prog" where
  "for_acc [] body v = ret v"
| "for_acc (x # xs) body v = bind (body x v) (for_acc xs body)"

section \<open>Encodings: round trips and injectivity\<close>

lemma ucast_low_byte: "(ucast (ucast (w :: u64) :: u8) :: u64) = take_bit 8 w"
  by (rule bit_word_eqI) (auto simp: bit_simps)

lemma u64_byte_step:
  "push_bit 8 (drop_bit (n + 8) (v :: u64)) + ucast (ucast (drop_bit n v) :: u8) = drop_bit n v"
  using bits_ident [of 8 "drop_bit n v"] by (simp add: ucast_low_byte add.commute)

lemma BigEndian_Uint64_PutUint64 [simp]: "BigEndian_Uint64 (BigEndian_PutUint64 v) = v"
proof -
  have "ucast (ucast (drop_bit 56 v) :: u8) = drop_bit 56 v"
    by (rule bit_word_eqI) (auto simp: bit_simps dest: bit_imp_le_length)
  then show ?thesis
    using u64_byte_step [of 48 v] u64_byte_step [of 40 v] u64_byte_step [of 32 v]
      u64_byte_step [of 24 v] u64_byte_step [of 16 v] u64_byte_step [of 8 v]
      u64_byte_step [of 0 v]
    by (simp add: BigEndian_Uint64_def BigEndian_PutUint64_def)
qed

lemma length_BigEndian_PutUint64 [simp]: "length (BigEndian_PutUint64 v) = 8"
  by (simp add: BigEndian_PutUint64_def)

text \<open>The converse by counting: both sides have \<open>2 ^ 64\<close> elements.\<close>

lemma BigEndian_PutUint64_Uint64 [simp]:
  assumes "length b = 8"
  shows "BigEndian_PutUint64 (BigEndian_Uint64 b) = b"
proof -
  have inj: "inj BigEndian_PutUint64"
    by (rule inj_on_inverseI [where g = BigEndian_Uint64]) simp
  have fin: "finite {xs :: bytes. length xs = 8}"
    using finite_lists_length_eq [of "UNIV :: u8 set" 8] by simp
  have "card {xs :: bytes. length xs = 8} = 2 ^ 64"
    using card_lists_length_eq [of "UNIV :: u8 set" 8] by (simp add: card_word)
  then have "card (range BigEndian_PutUint64) = card {xs :: bytes. length xs = 8}"
    using card_image [OF inj] by (simp add: card_word)
  then have "range BigEndian_PutUint64 = {xs :: bytes. length xs = 8}"
    by (intro card_subset_eq [OF fin]) auto
  then obtain v where "b = BigEndian_PutUint64 v"
    using assms by blast
  then show ?thesis by simp
qed

lemma hex_digit_inj:
  assumes "a < 16" and "b < 16" and "hex_digit a = hex_digit b"
  shows "a = b"
proof -
  have "distinct ''0123456789abcdef''" by simp
  from nth_eq_iff_index_eq [OF this, of a b] assms show ?thesis
    by (simp add: hex_digit_def)
qed

lemma u8_nibbles_inj:
  fixes x y :: u8
  assumes "hex_digit (unat x div 16) = hex_digit (unat y div 16)"
    and "hex_digit (unat x mod 16) = hex_digit (unat y mod 16)"
  shows "x = y"
proof -
  have "unat x < 256" "unat y < 256"
    using unsigned_less [of x] unsigned_less [of y] by simp_all
  with assms have "unat x div 16 = unat y div 16" "unat x mod 16 = unat y mod 16"
    by (auto intro: hex_digit_inj)
  then have "unat x = unat y"
    by (metis div_mult_mod_eq)
  then show ?thesis by (rule unsigned_word_eqI)
qed

lemma hex_EncodeToString_inj: "hex_EncodeToString a = hex_EncodeToString b \<longleftrightarrow> a = b"
proof (induction a arbitrary: b rule: hex_EncodeToString.induct)
  case 1
  show ?case by (cases b rule: hex_EncodeToString.cases) auto
next
  case (2 x xs)
  show ?case
    by (cases b rule: hex_EncodeToString.cases) (auto simp: "2.IH" intro: u8_nibbles_inj)
qed

section \<open>Rules for programs\<close>

named_theorems prog_simps \<open>evaluation of the program combinators\<close>

lemma bind_eq [prog_simps]:
  "bind m k s = (case fst (m s) of Inl f \<Rightarrow> (Inl f, snd (m s)) | Inr x \<Rightarrow> k x (snd (m s)))"
  by (simp add: bind_def split: prod.split sum.split)

lemmas prog_basic_simps [prog_simps] =
  ret_def raise_def panic_def fatal_def out_of_fuel_def lift_def gets_def modify_def

lemma on_error_Inr_cases:
  assumes "on_error m handler s = (Inr x, s')"
  obtains "m s = (Inr x, s')" | e s1 where "m s = (Inl (Error e), s1)" and "handler e s1 = (Inr x, s')"
  using assms
  by (auto simp: on_error_def bind_eq attempt_def ret_def split: sum.splits fault.splits prod.splits)

lemma on_error_raise_Inr [simp]:
  "on_error m (\<lambda>e. raise (f e)) s = (Inr x, s') \<longleftrightarrow> m s = (Inr x, s')"
  by (auto simp: on_error_def bind_eq attempt_def ret_def raise_def
      split: sum.splits fault.splits prod.splits)

lemma bind_Inr: "m s = (Inr x, s') \<Longrightarrow> bind m k s = k x s'"
  by (simp add: bind_def)

lemma bind_Inl: "m s = (Inl f, s') \<Longrightarrow> bind m k s = (Inl f, s')"
  by (simp add: bind_def)

lemma bind_Inr_cases:
  assumes "bind m k s = (Inr x, s')"
  obtains y s1 where "m s = (Inr y, s1)" and "k y s1 = (Inr x, s')"
  using assms by (auto simp: bind_def split: prod.splits sum.splits)

text \<open>
  A relation between the state before and after a run that is reflexive and transitive
  carries over from the parts of a program to the whole. The interpretations below and in
  the component theories use it for frames, for growth of the store and for invariants.
\<close>

definition run_in :: "('s \<Rightarrow> 's \<Rightarrow> bool) \<Rightarrow> ('s, 'a) prog \<Rightarrow> bool" where
  "run_in R m \<longleftrightarrow> (\<forall>s. R s (snd (m s)))"

lemma run_inI: "(\<And>s. R s (snd (m s))) \<Longrightarrow> run_in R m"
  by (simp add: run_in_def)

lemma run_inD: "run_in R m \<Longrightarrow> m s = (r, s') \<Longrightarrow> R s s'"
  by (auto simp: run_in_def dest: spec [of _ s])

locale state_preorder =
  fixes R :: "'s \<Rightarrow> 's \<Rightarrow> bool"
  assumes R_refl: "R s s"
    and R_trans: "R s t \<Longrightarrow> R t u \<Longrightarrow> R s u"
begin

lemma run_ret: "run_in R (ret x)"
  by (simp add: run_in_def ret_def R_refl)

lemma run_raise: "run_in R (raise e)"
  by (simp add: run_in_def raise_def R_refl)

lemma run_panic: "run_in R (panic e)"
  by (simp add: run_in_def panic_def R_refl)

lemma run_fatal: "run_in R (fatal e)"
  by (simp add: run_in_def fatal_def R_refl)

lemma run_out_of_fuel: "run_in R out_of_fuel"
  by (simp add: run_in_def out_of_fuel_def R_refl)

lemma run_lift: "run_in R (lift r)"
  by (simp add: run_in_def lift_def R_refl)

lemma run_gets: "run_in R (gets f)"
  by (simp add: run_in_def gets_def R_refl)

lemma run_modify: "(\<And>s. R s (f s)) \<Longrightarrow> run_in R (modify f)"
  by (simp add: run_in_def modify_def)

lemma run_bind:
  assumes "run_in R m" and "\<And>x. run_in R (k x)"
  shows "run_in R (bind m k)"
proof (rule run_inI)
  fix s
  have "R s (snd (m s))" using assms(1) by (simp add: run_in_def)
  moreover have "R (snd (m s)) (snd (k x (snd (m s))))" for x
    using assms(2) by (simp add: run_in_def)
  ultimately show "R s (snd (bind m k s))"
    by (auto simp: bind_eq split: sum.split intro: R_trans)
qed

lemma run_attempt: "run_in R m \<Longrightarrow> run_in R (attempt m)"
  by (auto simp: run_in_def attempt_def split: prod.split sum.split fault.split)
    (metis snd_conv)+

lemma run_on_error:
  "run_in R m \<Longrightarrow> (\<And>e. run_in R (h e)) \<Longrightarrow> run_in R (on_error m h)"
  unfolding on_error_def
  by (rule run_bind) (auto intro: run_attempt run_ret split: sum.split)

lemma run_for_each: "(\<And>x. x \<in> set xs \<Longrightarrow> run_in R (body x)) \<Longrightarrow> run_in R (for_each xs body)"
  by (induction xs) (auto intro: run_ret run_bind)

lemma run_for_acc:
  "(\<And>x v. x \<in> set xs \<Longrightarrow> run_in R (body x v)) \<Longrightarrow> run_in R (for_acc xs body v)"
  by (induction xs arbitrary: v) (auto intro: run_ret run_bind)

text \<open>The same at one state, for a continuation that relies on how the first part ended.\<close>

lemma bind_at:
  assumes "R s (snd (m s))" and "\<And>x s'. m s = (Inr x, s') \<Longrightarrow> R s' (snd (k x s'))"
  shows "R s (snd (bind m k s))"
proof (cases "m s")
  case (Pair r s')
  then show ?thesis
    using assms R_trans by (cases r) (auto simp: bind_eq)
qed

lemma on_error_at:
  assumes "R s (snd (m s))" and "\<And>e s'. m s = (Inl (Error e), s') \<Longrightarrow> R s' (snd (handler e s'))"
  shows "R s (snd (on_error m handler s))"
proof (cases "m s")
  case (Pair r s')
  then show ?thesis
    using assms R_trans
    by (auto simp: on_error_def bind_eq attempt_def ret_def split: sum.splits fault.splits)
qed

lemma run_at: "run_in R m \<Longrightarrow> R s (snd (m s))"
  by (simp add: run_in_def)

lemmas run_rules = run_ret run_raise run_panic run_fatal run_out_of_fuel run_lift run_gets
  run_modify run_bind run_attempt run_on_error run_for_each run_for_acc

end

text \<open>Two preorders: equality of an observation, and preservation of an invariant.\<close>

interpretation frame: state_preorder "\<lambda>s s'. obs s' = obs s" for obs
  by unfold_locales auto

interpretation keeps: state_preorder "\<lambda>s s'. I s \<longrightarrow> I s'" for I
  by unfold_locales auto

section \<open>Counting up heights\<close>

text \<open>How many heights there are from \<open>i\<close> to \<open>tipHeight\<close>: the rounds of a loop
  \<open>for i <= tipHeight; i++\<close> on \<open>uint64\<close>, unless it counts to the last number and wraps around.\<close>

definition heights :: "u64 \<Rightarrow> u64 \<Rightarrow> nat" where
  "heights i tipHeight = (if i \<le> tipHeight then Suc (unat (tipHeight - i)) else 0)"

lemma unat_next_height:
  fixes i tipHeight :: u64
  assumes "i \<le> tipHeight" and "tipHeight \<noteq> - 1"
  shows "unat (i + 1) = Suc (unat i)"
proof -
  have "unat (- 1 :: u64) = 2 ^ 64 - 1"
    by (simp add: unsigned_minus_1_eq_mask mask_eq_exp_minus_1)
  then have "unat tipHeight \<noteq> 2 ^ 64 - 1" using assms(2) by (metis unsigned_word_eqI)
  then have "unat tipHeight < 2 ^ 64 - 1"
    using unsigned_less [of tipHeight, where ?'a = nat] by simp
  then show ?thesis
    using assms(1) by (simp add: word_le_nat_alt unat_word_ariths)
qed

lemma next_height_le: "(i :: u64) \<le> tipHeight \<Longrightarrow> tipHeight \<noteq> - 1 \<Longrightarrow> i \<le> i + 1"
  using unat_next_height [of i tipHeight] by (simp add: word_le_nat_alt)

lemma heights_Suc:
  assumes "i \<le> tipHeight" and "tipHeight \<noteq> - 1"
  shows "heights i tipHeight = Suc (heights (i + 1) tipHeight)"
  using assms(1) unat_next_height [OF assms] by (auto simp: heights_def word_le_nat_alt unat_sub)

end
