(* ===== verification/Chain_Types.thy ===== *)
theory Chain_Types
  imports Prelude
begin

text \<open>
  The data the components exchange: the Bitcoin transactions and headers of \<open>wire\<close> with
  the fields the source reads, the indexed blocks of \<open>types/block.go\<close>, the helpers of
  \<open>utils/tx.go\<close>, the global parameters, and the results of the \<open>btcstaking\<close> library as
  the source uses them. Operations of third-party packages are no definitions here: they are
  fields of the records that stand for those packages in the component theories.
\<close>

section \<open>Transactions and headers (package wire)\<close>

record OutPoint =
  Hash :: hash
  Index :: u32

record TxIn =
  PreviousOutPoint :: OutPoint
  SignatureScript :: bytes
  Witness :: "bytes list"
  Sequence :: u32

record TxOut =
  Value :: i64
  PkScript :: bytes

record MsgTx =
  tx_Version :: i32
  TxIn :: "TxIn list"
  TxOut :: "TxOut list"
  LockTime :: u32

definition MaxTxInSequenceNum :: u32 where
  "MaxTxInSequenceNum = 0xffffffff"

record BlockHeader =
  h_Version :: i32
  PrevBlock :: hash
  MerkleRoot :: hash
  Timestamp :: i64
  Bits :: u32
  Nonce :: u32

record MsgBlock =
  Header_of :: BlockHeader
  Transactions :: "MsgTx list"

text \<open>A \<open>btcutil.Tx\<close>: a transaction with its index in the block.\<close>

record btcutil_Tx =
  MsgTx_of :: MsgTx
  tx_Index :: int

section \<open>Indexed blocks (types/block.go) and utils/tx.go\<close>

record IndexedBlock =
  Height :: i32
  Header :: BlockHeader
  Txs :: "btcutil_Tx list"

definition NewIndexedBlock :: "i32 \<Rightarrow> BlockHeader \<Rightarrow> btcutil_Tx list \<Rightarrow> IndexedBlock" where
  "NewIndexedBlock height header txs = \<lparr>Height = height, Header = header, Txs = txs\<rparr>"

definition GetWrappedTxs :: "MsgBlock \<Rightarrow> btcutil_Tx list" where
  "GetWrappedTxs msg =
     map (\<lambda>i. \<lparr>MsgTx_of = Transactions msg ! i, tx_Index = int i\<rparr>) [0..<length (Transactions msg)]"

definition NewIndexedBlockFromMsgBlock :: "i32 \<Rightarrow> MsgBlock \<Rightarrow> IndexedBlock" where
  "NewIndexedBlockFromMsgBlock height block =
     \<lparr>Height = height, Header = Header_of block, Txs = GetWrappedTxs block\<rparr>"

definition MsgBlock_of :: "IndexedBlock \<Rightarrow> MsgBlock" where
  "MsgBlock_of ib = \<lparr>Header_of = Header ib, Transactions = map MsgTx_of (Txs ib)\<rparr>"

text \<open>What the scanner sends to the indexer (\<open>btcscanner/btc_scanner.go\<close>).\<close>

record ChainUpdateInfo =
  ConfirmedBlocks :: "IndexedBlock list"
  UnconfirmedBlocks :: "IndexedBlock list"

section \<open>Keys, parameters and the results of btcstaking\<close>

text \<open>
  A \<open>btcec.PublicKey\<close> is only handed to library calls; a number stands for it. The network
  parameters (\<open>chaincfg.Params\<close>) are known by their name.
\<close>

type_synonym PublicKey = nat
type_synonym net_params = string

record ParsedVersionedGlobalParams =
  params_Version :: u64
  StakingCap :: i64
  CapHeight :: u64
  ActivationHeight :: u64
  Tag :: bytes
  CovenantPks :: "PublicKey list"
  CovenantQuorum :: u32
  UnbondingTime :: u16
  UnbondingFee :: i64
  MaxStakingAmount :: i64
  MinStakingAmount :: i64
  MaxStakingTime :: u16
  MinStakingTime :: u16
  ConfirmationDepth :: u16

text \<open>
  \<open>btcstaking.ParsedV0StakingTx\<close>, the spend infos and the staking and unbonding infos. The
  latter two are known by what their methods return.
\<close>

record V0OpReturnData =
  StakerPublicKey :: PublicKey
  FinalityProviderPublicKey :: PublicKey
  op_StakingTime :: u16

record ParsedV0StakingTx =
  StakingOutput :: TxOut
  parsed_StakingOutputIdx :: int
  OpReturnData :: V0OpReturnData

record SpendInfo =
  GetPkScriptPath :: bytes

record StakingInfo =
  TimeLockPathSpendInfo :: "lib_error + SpendInfo"
  UnbondingPathSpendInfo :: "lib_error + SpendInfo"

record UnbondingInfo =
  UnbondingOutput :: TxOut
  unbonding_TimeLockPathSpendInfo :: "lib_error + SpendInfo"

section \<open>Conversions between a block and its indexed form\<close>

lemma map_MsgTx_GetWrappedTxs [simp]: "map MsgTx_of (GetWrappedTxs b) = Transactions b"
  by (simp add: GetWrappedTxs_def comp_def map_nth)

lemma length_GetWrappedTxs [simp]: "length (GetWrappedTxs b) = length (Transactions b)"
  by (simp add: GetWrappedTxs_def)

lemma MsgBlock_of_NewIndexedBlockFromMsgBlock [simp]:
  "MsgBlock_of (NewIndexedBlockFromMsgBlock h b) = b"
  by (simp add: MsgBlock_of_def NewIndexedBlockFromMsgBlock_def)

end
