(* ===== verification/Store.thy ===== *)
theory Store
  imports Chain_Types
begin

text \<open>
  The indexer store (\<open>indexerstore/indexer_store.go\<close>, \<open>utils/tx.go\<close> and the messages of
  \<open>proto/transaction.pb.go\<close>): every operation over an abstract database.

  What the store calls of third-party packages is the record \<open>backend\<close>: the transaction
  and key codecs of btcd, protobuf, and the key-value database \<open>kvdb\<close>. The database itself
  is any type \<open>'db\<close>; a bucket is named by its bytes, \<open>HasBucket\<close> says whether reading it
  gives a bucket or nil, \<open>Batch\<close> runs a closure in a write transaction and returns the
  database after it with the closure's or its own error, and \<open>BeginRead\<close> is the error, if
  any, of opening the read transaction of a \<open>View\<close>. The locale \<open>store_backend\<close> states the
  documented behaviour of these calls that the lemmas rely on.
\<close>

section \<open>Data\<close>

text \<open>The protobuf messages.\<close>

record StakingTransaction =
  p_TransactionBytes :: bytes
  p_StakingOutputIdx :: u32
  p_InclusionHeight :: u64
  p_StakerPk :: bytes
  p_FinalityProviderPk :: bytes
  p_StakingTime :: u32
  p_IsOverflow :: bool
  p_StakingValue :: u64

record UnbondingTransaction =
  pu_TransactionBytes :: bytes
  pu_StakingTxHash :: bytes

record StoredStakingTransaction =
  Tx :: MsgTx
  StakingOutputIdx :: u32
  InclusionHeight :: u64
  StakerPk :: PublicKey
  StakingTime :: u32
  FinalityProviderPk :: PublicKey
  IsOverflow :: bool
  StakingValue :: u64

record StoredUnbondingTransaction =
  unbonding_Tx :: MsgTx
  StakingTxHash :: hash

text \<open>The third-party calls.\<close>

record 'db backend =
  TxHash :: "MsgTx \<Rightarrow> hash"
  Serialize :: "MsgTx \<Rightarrow> lib_error + bytes"
  Deserialize :: "bytes \<Rightarrow> lib_error + MsgTx"
  SerializePubKey :: "PublicKey \<Rightarrow> bytes"
  ParsePubKey :: "bytes \<Rightarrow> lib_error + PublicKey"
  NewHash :: "bytes \<Rightarrow> lib_error + hash"
  MarshalStaking :: "StakingTransaction \<Rightarrow> lib_error + bytes"
  UnmarshalStaking :: "bytes \<Rightarrow> lib_error + StakingTransaction"
  MarshalUnbonding :: "UnbondingTransaction \<Rightarrow> lib_error + bytes"
  UnmarshalUnbonding :: "bytes \<Rightarrow> lib_error + UnbondingTransaction"
  HasBucket :: "'db \<Rightarrow> bytes \<Rightarrow> bool"
  Get :: "'db \<Rightarrow> bytes \<Rightarrow> bytes \<Rightarrow> bytes option"
  Put :: "'db \<Rightarrow> bytes \<Rightarrow> bytes \<Rightarrow> bytes \<Rightarrow> lib_error + 'db"
  CreateTopLevelBucket :: "'db \<Rightarrow> bytes \<Rightarrow> lib_error + 'db"
  Batch :: "('db \<Rightarrow> go_error + 'db) \<Rightarrow> 'db \<Rightarrow> 'db \<times> go_error option"
  BeginRead :: "'db \<Rightarrow> lib_error option"

section \<open>Names, keys and integers\<close>

definition stakingTxBucketName :: bytes where
  "stakingTxBucketName = bytes_of_string ''stakingtxs''"

definition unbondingTxBucketName :: bytes where
  "unbondingTxBucketName = bytes_of_string ''unbondingtxs''"

definition indexerStateBucketName :: bytes where
  "indexerStateBucketName = bytes_of_string ''indexerstate''"

definition confirmedTvlBucketName :: bytes where
  "confirmedTvlBucketName = bytes_of_string ''confirmedtvl''"

definition getConfirmedTvlKey :: bytes where
  "getConfirmedTvlKey = bytes_of_string ''confirmedtvl''"

definition getLastProcessedHeightKey :: bytes where
  "getLastProcessedHeightKey = bytes_of_string ''lastprocessedheight''"

definition uint64ToBytes :: "u64 \<Rightarrow> bytes" where
  "uint64ToBytes v = BigEndian_PutUint64 v"

definition uint64FromBytes :: "bytes \<Rightarrow> go_error + u64" where
  "uint64FromBytes b =
     (if length b \<noteq> 8 then Inl (Errorf ''invalid uint64 bytes length'')
      else Inr (BigEndian_Uint64 b))"

section \<open>Opening the store\<close>

text \<open>\<open>db.View\<close>: the closure's result, unless the read transaction cannot be opened.\<close>

definition View :: "'db backend \<Rightarrow> ('db \<Rightarrow> go_error + 'a) \<Rightarrow> 'db \<Rightarrow> go_error + 'a" where
  "View B f d = (case BeginRead B d of Some e \<Rightarrow> Inl (LibErr e) | None \<Rightarrow> f d)"

definition initBuckets :: "'db backend \<Rightarrow> 'db \<Rightarrow> 'db \<times> go_error option" where
  "initBuckets B = Batch B (\<lambda>d.
     case CreateTopLevelBucket B d stakingTxBucketName of Inl e \<Rightarrow> Inl (LibErr e) | Inr d \<Rightarrow>
     (case CreateTopLevelBucket B d unbondingTxBucketName of Inl e \<Rightarrow> Inl (LibErr e) | Inr d \<Rightarrow>
     (case CreateTopLevelBucket B d indexerStateBucketName of Inl e \<Rightarrow> Inl (LibErr e) | Inr d \<Rightarrow>
     (case CreateTopLevelBucket B d confirmedTvlBucketName of Inl e \<Rightarrow> Inl (LibErr e) | Inr d \<Rightarrow>
      Inr d))))"

definition NewIndexerStore :: "'db backend \<Rightarrow> 'db \<Rightarrow> 'db \<times> go_error option" where
  "NewIndexerStore B d = initBuckets B d"

section \<open>The confirmed TVL\<close>

text \<open>Inside a write transaction: the new database, or the error that rolls it back.\<close>

definition incrementConfirmedTvl :: "'db backend \<Rightarrow> u64 \<Rightarrow> 'db \<Rightarrow> go_error + 'db" where
  "incrementConfirmedTvl B tvlIncrement d =
     (if \<not> HasBucket B d confirmedTvlBucketName then Inl (StoreErr ErrCorruptedStateDb)
      else case (case Get B d confirmedTvlBucketName getConfirmedTvlKey of
                   None \<Rightarrow> Inr 0 | Some currentTvl \<Rightarrow> uint64FromBytes currentTvl) of
             Inl e \<Rightarrow> Inl e
           | Inr confirmedTvl \<Rightarrow>
               lib_result (Put B d confirmedTvlBucketName getConfirmedTvlKey
                 (uint64ToBytes (confirmedTvl + tvlIncrement))))"

definition subtractConfirmedTvl :: "'db backend \<Rightarrow> u64 \<Rightarrow> 'db \<Rightarrow> go_error + 'db" where
  "subtractConfirmedTvl B tvlSubtract d =
     (if \<not> HasBucket B d confirmedTvlBucketName then Inl (StoreErr ErrCorruptedStateDb)
      else case Get B d confirmedTvlBucketName getConfirmedTvlKey of
             None \<Rightarrow> Inl (StoreErr ErrCorruptedStateDb)
           | Some currentTvl \<Rightarrow>
             (case uint64FromBytes currentTvl of
                Inl e \<Rightarrow> Inl e
              | Inr confirmedTvl \<Rightarrow>
                  if tvlSubtract > confirmedTvl then Inl (StoreErr ErrNegativeTvl)
                  else lib_result (Put B d confirmedTvlBucketName getConfirmedTvlKey
                         (uint64ToBytes (confirmedTvl - tvlSubtract)))))"

definition GetConfirmedTvl :: "'db backend \<Rightarrow> 'db \<Rightarrow> go_error + u64" where
  "GetConfirmedTvl B = View B (\<lambda>d.
     if \<not> HasBucket B d confirmedTvlBucketName then Inl (StoreErr ErrCorruptedStateDb)
     else case Get B d confirmedTvlBucketName getConfirmedTvlKey of
            None \<Rightarrow> Inr 0
          | Some v \<Rightarrow> uint64FromBytes v)"

section \<open>Staking transactions\<close>

definition SerializeBtcTransaction :: "'db backend \<Rightarrow> MsgTx \<Rightarrow> go_error + bytes" where
  "SerializeBtcTransaction B tx = lib_result (Serialize B tx)"

definition addStakingTransaction ::
    "'db backend \<Rightarrow> bytes \<Rightarrow> StakingTransaction \<Rightarrow> 'db \<Rightarrow> 'db \<times> go_error option" where
  "addStakingTransaction B txHashBytes st = Batch B (\<lambda>d.
     if \<not> HasBucket B d stakingTxBucketName then Inl (StoreErr ErrCorruptedTransactionsDb)
     else case Get B d stakingTxBucketName txHashBytes of
            Some _ \<Rightarrow> Inl (StoreErr ErrDuplicateTransaction)
          | None \<Rightarrow>
            (case MarshalStaking B st of
               Inl e \<Rightarrow> Inl (LibErr e)
             | Inr marshalled \<Rightarrow>
               (case Put B d stakingTxBucketName txHashBytes marshalled of
                  Inl e \<Rightarrow> Inl (LibErr e)
                | Inr d' \<Rightarrow>
                    if p_IsOverflow st then Inr d'
                    else incrementConfirmedTvl B (p_StakingValue st) d')))"

definition AddStakingTransaction ::
    "'db backend \<Rightarrow> MsgTx \<Rightarrow> u32 \<Rightarrow> u64 \<Rightarrow> PublicKey \<Rightarrow> u32 \<Rightarrow> PublicKey \<Rightarrow> u64 \<Rightarrow> bool \<Rightarrow>
      'db \<Rightarrow> 'db \<times> go_error option" where
  "AddStakingTransaction B tx stakingOutputIdx inclusionHeight stakerPk stakingTime fpPk
      stakingValue isOverflow d =
     (case SerializeBtcTransaction B tx of
        Inl e \<Rightarrow> (d, Some e)
      | Inr serializedTx \<Rightarrow>
          addStakingTransaction B (TxHash B tx)
            \<lparr>p_TransactionBytes = serializedTx, p_StakingOutputIdx = stakingOutputIdx,
             p_InclusionHeight = inclusionHeight, p_StakerPk = SerializePubKey B stakerPk,
             p_FinalityProviderPk = SerializePubKey B fpPk, p_StakingTime = stakingTime,
             p_IsOverflow = isOverflow, p_StakingValue = stakingValue\<rparr> d)"

definition protoStakingTxToStoredStakingTx ::
    "'db backend \<Rightarrow> StakingTransaction \<Rightarrow> go_error + StoredStakingTransaction" where
  "protoStakingTxToStoredStakingTx B protoTx =
     (case Deserialize B (p_TransactionBytes protoTx) of
        Inl e \<Rightarrow> Inl (Wrap ''invalid staking tx'' (LibErr e))
      | Inr stakingTx \<Rightarrow>
        (case ParsePubKey B (p_StakerPk protoTx) of
           Inl e \<Rightarrow> Inl (Wrap ''invalid staker pk'' (LibErr e))
         | Inr stakerPk \<Rightarrow>
           (case ParsePubKey B (p_FinalityProviderPk protoTx) of
              Inl e \<Rightarrow> Inl (Wrap ''invalid finality provider pk'' (LibErr e))
            | Inr fpPk \<Rightarrow>
                Inr \<lparr>Tx = stakingTx, StakingOutputIdx = p_StakingOutputIdx protoTx,
                     InclusionHeight = p_InclusionHeight protoTx, StakerPk = stakerPk,
                     StakingTime = p_StakingTime protoTx, FinalityProviderPk = fpPk,
                     IsOverflow = p_IsOverflow protoTx, StakingValue = p_StakingValue protoTx\<rparr>)))"

text \<open>\<open>Inr None\<close> is the Go result \<open>(nil, nil)\<close>.\<close>

definition GetStakingTransaction ::
    "'db backend \<Rightarrow> hash \<Rightarrow> 'db \<Rightarrow> go_error + StoredStakingTransaction option" where
  "GetStakingTransaction B txHash d =
     (case View B (\<lambda>d.
        if \<not> HasBucket B d stakingTxBucketName then Inl (StoreErr ErrCorruptedTransactionsDb)
        else case Get B d stakingTxBucketName txHash of
               None \<Rightarrow> Inl (StoreErr ErrTransactionNotFound)
             | Some maybeTx \<Rightarrow>
               (case UnmarshalStaking B maybeTx of
                  Inl _ \<Rightarrow> Inl (StoreErr ErrCorruptedTransactionsDb)
                | Inr storedTxProto \<Rightarrow> protoStakingTxToStoredStakingTx B storedTxProto)) d of
        Inl e \<Rightarrow> if errors_Is e (StoreErr ErrTransactionNotFound) then Inr None else Inl e
      | Inr storedTx \<Rightarrow> Inr (Some storedTx))"

section \<open>Unbonding transactions\<close>

definition addUnbondingTransaction ::
    "'db backend \<Rightarrow> bytes \<Rightarrow> bytes \<Rightarrow> UnbondingTransaction \<Rightarrow> 'db \<Rightarrow> 'db \<times> go_error option" where
  "addUnbondingTransaction B txHashBytes stakingHashBytes ut = Batch B (\<lambda>d.
     if \<not> HasBucket B d stakingTxBucketName then Inl (StoreErr ErrCorruptedTransactionsDb)
     else case Get B d stakingTxBucketName stakingHashBytes of
            None \<Rightarrow> Inl (StoreErr ErrTransactionNotFound)
          | Some maybeStakingTx \<Rightarrow>
            (case UnmarshalStaking B maybeStakingTx of
               Inl _ \<Rightarrow> Inl (StoreErr ErrCorruptedTransactionsDb)
             | Inr storedTxProto \<Rightarrow>
                 if \<not> HasBucket B d unbondingTxBucketName
                 then Inl (StoreErr ErrCorruptedTransactionsDb)
                 else case Get B d unbondingTxBucketName txHashBytes of
                        Some _ \<Rightarrow> Inl (StoreErr ErrDuplicateTransaction)
                      | None \<Rightarrow>
                        (case MarshalUnbonding B ut of
                           Inl e \<Rightarrow> Inl (LibErr e)
                         | Inr marshalled \<Rightarrow>
                           (case Put B d unbondingTxBucketName txHashBytes marshalled of
                              Inl e \<Rightarrow> Inl (LibErr e)
                            | Inr d' \<Rightarrow>
                                if p_IsOverflow storedTxProto then Inr d'
                                else subtractConfirmedTvl B (p_StakingValue storedTxProto) d'))))"

definition AddUnbondingTransaction ::
    "'db backend \<Rightarrow> MsgTx \<Rightarrow> hash \<Rightarrow> 'db \<Rightarrow> 'db \<times> go_error option" where
  "AddUnbondingTransaction B tx stakingTxHash d =
     (case SerializeBtcTransaction B tx of
        Inl e \<Rightarrow> (d, Some e)
      | Inr serializedTx \<Rightarrow>
          addUnbondingTransaction B (TxHash B tx) stakingTxHash
            \<lparr>pu_TransactionBytes = serializedTx, pu_StakingTxHash = stakingTxHash\<rparr> d)"

definition protoUnbondingTxToStoredUnbondingTx ::
    "'db backend \<Rightarrow> UnbondingTransaction \<Rightarrow> go_error + StoredUnbondingTransaction" where
  "protoUnbondingTxToStoredUnbondingTx B protoTx =
     (case Deserialize B (pu_TransactionBytes protoTx) of
        Inl e \<Rightarrow> Inl (Wrap ''invalid unbonding tx'' (LibErr e))
      | Inr unbondingTx \<Rightarrow>
        (case NewHash B (pu_StakingTxHash protoTx) of
           Inl _ \<Rightarrow> Inl (Errorf ''invalid staking tx hash'')
         | Inr stakingTxHash \<Rightarrow>
             Inr \<lparr>unbonding_Tx = unbondingTx, StakingTxHash = stakingTxHash\<rparr>))"

definition GetUnbondingTransaction ::
    "'db backend \<Rightarrow> hash \<Rightarrow> 'db \<Rightarrow> go_error + StoredUnbondingTransaction option" where
  "GetUnbondingTransaction B txHash d =
     (case View B (\<lambda>d.
        if \<not> HasBucket B d unbondingTxBucketName then Inl (StoreErr ErrCorruptedTransactionsDb)
        else case Get B d unbondingTxBucketName txHash of
               None \<Rightarrow> Inl (StoreErr ErrTransactionNotFound)
             | Some maybeTx \<Rightarrow>
               (case UnmarshalUnbonding B maybeTx of
                  Inl _ \<Rightarrow> Inl (StoreErr ErrCorruptedTransactionsDb)
                | Inr storedTxProto \<Rightarrow> protoUnbondingTxToStoredUnbondingTx B storedTxProto)) d of
        Inl e \<Rightarrow> if errors_Is e (StoreErr ErrTransactionNotFound) then Inr None else Inl e
      | Inr storedTx \<Rightarrow> Inr (Some storedTx))"

definition TxExists :: "'db backend \<Rightarrow> hash \<Rightarrow> 'db \<Rightarrow> go_error + bool" where
  "TxExists B txHash = View B (\<lambda>d.
     if \<not> HasBucket B d stakingTxBucketName then Inl (StoreErr ErrCorruptedTransactionsDb)
     else if Get B d stakingTxBucketName txHash \<noteq> None then Inr True
     else if \<not> HasBucket B d unbondingTxBucketName then Inl (StoreErr ErrCorruptedTransactionsDb)
     else if Get B d unbondingTxBucketName txHash \<noteq> None then Inr True
     else Inr False)"

section \<open>The last processed height\<close>

definition SaveLastProcessedHeight :: "'db backend \<Rightarrow> u64 \<Rightarrow> 'db \<Rightarrow> 'db \<times> go_error option" where
  "SaveLastProcessedHeight B height = Batch B (\<lambda>d.
     if \<not> HasBucket B d indexerStateBucketName then Inl (StoreErr ErrCorruptedStateDb)
     else lib_result (Put B d indexerStateBucketName getLastProcessedHeightKey
            (uint64ToBytes height)))"

definition GetLastProcessedHeight :: "'db backend \<Rightarrow> 'db \<Rightarrow> go_error + u64" where
  "GetLastProcessedHeight B = View B (\<lambda>d.
     if \<not> HasBucket B d indexerStateBucketName then Inl (StoreErr ErrCorruptedStateDb)
     else case Get B d indexerStateBucketName getLastProcessedHeightKey of
            None \<Rightarrow> Inl (StoreErr ErrLastProcessedHeightNotFound)
          | Some v \<Rightarrow> uint64FromBytes v)"

end
