(* ===== verification/Ledger.thy ===== *)
theory Ledger
  imports Store
begin

text \<open>
  What the store promises: an abstract ledger with the staking and the unbonding
  transactions, the confirmed TVL and the last processed height, the three operations that
  change it, and the accounting law of the TVL. The locale \<open>ledger_store\<close> is the contract
  between a store implementation and its client; its lemmas hold for every run of operations
  and reach the real store through \<open>Store_Refinement\<close>.
\<close>

section \<open>Ledgers and their operations\<close>

record ledger =
  staking :: "hash \<rightharpoonup> StakingTransaction"
  unbonding :: "hash \<rightharpoonup> UnbondingTransaction"
  tvl :: "u64 option"
  height :: "u64 option"

definition empty_ledger :: ledger where
  "empty_ledger = \<lparr>staking = Map.empty, unbonding = Map.empty, tvl = None, height = None\<rparr>"

definition current_tvl :: "ledger \<Rightarrow> u64" where
  "current_tvl l = (case tvl l of None \<Rightarrow> 0 | Some t \<Rightarrow> t)"

datatype store_op =
    AddStaking hash StakingTransaction
  | AddUnbonding hash UnbondingTransaction
  | SaveHeight u64

fun apply_op :: "store_op \<Rightarrow> ledger \<Rightarrow> store_error + ledger" where
  "apply_op (AddStaking h p) l =
     (if staking l h \<noteq> None then Inl ErrDuplicateTransaction
      else Inr (l\<lparr>staking := (staking l)(h \<mapsto> p),
                  tvl := if p_IsOverflow p then tvl l
                         else Some (current_tvl l + p_StakingValue p)\<rparr>))"
| "apply_op (AddUnbonding h u) l =
     (case staking l (pu_StakingTxHash u) of
        None \<Rightarrow> Inl ErrTransactionNotFound
      | Some p \<Rightarrow>
          if unbonding l h \<noteq> None then Inl ErrDuplicateTransaction
          else if p_IsOverflow p then Inr (l\<lparr>unbonding := (unbonding l)(h \<mapsto> u)\<rparr>)
          else case tvl l of
                 None \<Rightarrow> Inl ErrCorruptedStateDb
               | Some t \<Rightarrow>
                   if p_StakingValue p > t then Inl ErrNegativeTvl
                   else Inr (l\<lparr>unbonding := (unbonding l)(h \<mapsto> u),
                               tvl := Some (t - p_StakingValue p)\<rparr>))"
| "apply_op (SaveHeight n) l = Inr (l\<lparr>height := Some n\<rparr>)"

section \<open>Well-formedness, growth and accounting\<close>

definition ledger_wf :: "ledger \<Rightarrow> bool" where
  "ledger_wf l \<longleftrightarrow> finite (dom (staking l)) \<and> finite (dom (unbonding l)) \<and>
     (\<forall>h u. unbonding l h = Some u \<longrightarrow> staking l (pu_StakingTxHash u) \<noteq> None) \<and>
     (\<forall>h p. staking l h = Some p \<longrightarrow> \<not> p_IsOverflow p \<longrightarrow> tvl l \<noteq> None)"

definition ledger_le :: "ledger \<Rightarrow> ledger \<Rightarrow> bool" where
  "ledger_le l l' \<longleftrightarrow> staking l \<subseteq>\<^sub>m staking l' \<and> unbonding l \<subseteq>\<^sub>m unbonding l'"

text \<open>A staking transaction counts for the TVL unless it is an overflow.\<close>

definition counted_value :: "StakingTransaction \<Rightarrow> u64" where
  "counted_value p = (if p_IsOverflow p then 0 else p_StakingValue p)"

definition staked :: "ledger \<Rightarrow> u64" where
  "staked l = (\<Sum>h\<in>dom (staking l). counted_value (the (staking l h)))"

definition unbonded :: "ledger \<Rightarrow> u64" where
  "unbonded l =
     (\<Sum>h\<in>dom (unbonding l).
        counted_value (the (staking l (pu_StakingTxHash (the (unbonding l h))))))"

text \<open>The accounting law, in the wrap-around arithmetic of \<open>uint64\<close>.\<close>

definition balanced :: "ledger \<Rightarrow> bool" where
  "balanced l \<longleftrightarrow> current_tvl l = staked l - unbonded l"

text \<open>
  The stake that is active: staked, not an overflow, and not unbonded; as a natural number,
  without wrap-around.
\<close>

definition unbonded_hashes :: "ledger \<Rightarrow> hash set" where
  "unbonded_hashes l = {pu_StakingTxHash u | h u. unbonding l h = Some u}"

definition active :: "ledger \<Rightarrow> hash set" where
  "active l = {h \<in> dom (staking l). \<not> p_IsOverflow (the (staking l h))} - unbonded_hashes l"

definition active_stake :: "ledger \<Rightarrow> nat" where
  "active_stake l = (\<Sum>h\<in>active l. unat (p_StakingValue (the (staking l h))))"

text \<open>No staking transaction is unbonded by two stored transactions.\<close>

definition single_unbonding :: "ledger \<Rightarrow> bool" where
  "single_unbonding l \<longleftrightarrow>
     (\<forall>h h' u u'. unbonding l h = Some u \<longrightarrow> unbonding l h' = Some u' \<longrightarrow>
        pu_StakingTxHash u = pu_StakingTxHash u' \<longrightarrow> h = h')"

section \<open>Facts about ledgers\<close>

lemma ledger_le_refl [simp]: "ledger_le l l"
  by (simp add: ledger_le_def)

lemma ledger_le_trans: "ledger_le a b \<Longrightarrow> ledger_le b c \<Longrightarrow> ledger_le a c"
  by (auto simp: ledger_le_def intro: map_le_trans)

lemma ledger_le_staking: "ledger_le l l' \<Longrightarrow> staking l h = Some p \<Longrightarrow> staking l' h = Some p"
  by (auto simp: ledger_le_def map_le_def dom_def)

lemma ledger_le_unbonding: "ledger_le l l' \<Longrightarrow> unbonding l h = Some u \<Longrightarrow> unbonding l' h = Some u"
  by (auto simp: ledger_le_def map_le_def dom_def)

lemma map_le_fresh: "m h = None \<Longrightarrow> m \<subseteq>\<^sub>m m(h \<mapsto> x)"
  by (auto simp: map_le_def)

text \<open>What an applied operation does to the two maps.\<close>

lemma apply_staking_maps:
  assumes "apply_op (AddStaking h p) l = Inr l'"
  shows "staking l h = None" and "staking l' = (staking l)(h \<mapsto> p)" and "unbonding l' = unbonding l"
  using assms by (auto split: if_splits)

lemma apply_unbonding_maps:
  assumes "apply_op (AddUnbonding h u) l = Inr l'"
  shows "unbonding l h = None" and "unbonding l' = (unbonding l)(h \<mapsto> u)"
    and "staking l' = staking l" and "staking l (pu_StakingTxHash u) \<noteq> None"
  using assms by (auto split: if_splits option.splits)

lemma apply_height_maps:
  assumes "apply_op (SaveHeight n) l = Inr l'"
  shows "staking l' = staking l" and "unbonding l' = unbonding l" and "tvl l' = tvl l"
    and "height l' = Some n"
  using assms by auto

lemma apply_op_le: "apply_op op l = Inr l' \<Longrightarrow> ledger_le l l'"
  by (cases op) (auto simp: ledger_le_def map_le_fresh split: if_splits option.splits)

lemma apply_op_wf: "apply_op op l = Inr l' \<Longrightarrow> ledger_wf l \<Longrightarrow> ledger_wf l'"
  by (cases op) (auto simp: ledger_wf_def split: if_splits option.splits)

lemma ledger_wf_empty [simp]: "ledger_wf empty_ledger"
  by (simp add: ledger_wf_def empty_ledger_def)

lemma balanced_empty [simp]: "balanced empty_ledger"
  by (simp add: balanced_def empty_ledger_def current_tvl_def staked_def unbonded_def)

text \<open>A sum over the domain of a map gains the new entry.\<close>

lemma sum_map_upd:
  fixes f :: "'k \<Rightarrow> 'v \<Rightarrow> 'b :: comm_monoid_add"
  assumes "finite (dom m)" and "m k = None"
  shows "(\<Sum>x\<in>dom (m(k \<mapsto> v)). f x (the ((m(k \<mapsto> v)) x)))
    = f k v + (\<Sum>x\<in>dom m. f x (the (m x)))"
proof -
  have k: "k \<notin> dom m" using assms(2) by auto
  have "(\<Sum>x\<in>dom m. f x (the ((m(k \<mapsto> v)) x))) = (\<Sum>x\<in>dom m. f x (the (m x)))"
    by (rule sum.cong) (use k in auto)
  then show ?thesis using assms(1) k by simp
qed

lemma staked_upd:
  assumes "finite (dom (staking l))" and "staking l h = None"
  shows "staked (l\<lparr>staking := (staking l)(h \<mapsto> p)\<rparr>) = counted_value p + staked l"
  using sum_map_upd [OF assms, of "\<lambda>_. counted_value" p] by (simp add: staked_def)

lemma unbonded_upd:
  assumes "finite (dom (unbonding l))" and "unbonding l h = None"
  shows "unbonded (l\<lparr>unbonding := (unbonding l)(h \<mapsto> u)\<rparr>)
    = counted_value (the (staking l (pu_StakingTxHash u))) + unbonded l"
  using sum_map_upd [OF assms, of "\<lambda>_ u. counted_value (the (staking l (pu_StakingTxHash u)))" u]
  by (simp add: unbonded_def)

text \<open>What was unbonded stays the same when a new staking transaction is added.\<close>

lemma unbonded_staking_upd:
  assumes "ledger_wf l" and "staking l h = None"
  shows "unbonded (l\<lparr>staking := (staking l)(h \<mapsto> p)\<rparr>) = unbonded l"
proof -
  have "pu_StakingTxHash (the (unbonding l x)) \<noteq> h" if "x \<in> dom (unbonding l)" for x
    using that assms by (force simp: ledger_wf_def)
  then show ?thesis
    by (simp add: unbonded_def cong: sum.cong)
qed

lemma staked_simps [simp]:
  "staked (l\<lparr>unbonding := U\<rparr>) = staked l" "staked (l\<lparr>tvl := t\<rparr>) = staked l"
  "staked (l\<lparr>height := n\<rparr>) = staked l"
  by (simp_all add: staked_def)

lemma unbonded_simps [simp]:
  "unbonded (l\<lparr>tvl := t\<rparr>) = unbonded l" "unbonded (l\<lparr>height := n\<rparr>) = unbonded l"
  by (simp_all add: unbonded_def)

lemma current_tvl_simps [simp]:
  "current_tvl (l\<lparr>tvl := Some t\<rparr>) = t" "current_tvl (l\<lparr>height := n\<rparr>) = current_tvl l"
  "current_tvl (l\<lparr>staking := S\<rparr>) = current_tvl l"
  "current_tvl (l\<lparr>unbonding := U\<rparr>) = current_tvl l"
  by (simp_all add: current_tvl_def)

lemma apply_op_balanced:
  assumes "apply_op op l = Inr l'" and "ledger_wf l" and "balanced l"
  shows "balanced l'"
proof (cases op)
  case (AddStaking h p)
  let ?l1 = "l\<lparr>staking := (staking l)(h \<mapsto> p)\<rparr>"
  have new: "staking l h = None" and
    l': "l' = ?l1\<lparr>tvl := if p_IsOverflow p then tvl l else Some (current_tvl l + p_StakingValue p)\<rparr>"
    using assms(1) AddStaking by (auto split: if_splits)
  have "staked ?l1 = counted_value p + staked l"
    using assms(2) new by (intro staked_upd) (auto simp: ledger_wf_def)
  moreover have "unbonded ?l1 = unbonded l"
    using assms(2) new by (rule unbonded_staking_upd)
  ultimately show ?thesis
    using assms(3) l' by (simp add: balanced_def counted_value_def current_tvl_def)
next
  case (AddUnbonding h u)
  let ?l1 = "l\<lparr>unbonding := (unbonding l)(h \<mapsto> u)\<rparr>"
  obtain p where p: "staking l (pu_StakingTxHash u) = Some p" and new: "unbonding l h = None"
    using assms(1) AddUnbonding by (auto split: option.splits if_splits)
  have l': "l' = (if p_IsOverflow p then ?l1
      else ?l1\<lparr>tvl := Some (current_tvl l - p_StakingValue p)\<rparr>)"
    using assms(1) AddUnbonding p by (auto simp: current_tvl_def split: option.splits if_splits)
  have "unbonded ?l1 = counted_value p + unbonded l"
    using assms(2) new p unbonded_upd [of l h u] by (auto simp: ledger_wf_def)
  then show ?thesis
    using assms(3) l' by (auto simp: balanced_def counted_value_def)
next
  case (SaveHeight n)
  then show ?thesis using assms by (auto simp: balanced_def)
qed

section \<open>The balance as the active stake\<close>

lemma unbonded_hashes_subset: "ledger_wf l \<Longrightarrow> unbonded_hashes l \<subseteq> dom (staking l)"
  by (auto simp: ledger_wf_def unbonded_hashes_def)

lemma unbonded_eq_image:
  assumes "single_unbonding l"
  shows "unbonded l = (\<Sum>h\<in>unbonded_hashes l. counted_value (the (staking l h)))"
proof -
  let ?f = "\<lambda>h. pu_StakingTxHash (the (unbonding l h))"
  have "inj_on ?f (dom (unbonding l))"
    using assms by (force simp: inj_on_def single_unbonding_def)
  moreover have "unbonded_hashes l = ?f ` dom (unbonding l)"
    by (force simp: unbonded_hashes_def image_iff)
  ultimately show ?thesis
    unfolding unbonded_def by (intro sum.reindex_cong [symmetric]) auto
qed

text \<open>
  Where no staking transaction is unbonded twice, the balance is the active stake modulo
  \<open>2 ^ 64\<close>.
\<close>

lemma balanced_active_stake:
  assumes "ledger_wf l" and "balanced l" and "single_unbonding l"
  shows "current_tvl l = word_of_nat (active_stake l)"
proof -
  let ?D = "dom (staking l)" and ?U = "unbonded_hashes l"
  let ?v = "\<lambda>h. counted_value (the (staking l h))"
  have fin: "finite ?D" using assms(1) by (simp add: ledger_wf_def)
  have "sum ?v ?D = sum ?v (?D - ?U) + sum ?v ?U"
    using sum.subset_diff [OF unbonded_hashes_subset [OF assms(1)] fin] by simp
  then have "current_tvl l = sum ?v (?D - ?U)"
    using assms(2) by (simp add: balanced_def staked_def unbonded_eq_image [OF assms(3)])
  also have "\<dots> = sum ?v (active l)"
    by (rule sum.mono_neutral_right) (use fin in \<open>auto simp: active_def counted_value_def\<close>)
  also have "\<dots> = (\<Sum>h\<in>active l. word_of_nat (unat (p_StakingValue (the (staking l h)))))"
    by (rule sum.cong) (auto simp: active_def counted_value_def)
  finally show ?thesis by (simp add: active_stake_def)
qed

lemma finite_active: "ledger_wf l \<Longrightarrow> finite (active l)"
  by (auto simp: active_def ledger_wf_def)

text \<open>
  Unbonding an active stake for the first time succeeds: neither the missing TVL entry nor
  the negative TVL can occur, as long as the active stake fits into \<open>uint64\<close>.
\<close>

lemma apply_unbonding_active:
  assumes "ledger_wf l" and "balanced l" and "single_unbonding l"
    and "active_stake l < 2 ^ 64"
    and st: "staking l (pu_StakingTxHash u) = Some p"
    and fresh: "pu_StakingTxHash u \<notin> unbonded_hashes l" "unbonding l h = None"
  shows "\<exists>l'. apply_op (AddUnbonding h u) l = Inr l'"
proof (cases "p_IsOverflow p")
  case True
  then show ?thesis using st fresh by simp
next
  case False
  have act: "pu_StakingTxHash u \<in> active l"
    using st fresh False by (auto simp: active_def)
  obtain t where t: "tvl l = Some t"
    using assms(1) st False by (fastforce simp: ledger_wf_def)
  have "unat t = active_stake l"
    using balanced_active_stake [OF assms(1-3)] t assms(4)
    by (simp add: current_tvl_def unat_of_nat take_bit_nat_eq_self)
  moreover have "unat (p_StakingValue p) \<le> active_stake l"
    unfolding active_stake_def
    using member_le_sum [OF act _ finite_active [OF assms(1)],
        of "\<lambda>h. unat (p_StakingValue (the (staking l h)))"] st by simp
  ultimately have "\<not> p_StakingValue p > t"
    by (simp add: word_less_nat_alt)
  then show ?thesis using st fresh False t by simp
qed

lemma single_unbonding_upd:
  assumes "single_unbonding l" and "apply_op op l = Inr l'"
    and "\<And>h u. op = AddUnbonding h u \<Longrightarrow> pu_StakingTxHash u \<notin> unbonded_hashes l"
  shows "single_unbonding l'"
proof -
  have "unbonding l' = unbonding l \<or>
      (\<exists>h u. op = AddUnbonding h u \<and> unbonding l' = (unbonding l)(h \<mapsto> u))"
    using assms(2) by (cases op) (auto split: if_splits option.splits)
  then show ?thesis
  proof (elim disjE exE conjE)
    assume "unbonding l' = unbonding l"
    then show ?thesis using assms(1) by (simp add: single_unbonding_def)
  next
    fix h u
    assume op: "op = AddUnbonding h u" and l': "unbonding l' = (unbonding l)(h \<mapsto> u)"
    from assms(3) [OF op] have "unbonding l k = Some w \<Longrightarrow> pu_StakingTxHash w \<noteq> pu_StakingTxHash u"
      for k w by (auto simp: unbonded_hashes_def)
    then show ?thesis
      using assms(1) unfolding single_unbonding_def l' by (auto split: if_splits) metis+
  qed
qed

section \<open>The contract of a store\<close>

definition lib_failure :: "go_error \<Rightarrow> bool" where
  "lib_failure e \<longleftrightarrow> (\<exists>m. e = LibErr m)"

text \<open>
  An implementation with states \<open>'db\<close>: on a state that is \<open>ok\<close>, an admissible operation
  that returns no error does what the ledger operation does and leaves a state that is
  \<open>ok\<close>; one that returns an error leaves the state as it was, and the error is either one
  of the database's own or the one the ledger operation gives.
\<close>

locale ledger_store =
  fixes ok :: "'db \<Rightarrow> bool"
    and abs :: "'db \<Rightarrow> ledger"
    and exec :: "store_op \<Rightarrow> 'db \<Rightarrow> 'db \<times> go_error option"
    and admissible :: "store_op \<Rightarrow> bool"
  assumes ok_wf: "ok d \<Longrightarrow> ledger_wf (abs d)"
    and exec_ok: "ok d \<Longrightarrow> admissible op \<Longrightarrow> exec op d = (d', None) \<Longrightarrow>
        ok d' \<and> apply_op op (abs d) = Inr (abs d')"
    and exec_err: "ok d \<Longrightarrow> admissible op \<Longrightarrow> exec op d = (d', Some e) \<Longrightarrow>
        d' = d \<and> (lib_failure e \<or> (\<exists>se. e = StoreErr se \<and> apply_op op (abs d) = Inl se))"
begin

lemma exec_cases [consumes 2, case_names applied refused]:
  assumes "ok d" and "admissible op"
  obtains d' where "exec op d = (d', None)" and "ok d'" and "apply_op op (abs d) = Inr (abs d')"
  | e where "exec op d = (d, Some e)"
    and "lib_failure e \<or> (\<exists>se. e = StoreErr se \<and> apply_op op (abs d) = Inl se)"
proof (cases "snd (exec op d)")
  case None
  then have "exec op d = (fst (exec op d), None)" by (metis prod.collapse)
  with exec_ok [OF assms this] that(1) show ?thesis by blast
next
  case (Some e)
  then have eq: "exec op d = (fst (exec op d), Some e)" by (metis prod.collapse)
  from exec_err [OF assms eq] eq that(2) show ?thesis by simp
qed

lemma exec_keeps_ok:
  assumes "ok d" and "admissible op"
  shows "ok (fst (exec op d))"
  using assms by (cases rule: exec_cases) (simp_all add: assms)

lemma exec_le:
  assumes "ok d" and "admissible op"
  shows "ledger_le (abs d) (abs (fst (exec op d)))"
  using assms by (cases rule: exec_cases) (simp_all add: apply_op_le)

lemma exec_balanced:
  assumes "ok d" and "admissible op" and "balanced (abs d)"
  shows "balanced (abs (fst (exec op d)))"
  using assms(1,2) by (cases rule: exec_cases) (simp_all add: assms apply_op_balanced [OF _ ok_wf])

text \<open>A duplicate is refused and changes nothing.\<close>

lemma exec_duplicate:
  assumes "ok d" and "admissible op" and "apply_op op (abs d) = Inl ErrDuplicateTransaction"
  shows "fst (exec op d) = d"
  using assms by (cases rule: exec_cases) simp_all

end

end
