(* ===== verification/Store_Refinement.thy ===== *)
theory Store_Refinement
  imports Ledger
begin

text \<open>
  The store of \<open>Store\<close> implements the ledger of \<open>Ledger\<close>. The locale \<open>store_backend\<close>
  states what the third-party calls are documented to do; inside it every operation of the
  store is shown to refine its ledger operation (the contract \<open>ledger_store\<close>), and what the
  readers return is computed from the ledger.
\<close>

section \<open>The documented behaviour of the third-party calls\<close>

text \<open>
  \<^item> \<open>Put\<close> writes one key of one bucket; \<open>CreateTopLevelBucket\<close> adds an empty bucket or
    leaves an existing one alone.
  \<^item> \<open>Batch\<close> commits the closure's database, or returns an error and leaves the database as
    it was: the closure's error, or one of the database's own.
  \<^item> Unmarshalling gives back the marshalled message; deserialising gives back a serialised
    transaction that has inputs; parsing a serialised (x-only) key gives a key with the same
    serialisation; a 32-byte slice is a hash, and transaction hashes have 32 bytes.
\<close>

locale store_backend =
  fixes B :: "'db backend"
  assumes put_get: "Put B d b k v = Inr d' \<Longrightarrow> Get B d' = (Get B d)(b := (Get B d b)(k \<mapsto> v))"
    and put_bucket: "Put B d b k v = Inr d' \<Longrightarrow> HasBucket B d' = HasBucket B d"
    and create_get: "CreateTopLevelBucket B d b = Inr d' \<Longrightarrow> Get B d' = Get B d"
    and create_bucket: "CreateTopLevelBucket B d b = Inr d' \<Longrightarrow>
        HasBucket B d' = (HasBucket B d)(b := True)"
    and batch_err: "f d = Inl e \<Longrightarrow> Batch B f d = (d, Some e)"
    and batch_ok: "f d = Inr d' \<Longrightarrow>
        Batch B f d = (d', None) \<or> (\<exists>m. Batch B f d = (d, Some (LibErr m)))"
    and unmarshal_staking: "MarshalStaking B p = Inr b \<Longrightarrow> UnmarshalStaking B b = Inr p"
    and unmarshal_unbonding: "MarshalUnbonding B u = Inr b \<Longrightarrow> UnmarshalUnbonding B b = Inr u"
    and deserialize: "Serialize B tx = Inr b \<Longrightarrow> TxIn tx \<noteq> [] \<Longrightarrow> Deserialize B b = Inr tx"
    and parse_pubkey: "\<exists>pk'. ParsePubKey B (SerializePubKey B pk) = Inr pk' \<and>
        SerializePubKey B pk' = SerializePubKey B pk"
    and new_hash: "length b = 32 \<Longrightarrow> NewHash B b = Inr b"
    and length_TxHash: "length (TxHash B tx) = 32"

section \<open>The ledger in a database\<close>

definition staking_of :: "'db backend \<Rightarrow> (bytes \<Rightarrow> bytes \<Rightarrow> bytes option) \<Rightarrow> hash \<rightharpoonup> StakingTransaction" where
  "staking_of B g h =
     (case g stakingTxBucketName h of
        None \<Rightarrow> None
      | Some v \<Rightarrow> (case UnmarshalStaking B v of Inl _ \<Rightarrow> None | Inr p \<Rightarrow> Some p))"

definition unbonding_of ::
    "'db backend \<Rightarrow> (bytes \<Rightarrow> bytes \<Rightarrow> bytes option) \<Rightarrow> hash \<rightharpoonup> UnbondingTransaction" where
  "unbonding_of B g h =
     (case g unbondingTxBucketName h of
        None \<Rightarrow> None
      | Some v \<Rightarrow> (case UnmarshalUnbonding B v of Inl _ \<Rightarrow> None | Inr u \<Rightarrow> Some u))"

definition ledger_of :: "'db backend \<Rightarrow> 'db \<Rightarrow> ledger" where
  "ledger_of B d =
     \<lparr>staking = staking_of B (Get B d),
      unbonding = unbonding_of B (Get B d),
      tvl = map_option BigEndian_Uint64 (Get B d confirmedTvlBucketName getConfirmedTvlKey),
      height = map_option BigEndian_Uint64
        (Get B d indexerStateBucketName getLastProcessedHeightKey)\<rparr>"

text \<open>The messages that decode, as the messages the store writes do.\<close>

definition staking_decodes :: "'db backend \<Rightarrow> hash \<Rightarrow> StakingTransaction \<Rightarrow> bool" where
  "staking_decodes B h p \<longleftrightarrow>
     (\<exists>st. protoStakingTxToStoredStakingTx B p = Inr st \<and> TxHash B (Tx st) = h)"

definition unbonding_decodes :: "'db backend \<Rightarrow> hash \<Rightarrow> UnbondingTransaction \<Rightarrow> bool" where
  "unbonding_decodes B h u \<longleftrightarrow>
     (\<exists>ut. protoUnbondingTxToStoredUnbondingTx B u = Inr ut \<and> TxHash B (unbonding_Tx ut) = h \<and>
        StakingTxHash ut = pu_StakingTxHash u)"

definition has_buckets :: "'db backend \<Rightarrow> 'db \<Rightarrow> bool" where
  "has_buckets B d \<longleftrightarrow>
     HasBucket B d stakingTxBucketName \<and> HasBucket B d unbondingTxBucketName \<and>
     HasBucket B d indexerStateBucketName \<and> HasBucket B d confirmedTvlBucketName"

text \<open>Nothing in the database is corrupted.\<close>

definition contents_ok :: "'db backend \<Rightarrow> 'db \<Rightarrow> bool" where
  "contents_ok B d \<longleftrightarrow>
     (\<forall>h v. Get B d stakingTxBucketName h = Some v \<longrightarrow>
        (\<exists>p. UnmarshalStaking B v = Inr p \<and> staking_decodes B h p)) \<and>
     (\<forall>h v. Get B d unbondingTxBucketName h = Some v \<longrightarrow>
        (\<exists>u. UnmarshalUnbonding B v = Inr u \<and> unbonding_decodes B h u)) \<and>
     (\<forall>v. Get B d confirmedTvlBucketName getConfirmedTvlKey = Some v \<longrightarrow> length v = 8) \<and>
     (\<forall>v. Get B d indexerStateBucketName getLastProcessedHeightKey = Some v \<longrightarrow> length v = 8)"

definition store_ok :: "'db backend \<Rightarrow> 'db \<Rightarrow> bool" where
  "store_ok B d \<longleftrightarrow> has_buckets B d \<and> contents_ok B d \<and> ledger_wf (ledger_of B d)"

text \<open>The operations of the store that write, as the contract numbers them.\<close>

fun exec_op :: "'db backend \<Rightarrow> store_op \<Rightarrow> 'db \<Rightarrow> 'db \<times> go_error option" where
  "exec_op B (AddStaking h p) = addStakingTransaction B h p"
| "exec_op B (AddUnbonding h u) = addUnbondingTransaction B h (pu_StakingTxHash u) u"
| "exec_op B (SaveHeight n) = SaveLastProcessedHeight B n"

fun admissible_op :: "'db backend \<Rightarrow> store_op \<Rightarrow> bool" where
  "admissible_op B (AddStaking h p) = staking_decodes B h p"
| "admissible_op B (AddUnbonding h u) = unbonding_decodes B h u"
| "admissible_op B (SaveHeight n) = True"

text \<open>A database that was never written to.\<close>

definition fresh_db :: "'db backend \<Rightarrow> 'db \<Rightarrow> bool" where
  "fresh_db B d \<longleftrightarrow> Get B d = (\<lambda>_ _. None)"

section \<open>Names and integers\<close>

lemma bucket_names_distinct [simp]:
  "stakingTxBucketName \<noteq> unbondingTxBucketName" "unbondingTxBucketName \<noteq> stakingTxBucketName"
  "stakingTxBucketName \<noteq> indexerStateBucketName" "indexerStateBucketName \<noteq> stakingTxBucketName"
  "stakingTxBucketName \<noteq> confirmedTvlBucketName" "confirmedTvlBucketName \<noteq> stakingTxBucketName"
  "unbondingTxBucketName \<noteq> indexerStateBucketName" "indexerStateBucketName \<noteq> unbondingTxBucketName"
  "unbondingTxBucketName \<noteq> confirmedTvlBucketName" "confirmedTvlBucketName \<noteq> unbondingTxBucketName"
  "indexerStateBucketName \<noteq> confirmedTvlBucketName" "confirmedTvlBucketName \<noteq> indexerStateBucketName"
  by (simp_all add: stakingTxBucketName_def unbondingTxBucketName_def indexerStateBucketName_def
      confirmedTvlBucketName_def bytes_of_string_def)

lemma uint64FromBytes_ToBytes [simp]: "uint64FromBytes (uint64ToBytes v) = Inr v"
  by (simp add: uint64FromBytes_def uint64ToBytes_def)

lemma uint64FromBytes_8: "length b = 8 \<Longrightarrow> uint64FromBytes b = Inr (BigEndian_Uint64 b)"
  by (simp add: uint64FromBytes_def)

lemma BigEndian_uint64ToBytes [simp]: "BigEndian_Uint64 (uint64ToBytes v) = v"
  by (simp add: uint64ToBytes_def)

lemma length_uint64ToBytes [simp]: "length (uint64ToBytes v) = 8"
  by (simp add: uint64ToBytes_def)

lemma ledger_of_sel [simp]:
  "staking (ledger_of B d) = staking_of B (Get B d)"
  "unbonding (ledger_of B d) = unbonding_of B (Get B d)"
  by (simp_all add: ledger_of_def)

lemma ledger_of_state:
  "tvl (ledger_of B d) = map_option BigEndian_Uint64 (Get B d confirmedTvlBucketName getConfirmedTvlKey)"
  "height (ledger_of B d) =
     map_option BigEndian_Uint64 (Get B d indexerStateBucketName getLastProcessedHeightKey)"
  by (simp_all add: ledger_of_def)

lemma staking_of_upd [simp]:
  "staking_of B (g(stakingTxBucketName := m)) h =
     (case m h of None \<Rightarrow> None
      | Some v \<Rightarrow> (case UnmarshalStaking B v of Inl _ \<Rightarrow> None | Inr p \<Rightarrow> Some p))"
  "b \<noteq> stakingTxBucketName \<Longrightarrow> staking_of B (g(b := m)) = staking_of B g"
  by (auto simp: staking_of_def fun_eq_iff)

lemma unbonding_of_upd [simp]:
  "unbonding_of B (g(unbondingTxBucketName := m)) h =
     (case m h of None \<Rightarrow> None
      | Some v \<Rightarrow> (case UnmarshalUnbonding B v of Inl _ \<Rightarrow> None | Inr u \<Rightarrow> Some u))"
  "b \<noteq> unbondingTxBucketName \<Longrightarrow> unbonding_of B (g(b := m)) = unbonding_of B g"
  by (auto simp: unbonding_of_def fun_eq_iff)

text \<open>What the ledger of an uncorrupted database holds decodes.\<close>

lemma store_ok_decodes:
  assumes "store_ok B d"
  shows "staking (ledger_of B d) h = Some p \<Longrightarrow> staking_decodes B h p"
    and "unbonding (ledger_of B d) h = Some u \<Longrightarrow> unbonding_decodes B h u"
  using assms
  by (fastforce simp: store_ok_def contents_ok_def staking_of_def unbonding_of_def
      split: option.splits sum.splits)+

section \<open>The refinement\<close>

context store_backend
begin

lemma batch_None: "Batch B f d = (d', None) \<Longrightarrow> f d = Inr d'"
  using batch_err [of f d] batch_ok [of f d] by (cases "f d") auto

lemma batch_Some:
  "Batch B f d = (d', Some e) \<Longrightarrow> d' = d \<and> (f d = Inl e \<or> lib_failure e)"
  using batch_err [of f d] batch_ok [of f d] by (cases "f d") (auto simp: lib_failure_def)

lemma contents_ok_staking:
  assumes "contents_ok B d" and "Get B d stakingTxBucketName h = Some v"
  obtains p st where "UnmarshalStaking B v = Inr p" and "staking_of B (Get B d) h = Some p"
    and "protoStakingTxToStoredStakingTx B p = Inr st" and "TxHash B (Tx st) = h"
  using assms by (fastforce simp: contents_ok_def staking_decodes_def staking_of_def)

lemma contents_ok_unbonding:
  assumes "contents_ok B d" and "Get B d unbondingTxBucketName h = Some v"
  obtains u ut where "UnmarshalUnbonding B v = Inr u" and "unbonding_of B (Get B d) h = Some u"
    and "protoUnbondingTxToStoredUnbondingTx B u = Inr ut" and "TxHash B (unbonding_Tx ut) = h"
    and "StakingTxHash ut = pu_StakingTxHash u"
  using assms by (fastforce simp: contents_ok_def unbonding_decodes_def unbonding_of_def)

text \<open>The keys of the two transaction buckets are those of the ledger.\<close>

lemma staking_of_None_iff:
  "contents_ok B d \<Longrightarrow> staking_of B (Get B d) h = None \<longleftrightarrow> Get B d stakingTxBucketName h = None"
  by (cases "Get B d stakingTxBucketName h")
    (auto simp: staking_of_def elim!: contents_ok_staking)

lemma unbonding_of_None_iff:
  "contents_ok B d \<Longrightarrow>
    unbonding_of B (Get B d) h = None \<longleftrightarrow> Get B d unbondingTxBucketName h = None"
  by (cases "Get B d unbondingTxBucketName h")
    (auto simp: unbonding_of_def elim!: contents_ok_unbonding)

text \<open>One write of a key, seen from the ledger.\<close>

lemma increment_Inr:
  assumes "contents_ok B d" and "incrementConfirmedTvl B x d = Inr d'"
  shows "HasBucket B d' = HasBucket B d"
    and "Get B d' = (Get B d)(confirmedTvlBucketName := (Get B d confirmedTvlBucketName)
           (getConfirmedTvlKey \<mapsto> uint64ToBytes (current_tvl (ledger_of B d) + x)))"
proof -
  have "Put B d confirmedTvlBucketName getConfirmedTvlKey
      (uint64ToBytes (current_tvl (ledger_of B d) + x)) = Inr d'"
    using assms by (auto simp: incrementConfirmedTvl_def contents_ok_def current_tvl_def ledger_of_state
        uint64FromBytes_8 lib_result_def split: if_splits option.splits sum.splits)
  then show "HasBucket B d' = HasBucket B d"
    and "Get B d' = (Get B d)(confirmedTvlBucketName := (Get B d confirmedTvlBucketName)
           (getConfirmedTvlKey \<mapsto> uint64ToBytes (current_tvl (ledger_of B d) + x)))"
    by (rule put_bucket, rule put_get)
qed

lemma increment_Inl:
  assumes "has_buckets B d" and "contents_ok B d" and "incrementConfirmedTvl B x d = Inl e"
  shows "lib_failure e"
  using assms by (auto simp: incrementConfirmedTvl_def contents_ok_def has_buckets_def
      uint64FromBytes_8 lib_result_def lib_failure_def split: if_splits option.splits sum.splits)

lemma subtract_Inr:
  assumes "contents_ok B d" and "subtractConfirmedTvl B x d = Inr d'"
  obtains t where "tvl (ledger_of B d) = Some t" and "\<not> x > t"
    and "HasBucket B d' = HasBucket B d"
    and "Get B d' = (Get B d)(confirmedTvlBucketName := (Get B d confirmedTvlBucketName)
           (getConfirmedTvlKey \<mapsto> uint64ToBytes (t - x)))"
proof -
  obtain t where t: "tvl (ledger_of B d) = Some t" "\<not> x > t"
    and put: "Put B d confirmedTvlBucketName getConfirmedTvlKey (uint64ToBytes (t - x)) = Inr d'"
    using assms by (auto simp: subtractConfirmedTvl_def contents_ok_def ledger_of_state
        uint64FromBytes_8 lib_result_def split: if_splits option.splits sum.splits)
  from that [OF t put_bucket [OF put] put_get [OF put]] show ?thesis .
qed

lemma subtract_Inl:
  assumes "has_buckets B d" and "contents_ok B d" and "subtractConfirmedTvl B x d = Inl e"
  shows "lib_failure e \<or>
    (tvl (ledger_of B d) = None \<and> e = StoreErr ErrCorruptedStateDb) \<or>
    (\<exists>t. tvl (ledger_of B d) = Some t \<and> x > t \<and> e = StoreErr ErrNegativeTvl)"
  using assms by (auto simp: subtractConfirmedTvl_def contents_ok_def has_buckets_def ledger_of_state
      uint64FromBytes_8 lib_result_def lib_failure_def split: if_splits option.splits sum.splits)

lemma contents_ok_staking_upd:
  assumes "contents_ok B d" and "UnmarshalStaking B v = Inr p" and "staking_decodes B h p"
    and "Get B d' = (Get B d)(stakingTxBucketName := (Get B d stakingTxBucketName)(h \<mapsto> v))"
  shows "contents_ok B d'"
  using assms by (auto simp: contents_ok_def)

lemma contents_ok_unbonding_upd:
  assumes "contents_ok B d" and "UnmarshalUnbonding B v = Inr u" and "unbonding_decodes B h u"
    and "Get B d' = (Get B d)(unbondingTxBucketName := (Get B d unbondingTxBucketName)(h \<mapsto> v))"
  shows "contents_ok B d'"
  using assms by (auto simp: contents_ok_def)

lemma contents_ok_tvl_upd:
  assumes "contents_ok B d" and "length v = 8"
    and "Get B d' = (Get B d)(confirmedTvlBucketName := (Get B d confirmedTvlBucketName)(k \<mapsto> v))"
  shows "contents_ok B d'"
  using assms by (auto simp: contents_ok_def)

lemma ledger_of_staking_upd:
  assumes "UnmarshalStaking B v = Inr p"
    and "Get B d' = (Get B d)(stakingTxBucketName := (Get B d stakingTxBucketName)(h \<mapsto> v))"
  shows "ledger_of B d' = (ledger_of B d)\<lparr>staking := (staking_of B (Get B d))(h \<mapsto> p)\<rparr>"
  by (simp add: ledger_of_def assms(2)) (rule ext, simp add: assms(1) staking_of_def)

lemma ledger_of_unbonding_upd:
  assumes "UnmarshalUnbonding B v = Inr u"
    and "Get B d' = (Get B d)(unbondingTxBucketName := (Get B d unbondingTxBucketName)(h \<mapsto> v))"
  shows "ledger_of B d' = (ledger_of B d)\<lparr>unbonding := (unbonding_of B (Get B d))(h \<mapsto> u)\<rparr>"
  by (simp add: ledger_of_def assms(2)) (rule ext, simp add: assms(1) unbonding_of_def)

lemma ledger_of_tvl_upd:
  assumes "Get B d' = (Get B d)(confirmedTvlBucketName := (Get B d confirmedTvlBucketName)
             (getConfirmedTvlKey \<mapsto> uint64ToBytes t))"
  shows "ledger_of B d' = (ledger_of B d)\<lparr>tvl := Some t\<rparr>"
  using assms by (simp add: ledger_of_def)

lemma ledger_of_height_upd:
  assumes "Get B d' = (Get B d)(indexerStateBucketName := (Get B d indexerStateBucketName)
             (getLastProcessedHeightKey \<mapsto> uint64ToBytes n))"
  shows "ledger_of B d' = (ledger_of B d)\<lparr>height := Some n\<rparr>"
  using assms by (simp add: ledger_of_def)

lemma add_staking_done:
  assumes ok: "has_buckets B d" "contents_ok B d" and dec: "staking_decodes B h p"
    and run: "addStakingTransaction B h p d = (d', None)"
  shows "has_buckets B d' \<and> contents_ok B d' \<and>
    apply_op (AddStaking h p) (ledger_of B d) = Inr (ledger_of B d')"
proof -
  from batch_None [OF run [unfolded addStakingTransaction_def]] obtain v d1 where
    new: "Get B d stakingTxBucketName h = None" and m: "MarshalStaking B p = Inr v"
    and put: "Put B d stakingTxBucketName h v = Inr d1"
    and d': "if p_IsOverflow p then d1 = d' else incrementConfirmedTvl B (p_StakingValue p) d1 = Inr d'"
    by (auto split: if_splits option.splits sum.splits)
  note um = unmarshal_staking [OF m] and g1 = put_get [OF put] and b1 = put_bucket [OF put]
  have c1: "contents_ok B d1" by (rule contents_ok_staking_upd [OF ok(2) um dec g1])
  have l1: "ledger_of B d1 = (ledger_of B d)\<lparr>staking := (staking_of B (Get B d))(h \<mapsto> p)\<rparr>"
    by (rule ledger_of_staking_upd [OF um g1])
  have new': "staking_of B (Get B d) h = None" using new by (simp add: staking_of_def)
  show ?thesis
  proof (cases "p_IsOverflow p")
    case True
    then show ?thesis using d' c1 l1 b1 ok(1) new' by (auto simp: has_buckets_def)
  next
    case False
    then have inc: "incrementConfirmedTvl B (p_StakingValue p) d1 = Inr d'" using d' by simp
    note g2 = increment_Inr(2) [OF c1 inc] and b2 = increment_Inr(1) [OF c1 inc]
    have "contents_ok B d'" by (rule contents_ok_tvl_upd [OF c1 _ g2]) simp
    moreover have "current_tvl (ledger_of B d1) = current_tvl (ledger_of B d)"
      by (simp add: l1)
    ultimately show ?thesis
      using b1 b2 ok(1) new' False ledger_of_tvl_upd [OF g2] l1
      by (simp add: has_buckets_def)
  qed
qed

lemma add_staking_refused:
  assumes ok: "has_buckets B d" "contents_ok B d" and dec: "staking_decodes B h p"
    and run: "addStakingTransaction B h p d = (d', Some e)"
  shows "d' = d \<and> (lib_failure e \<or>
    (\<exists>se. e = StoreErr se \<and> apply_op (AddStaking h p) (ledger_of B d) = Inl se))"
proof -
  note r = batch_Some [OF run [unfolded addStakingTransaction_def]]
  show ?thesis
  proof (cases "Get B d stakingTxBucketName h")
    case None
    have inc: "lib_failure e" if m: "MarshalStaking B p = Inr v"
      and put: "Put B d stakingTxBucketName h v = Inr d1"
      and "incrementConfirmedTvl B (p_StakingValue p) d1 = Inl e" for v d1
    proof (rule increment_Inl [OF _ _ that(3)])
      show "has_buckets B d1" using ok(1) put_bucket [OF put] by (simp add: has_buckets_def)
      show "contents_ok B d1"
        by (rule contents_ok_staking_upd [OF ok(2) unmarshal_staking [OF m] dec put_get [OF put]])
    qed
    then show ?thesis
      using r None ok(1)
      by (auto simp: has_buckets_def lib_failure_def split: if_splits sum.splits)
  next
    case (Some v)
    then show ?thesis
      using r ok staking_of_None_iff [OF ok(2), of h]
      by (auto simp: has_buckets_def lib_failure_def split: if_splits)
  qed
qed

lemma add_unbonding_done:
  assumes ok: "has_buckets B d" "contents_ok B d" and dec: "unbonding_decodes B h u"
    and run: "addUnbondingTransaction B h (pu_StakingTxHash u) u d = (d', None)"
  shows "has_buckets B d' \<and> contents_ok B d' \<and>
    apply_op (AddUnbonding h u) (ledger_of B d) = Inr (ledger_of B d')"
proof -
  from batch_None [OF run [unfolded addUnbondingTransaction_def]] obtain w p v d1 where
    st: "Get B d stakingTxBucketName (pu_StakingTxHash u) = Some w" "UnmarshalStaking B w = Inr p"
    and new: "Get B d unbondingTxBucketName h = None" and m: "MarshalUnbonding B u = Inr v"
    and put: "Put B d unbondingTxBucketName h v = Inr d1"
    and d': "if p_IsOverflow p then d1 = d' else subtractConfirmedTvl B (p_StakingValue p) d1 = Inr d'"
    by (auto split: if_splits option.splits sum.splits)
  note um = unmarshal_unbonding [OF m] and g1 = put_get [OF put] and b1 = put_bucket [OF put]
  have c1: "contents_ok B d1" by (rule contents_ok_unbonding_upd [OF ok(2) um dec g1])
  have l1: "ledger_of B d1 = (ledger_of B d)\<lparr>unbonding := (unbonding_of B (Get B d))(h \<mapsto> u)\<rparr>"
    by (rule ledger_of_unbonding_upd [OF um g1])
  have new': "unbonding_of B (Get B d) h = None" using new by (simp add: unbonding_of_def)
  have st': "staking_of B (Get B d) (pu_StakingTxHash u) = Some p" using st by (simp add: staking_of_def)
  show ?thesis
  proof (cases "p_IsOverflow p")
    case True
    then show ?thesis using d' c1 l1 b1 ok(1) new' st' by (auto simp: has_buckets_def)
  next
    case False
    then have "subtractConfirmedTvl B (p_StakingValue p) d1 = Inr d'" using d' by simp
    from subtract_Inr [OF c1 this] obtain t where
      t: "tvl (ledger_of B d1) = Some t" "\<not> p_StakingValue p > t"
      and b2: "HasBucket B d' = HasBucket B d1"
      and g2: "Get B d' = (Get B d1)(confirmedTvlBucketName := (Get B d1 confirmedTvlBucketName)
           (getConfirmedTvlKey \<mapsto> uint64ToBytes (t - p_StakingValue p)))" .
    have "contents_ok B d'" by (rule contents_ok_tvl_upd [OF c1 _ g2]) simp
    moreover have "tvl (ledger_of B d) = Some t" using t(1) by (simp add: l1)
    ultimately show ?thesis
      using b1 b2 ok(1) new' st' False t(2) ledger_of_tvl_upd [OF g2] l1
      by (simp add: has_buckets_def)
  qed
qed

lemma add_unbonding_refused:
  assumes ok: "has_buckets B d" "contents_ok B d" and dec: "unbonding_decodes B h u"
    and run: "addUnbondingTransaction B h (pu_StakingTxHash u) u d = (d', Some e)"
  shows "d' = d \<and> (lib_failure e \<or>
    (\<exists>se. e = StoreErr se \<and> apply_op (AddUnbonding h u) (ledger_of B d) = Inl se))"
proof -
  note r = batch_Some [OF run [unfolded addUnbondingTransaction_def]]
  show ?thesis
  proof (cases "Get B d stakingTxBucketName (pu_StakingTxHash u)")
    case None
    then show ?thesis
      using r ok(1) by (auto simp: has_buckets_def staking_of_def split: if_splits)
  next
    case (Some w)
    with ok(2) obtain p where um: "UnmarshalStaking B w = Inr p"
      and st: "staking_of B (Get B d) (pu_StakingTxHash u) = Some p"
      by (rule contents_ok_staking)
    have sub: "lib_failure e \<or>
        (tvl (ledger_of B d) = None \<and> e = StoreErr ErrCorruptedStateDb) \<or>
        (\<exists>t. tvl (ledger_of B d) = Some t \<and> p_StakingValue p > t \<and> e = StoreErr ErrNegativeTvl)"
      if m: "MarshalUnbonding B u = Inr v" and put: "Put B d unbondingTxBucketName h v = Inr d1"
        and e: "subtractConfirmedTvl B (p_StakingValue p) d1 = Inl e" for v d1
    proof -
      have "has_buckets B d1" using ok(1) put_bucket [OF put] by (simp add: has_buckets_def)
      moreover have "contents_ok B d1"
        by (rule contents_ok_unbonding_upd [OF ok(2) unmarshal_unbonding [OF m] dec put_get [OF put]])
      moreover have "tvl (ledger_of B d1) = tvl (ledger_of B d)"
        by (simp add: ledger_of_unbonding_upd [OF unmarshal_unbonding [OF m] put_get [OF put]])
      ultimately show ?thesis using subtract_Inl [OF _ _ e] by simp
    qed
    show ?thesis
    proof (cases "Get B d unbondingTxBucketName h")
      case None
      then have new: "unbonding_of B (Get B d) h = None" by (simp add: unbonding_of_def)
      consider "lib_failure e"
        | v d1 where "\<not> p_IsOverflow p" and "MarshalUnbonding B u = Inr v"
          and "Put B d unbondingTxBucketName h v = Inr d1"
          and "subtractConfirmedTvl B (p_StakingValue p) d1 = Inl e"
        using r None Some um ok(1)
        by (auto simp: has_buckets_def lib_failure_def split: if_splits sum.splits)
      then show ?thesis
      proof cases
        case 1
        then show ?thesis using r by blast
      next
        case (2 v d1)
        from sub [OF 2(2-4)] show ?thesis using r 2(1) st new by auto
      qed
    next
      case (Some v)
      then show ?thesis
        using r um st ok \<open>Get B d stakingTxBucketName (pu_StakingTxHash u) = Some w\<close>
          unbonding_of_None_iff [OF ok(2), of h]
        by (auto simp: has_buckets_def lib_failure_def split: if_splits)
    qed
  qed
qed

lemma save_height_done:
  assumes ok: "has_buckets B d" "contents_ok B d"
    and run: "SaveLastProcessedHeight B n d = (d', None)"
  shows "has_buckets B d' \<and> contents_ok B d' \<and>
    ledger_of B d' = (ledger_of B d)\<lparr>height := Some n\<rparr>"
proof -
  have put: "Put B d indexerStateBucketName getLastProcessedHeightKey (uint64ToBytes n) = Inr d'"
    using batch_None [OF run [unfolded SaveLastProcessedHeight_def]]
    by (auto simp: lib_result_def split: if_splits sum.splits)
  note g = put_get [OF put] and b = put_bucket [OF put]
  show ?thesis
    using ok g b ledger_of_height_upd [OF g] by (auto simp: has_buckets_def contents_ok_def)
qed

lemma save_height_refused:
  assumes "has_buckets B d" and run: "SaveLastProcessedHeight B n d = (d', Some e)"
  shows "d' = d \<and> lib_failure e"
  using batch_Some [OF run [unfolded SaveLastProcessedHeight_def]] assms(1)
  by (auto simp: lib_result_def has_buckets_def lib_failure_def split: if_splits sum.splits)

text \<open>The store keeps the contract.\<close>

lemma exec_op_done:
  assumes ok: "store_ok B d" and adm: "admissible_op B op" and run: "exec_op B op d = (d', None)"
  shows "store_ok B d' \<and> apply_op op (ledger_of B d) = Inr (ledger_of B d')"
proof -
  have ok': "has_buckets B d" "contents_ok B d" using ok by (simp_all add: store_ok_def)
  have "has_buckets B d' \<and> contents_ok B d' \<and> apply_op op (ledger_of B d) = Inr (ledger_of B d')"
  proof (cases op)
    case (AddStaking h p)
    then show ?thesis using add_staking_done [OF ok', of h p d'] adm run by simp
  next
    case (AddUnbonding h u)
    then show ?thesis using add_unbonding_done [OF ok', of h u d'] adm run
      by (simp del: apply_op.simps)
  next
    case (SaveHeight n)
    then show ?thesis using save_height_done [OF ok', of n d'] run by simp
  qed
  then show ?thesis
    using apply_op_wf ok by (auto simp: store_ok_def)
qed

lemma exec_op_refused:
  assumes ok: "store_ok B d" and adm: "admissible_op B op" and run: "exec_op B op d = (d', Some e)"
  shows "d' = d \<and> (lib_failure e \<or> (\<exists>se. e = StoreErr se \<and> apply_op op (ledger_of B d) = Inl se))"
proof -
  have ok': "has_buckets B d" "contents_ok B d" using ok by (simp_all add: store_ok_def)
  show ?thesis
  proof (cases op)
    case (AddStaking h p)
    then show ?thesis using add_staking_refused [OF ok', of h p d' e] adm run
      by (simp del: apply_op.simps)
  next
    case (AddUnbonding h u)
    then show ?thesis using add_unbonding_refused [OF ok', of h u d' e] adm run
      by (simp del: apply_op.simps)
  next
    case (SaveHeight n)
    then show ?thesis using save_height_refused [OF ok'(1), of n d' e] run by simp
  qed
qed

end

sublocale store_backend \<subseteq> st: ledger_store "store_ok B" "ledger_of B" "exec_op B" "admissible_op B"
proof unfold_locales
  show "store_ok B d \<Longrightarrow> ledger_wf (ledger_of B d)" for d
    by (simp add: store_ok_def)
qed (rule exec_op_done exec_op_refused; assumption)+

section \<open>Readers and entry points\<close>

context store_backend
begin

text \<open>What a reader returns, from the ledger, when its read transaction opens.\<close>

lemma GetStakingTransaction_None:
  assumes "store_ok B d" and "BeginRead B d = None" and "staking (ledger_of B d) h = None"
  shows "GetStakingTransaction B h d = Inr None"
  using assms staking_of_None_iff [of d h]
  by (simp add: GetStakingTransaction_def View_def store_ok_def has_buckets_def)

lemma GetStakingTransaction_Some:
  assumes "store_ok B d" and "BeginRead B d = None" and "staking (ledger_of B d) h = Some p"
  obtains st where "GetStakingTransaction B h d = Inr (Some st)"
    and "protoStakingTxToStoredStakingTx B p = Inr st" and "TxHash B (Tx st) = h"
proof -
  have ok: "contents_ok B d" "has_buckets B d" using assms(1) by (simp_all add: store_ok_def)
  obtain v where v: "Get B d stakingTxBucketName h = Some v"
    using assms(3) by (auto simp: staking_of_def split: option.splits)
  from contents_ok_staking [OF ok(1) v] assms(3) obtain st where
    "UnmarshalStaking B v = Inr p" and st: "protoStakingTxToStoredStakingTx B p = Inr st"
    "TxHash B (Tx st) = h" by auto
  then have "GetStakingTransaction B h d = Inr (Some st)"
    using v ok(2) assms(2) by (simp add: GetStakingTransaction_def View_def has_buckets_def)
  with st that show ?thesis by blast
qed

lemma GetUnbondingTransaction_None:
  assumes "store_ok B d" and "BeginRead B d = None" and "unbonding (ledger_of B d) h = None"
  shows "GetUnbondingTransaction B h d = Inr None"
  using assms unbonding_of_None_iff [of d h]
  by (simp add: GetUnbondingTransaction_def View_def store_ok_def has_buckets_def)

lemma GetUnbondingTransaction_Some:
  assumes "store_ok B d" and "BeginRead B d = None" and "unbonding (ledger_of B d) h = Some u"
  obtains ut where "GetUnbondingTransaction B h d = Inr (Some ut)"
    and "protoUnbondingTxToStoredUnbondingTx B u = Inr ut" and "TxHash B (unbonding_Tx ut) = h"
    and "StakingTxHash ut = pu_StakingTxHash u"
proof -
  have ok: "contents_ok B d" "has_buckets B d" using assms(1) by (simp_all add: store_ok_def)
  obtain v where v: "Get B d unbondingTxBucketName h = Some v"
    using assms(3) by (auto simp: unbonding_of_def split: option.splits)
  from contents_ok_unbonding [OF ok(1) v] assms(3) obtain ut where
    "UnmarshalUnbonding B v = Inr u" and ut: "protoUnbondingTxToStoredUnbondingTx B u = Inr ut"
    "TxHash B (unbonding_Tx ut) = h" "StakingTxHash ut = pu_StakingTxHash u" by auto
  then have "GetUnbondingTransaction B h d = Inr (Some ut)"
    using v ok(2) assms(2) by (simp add: GetUnbondingTransaction_def View_def has_buckets_def)
  with ut that show ?thesis by blast
qed

lemma GetConfirmedTvl_ledger:
  assumes "store_ok B d" and "BeginRead B d = None"
  shows "GetConfirmedTvl B d = Inr (current_tvl (ledger_of B d))"
  using assms
  by (auto simp: GetConfirmedTvl_def View_def store_ok_def has_buckets_def contents_ok_def
      current_tvl_def ledger_of_state uint64FromBytes_8 split: option.split)

lemma GetLastProcessedHeight_ledger:
  assumes "store_ok B d" and "BeginRead B d = None"
  shows "GetLastProcessedHeight B d =
    (case height (ledger_of B d) of
       None \<Rightarrow> Inl (StoreErr ErrLastProcessedHeightNotFound) | Some n \<Rightarrow> Inr n)"
  using assms
  by (auto simp: GetLastProcessedHeight_def View_def store_ok_def has_buckets_def contents_ok_def
      ledger_of_state uint64FromBytes_8 split: option.split)

lemma TxExists_ledger:
  assumes "store_ok B d" and "BeginRead B d = None"
  shows "TxExists B h d =
    Inr (staking (ledger_of B d) h \<noteq> None \<or> unbonding (ledger_of B d) h \<noteq> None)"
proof -
  have ok: "contents_ok B d" "has_buckets B d" using assms(1) by (simp_all add: store_ok_def)
  show ?thesis
    using ok(2) assms(2) staking_of_None_iff [OF ok(1), of h] unbonding_of_None_iff [OF ok(1), of h]
    by (auto simp: TxExists_def View_def has_buckets_def)
qed

text \<open>Opening the store: the buckets are there and the contents are untouched.\<close>

lemma NewIndexerStore_done:
  assumes "NewIndexerStore B d = (d', None)"
  shows "has_buckets B d'" and "Get B d' = Get B d"
proof -
  from batch_None [OF assms [unfolded NewIndexerStore_def initBuckets_def]] obtain d1 d2 d3 where
    "CreateTopLevelBucket B d stakingTxBucketName = Inr d1"
    "CreateTopLevelBucket B d1 unbondingTxBucketName = Inr d2"
    "CreateTopLevelBucket B d2 indexerStateBucketName = Inr d3"
    "CreateTopLevelBucket B d3 confirmedTvlBucketName = Inr d'"
    by (auto split: sum.splits)
  note c = this
  show "has_buckets B d'" using c [THEN create_bucket] by (simp add: has_buckets_def)
  show "Get B d' = Get B d" using c [THEN create_get] by simp
qed

lemma store_ok_NewIndexerStore:
  assumes "NewIndexerStore B d = (d', None)" and "contents_ok B d" and "ledger_wf (ledger_of B d)"
  shows "store_ok B d'" and "ledger_of B d' = ledger_of B d"
proof -
  note n = NewIndexerStore_done [OF assms(1)]
  show l: "ledger_of B d' = ledger_of B d" by (simp add: ledger_of_def n(2))
  show "store_ok B d'" using assms n l by (simp add: store_ok_def contents_ok_def)
qed

lemma fresh_db_ledger:
  assumes "fresh_db B d"
  shows "contents_ok B d" and "ledger_of B d = empty_ledger"
  using assms
  by (auto simp: fresh_db_def contents_ok_def ledger_of_def empty_ledger_def staking_of_def
      unbonding_of_def fun_eq_iff)

text \<open>
  The exported writers are the contract's operations on the messages they build; those
  messages decode when the transaction has inputs.
\<close>

lemma staking_msg_decodes:
  assumes "Serialize B tx = Inr ser" and "TxIn tx \<noteq> []"
    and "p_TransactionBytes p = ser" and "p_StakerPk p = SerializePubKey B sk"
    and "p_FinalityProviderPk p = SerializePubKey B fk"
  obtains st where "protoStakingTxToStoredStakingTx B p = Inr st" and "Tx st = tx"
    and "SerializePubKey B (StakerPk st) = SerializePubKey B sk"
    and "SerializePubKey B (FinalityProviderPk st) = SerializePubKey B fk"
    and "StakingOutputIdx st = p_StakingOutputIdx p" and "InclusionHeight st = p_InclusionHeight p"
    and "StakingTime st = p_StakingTime p" and "IsOverflow st = p_IsOverflow p"
    and "StakingValue st = p_StakingValue p" and "staking_decodes B (TxHash B tx) p"
  using deserialize [OF assms(1,2)] assms(3-5) parse_pubkey [of sk] parse_pubkey [of fk]
  by (fastforce simp: protoStakingTxToStoredStakingTx_def staking_decodes_def)

lemma unbonding_msg_decodes:
  assumes "Serialize B tx = Inr ser" and "TxIn tx \<noteq> []" and "length h = 32"
  shows "protoUnbondingTxToStoredUnbondingTx B \<lparr>pu_TransactionBytes = ser, pu_StakingTxHash = h\<rparr> =
      Inr \<lparr>unbonding_Tx = tx, StakingTxHash = h\<rparr>"
    and "unbonding_decodes B (TxHash B tx) \<lparr>pu_TransactionBytes = ser, pu_StakingTxHash = h\<rparr>"
  using deserialize [OF assms(1,2)] new_hash [OF assms(3)]
  by (simp_all add: protoUnbondingTxToStoredUnbondingTx_def unbonding_decodes_def)

end

end
