(* ===== verification/Indexer.thy ===== *)
theory Indexer
  imports Store_Refinement
begin

text \<open>
  The staking indexer (\<open>indexer/indexer.go\<close>, with the metrics of \<open>indexer/metrics.go\<close> and
  the consumer interface of \<open>consumer/event_consumer.go\<close>): the whole of every handler, from
  the classification of a transaction to the events pushed, the writes to the store and the
  metrics recorded.

  The state is what the handlers change: the database, the events pushed so far, the
  metrics. The record \<open>StakingIndexer\<close> holds what they only read: the configuration, the
  parameter versions, and the third-party calls. Log output is not modelled, except that
  \<open>logger.Fatal\<close> ends the process. A gauge holds the integer whose \<open>float64\<close> is set.
\<close>

section \<open>State\<close>

text \<open>The events, with the arguments their constructors get.\<close>

datatype event =
    ActiveStakingEvent string string string u64 u64 i64 u64 u64 string bool
  | UnbondingStakingEvent string u64 i64 u64 u64 string string
  | WithdrawStakingEvent string
  | BtcInfoEvent u64 u64 u64
  | ConfirmedInfoEvent u64 u64

record metrics =
  startBtcHeight :: int
  lastProcessedBtcHeight :: int
  lastCalculatedTvl :: int
  lastFoundStakingTxHeight :: int
  lastFoundUnbondingTxHeight :: int
  lastFoundWithdrawTxFromStakingHeight :: int
  lastFoundWithdrawTxFromUnbondingHeight :: int
  totalStakingTxs :: "string \<Rightarrow> nat"
  totalUnbondingTxs :: nat
  totalWithdrawTxsFromStaking :: nat
  totalWithdrawTxsFromUnbonding :: nat
  failedProcessingStakingTxsCounter :: nat
  failedProcessingUnconfirmedBlockCounter :: nat
  invalidTransactionsCounter :: "string \<Rightarrow> nat"
  failedVerifyingUnbondingTxsCounter :: nat
  failedProcessingUnbondingTxsCounter :: nat
  failedProcessingWithdrawTxsFromStakingCounter :: nat
  failedProcessingWithdrawTxsFromUnbondingCounter :: nat

record 'db state =
  db :: 'db
  queue :: "event list"
  meters :: metrics

text \<open>The \<open>btcstaking\<close> calls, and the indexer's fixed data.\<close>

record btcstaking =
  IsTransferTx :: "MsgTx \<Rightarrow> lib_error option"
  IsPossibleV0StakingTx :: "MsgTx \<Rightarrow> bytes \<Rightarrow> bool"
  ParseV0StakingTx ::
    "MsgTx \<Rightarrow> bytes \<Rightarrow> PublicKey list \<Rightarrow> u32 \<Rightarrow> net_params \<Rightarrow> lib_error + ParsedV0StakingTx"
  BuildStakingInfo ::
    "PublicKey \<Rightarrow> PublicKey list \<Rightarrow> PublicKey list \<Rightarrow> u32 \<Rightarrow> u16 \<Rightarrow> i64 \<Rightarrow> net_params \<Rightarrow>
      lib_error + StakingInfo"
  BuildUnbondingInfo ::
    "PublicKey \<Rightarrow> PublicKey list \<Rightarrow> PublicKey list \<Rightarrow> u32 \<Rightarrow> u16 \<Rightarrow> i64 \<Rightarrow> net_params \<Rightarrow>
      lib_error + UnbondingInfo"

record 'db StakingIndexer =
  store :: "'db backend"
  lib :: btcstaking
  hash_String :: "hash \<Rightarrow> string"
  consumer :: "event list \<Rightarrow> event \<Rightarrow> lib_error option"
  Versions :: "ParsedVersionedGlobalParams list"
  GetVersionedGlobalParamsByHeight :: "u64 \<Rightarrow> ParsedVersionedGlobalParams option"
  ExtraEventEnabled :: bool
  BTCNetParams :: net_params

section \<open>Effects\<close>

definition store_read :: "('db \<Rightarrow> go_error + 'a) \<Rightarrow> ('db state, 'a) prog" where
  "store_read f s = (case f (db s) of Inl e \<Rightarrow> (Inl (Error e), s) | Inr x \<Rightarrow> (Inr x, s))"

definition store_write :: "('db \<Rightarrow> 'db \<times> go_error option) \<Rightarrow> ('db state, unit) prog" where
  "store_write f s =
     (case f (db s) of
        (d', None) \<Rightarrow> (Inr (), s\<lparr>db := d'\<rparr>)
      | (d', Some e) \<Rightarrow> (Inl (Error e), s\<lparr>db := d'\<rparr>))"

text \<open>A push to the consumer: its error, or the event is in the queue.\<close>

definition push_event :: "'db StakingIndexer \<Rightarrow> event \<Rightarrow> ('db state, unit) prog" where
  "push_event si ev s =
     (case consumer si (queue s) ev of
        Some e \<Rightarrow> (Inl (Error (LibErr e)), s)
      | None \<Rightarrow> (Inr (), s\<lparr>queue := queue s @ [ev]\<rparr>))"

definition metric :: "(metrics \<Rightarrow> metrics) \<Rightarrow> ('db state, unit) prog" where
  "metric f = modify (\<lambda>s. s\<lparr>meters := f (meters s)\<rparr>)"

text \<open>\<open>Inc\<close> of one label of a counter vector.\<close>

definition inc_label :: "string \<Rightarrow> (string \<Rightarrow> nat) \<Rightarrow> (string \<Rightarrow> nat)" where
  "inc_label l f = f(l := Suc (f l))"

section \<open>Parameters, parsing and look-ups\<close>

definition getVersionedParams ::
    "'db StakingIndexer \<Rightarrow> u64 \<Rightarrow> ParsedVersionedGlobalParams outcome" where
  "getVersionedParams si h =
     (case GetVersionedGlobalParamsByHeight si h of
        None \<Rightarrow> Inl (Error (Errorf ''the params for height does not exist''))
      | Some params \<Rightarrow> Inr params)"

definition tryParseStakingTx ::
    "'db StakingIndexer \<Rightarrow> MsgTx \<Rightarrow> ParsedVersionedGlobalParams \<Rightarrow> go_error + ParsedV0StakingTx" where
  "tryParseStakingTx si tx params =
     (if \<not> IsPossibleV0StakingTx (lib si) tx (Tag params) then Inl (Errorf ''not staking tx'')
      else case ParseV0StakingTx (lib si) tx (Tag params) (CovenantPks params)
                  (CovenantQuorum params) (BTCNetParams si) of
             Inl _ \<Rightarrow> Inl (Errorf ''not staking tx'')
           | Inr parsedData \<Rightarrow> Inr parsedData)"

definition GetStakingTxByHash ::
    "'db StakingIndexer \<Rightarrow> hash \<Rightarrow> 'db \<Rightarrow> go_error + StoredStakingTransaction option" where
  "GetStakingTxByHash si h d = GetStakingTransaction (store si) h d"

definition GetUnbondingTxByHash ::
    "'db StakingIndexer \<Rightarrow> hash \<Rightarrow> 'db \<Rightarrow> go_error + StoredUnbondingTransaction option" where
  "GetUnbondingTxByHash si h d = GetUnbondingTransaction (store si) h d"

definition IsTxProcessed :: "'db StakingIndexer \<Rightarrow> hash \<Rightarrow> 'db \<Rightarrow> go_error + bool" where
  "IsTxProcessed si h d = TxExists (store si) h d"

definition si_GetConfirmedTvl :: "'db StakingIndexer \<Rightarrow> 'db \<Rightarrow> go_error + u64" where
  "si_GetConfirmedTvl si d = GetConfirmedTvl (store si) d"

definition getTxHex :: "'db StakingIndexer \<Rightarrow> MsgTx \<Rightarrow> string outcome" where
  "getTxHex si tx =
     (case Serialize (store si) tx of
        Inl e \<Rightarrow> Inl (Error (Wrap ''failed to serialize the tx'' (LibErr e)))
      | Inr buf \<Rightarrow> Inr (hex_EncodeToString buf))"

text \<open>
  The three loops over the inputs of a transaction: what the look-up finds and the test lets
  through is collected, with the index of the input.
\<close>

fun spent_loop :: "(hash \<Rightarrow> 'a option) \<Rightarrow> (TxIn \<Rightarrow> 'a \<Rightarrow> bool) \<Rightarrow> nat \<Rightarrow> TxIn list \<Rightarrow> 'a list \<times> nat list" where
  "spent_loop look test i [] = ([], [])"
| "spent_loop look test i (txIn # txIns) =
     (case look (Hash (PreviousOutPoint txIn)) of
        None \<Rightarrow> spent_loop look test (Suc i) txIns
      | Some x \<Rightarrow>
          if \<not> test txIn x then spent_loop look test (Suc i) txIns
          else let (xs, is) = spent_loop look test (Suc i) txIns in (x # xs, i # is))"

definition spends_output :: "TxIn \<Rightarrow> StoredStakingTransaction \<Rightarrow> bool" where
  "spends_output txIn stakingTx \<longleftrightarrow> Index (PreviousOutPoint txIn) = StakingOutputIdx stakingTx"

definition getSpentStakingTxs ::
    "'db StakingIndexer \<Rightarrow> MsgTx \<Rightarrow> 'db \<Rightarrow> StoredStakingTransaction list \<times> nat list" where
  "getSpentStakingTxs si tx d =
     spent_loop (\<lambda>h. case GetStakingTxByHash si h d of Inl _ \<Rightarrow> None | Inr r \<Rightarrow> r)
       spends_output 0 (TxIn tx)"

definition getSpentFromStakingTxs ::
    "MsgTx \<Rightarrow> (hash \<rightharpoonup> StoredStakingTransaction) \<Rightarrow> StoredStakingTransaction list \<times> nat list" where
  "getSpentFromStakingTxs tx stakingTxs = spent_loop stakingTxs spends_output 0 (TxIn tx)"

definition getSpentUnbondingTxs ::
    "'db StakingIndexer \<Rightarrow> MsgTx \<Rightarrow> 'db \<Rightarrow> StoredUnbondingTransaction list \<times> nat list" where
  "getSpentUnbondingTxs si tx d =
     spent_loop (\<lambda>h. case GetUnbondingTxByHash si h d of Inl _ \<Rightarrow> None | Inr r \<Rightarrow> r)
       (\<lambda>_ _. True) 0 (TxIn tx)"

section \<open>Validation\<close>

definition validateStakingTx ::
    "ParsedVersionedGlobalParams \<Rightarrow> ParsedV0StakingTx \<Rightarrow> go_error + unit" where
  "validateStakingTx params stakingData =
     (let amount = Value (StakingOutput stakingData);
          time = op_StakingTime (OpReturnData stakingData) in
      if sint amount < sint (MinStakingAmount params) then
        Inl (Wrap ''staking amount is too low'' (IndexerErr ErrInvalidStakingTx))
      else if sint amount > sint (MaxStakingAmount params) then
        Inl (Wrap ''staking amount is too high'' (IndexerErr ErrInvalidStakingTx))
      else if (ucast time :: u64) > ucast (MaxStakingTime params) then
        Inl (Wrap ''staking time is too high'' (IndexerErr ErrInvalidStakingTx))
      else if (ucast time :: u64) < ucast (MinStakingTime params) then
        Inl (Wrap ''staking time is too low'' (IndexerErr ErrInvalidStakingTx))
      else Inr ())"

text \<open>The script of the spent path: the last but one element of the input's witness.\<close>

definition script_from_witness :: "MsgTx \<Rightarrow> nat \<Rightarrow> bytes outcome" where
  "script_from_witness tx i =
     (case slice_index (TxIn tx) i of
        Inl f \<Rightarrow> Inl f
      | Inr txIn \<Rightarrow>
          if length (Witness txIn) < 2
          then Inl (Panic ''spending tx should have at least 2 elements in witness'')
          else slice_index (Witness txIn) (length (Witness txIn) - 2))"

definition rebuildStakingInfo ::
    "'db StakingIndexer \<Rightarrow> StoredStakingTransaction \<Rightarrow> ParsedVersionedGlobalParams \<Rightarrow>
      lib_error + StakingInfo" where
  "rebuildStakingInfo si stakingTx params =
     BuildStakingInfo (lib si) (StakerPk stakingTx) [FinalityProviderPk stakingTx]
       (CovenantPks params) (CovenantQuorum params) (ucast (StakingTime stakingTx))
       (StakingValue stakingTx) (BTCNetParams si)"

definition rebuildUnbondingInfo ::
    "'db StakingIndexer \<Rightarrow> StoredStakingTransaction \<Rightarrow> ParsedVersionedGlobalParams \<Rightarrow> i64 \<Rightarrow>
      lib_error + UnbondingInfo" where
  "rebuildUnbondingInfo si stakingTx params unbondingValue =
     BuildUnbondingInfo (lib si) (StakerPk stakingTx) [FinalityProviderPk stakingTx]
       (CovenantPks params) (CovenantQuorum params) (UnbondingTime params)
       unbondingValue (BTCNetParams si)"

definition ValidateWithdrawalTxFromStaking ::
    "'db StakingIndexer \<Rightarrow> MsgTx \<Rightarrow> StoredStakingTransaction \<Rightarrow> nat \<Rightarrow>
      ParsedVersionedGlobalParams \<Rightarrow> unit outcome" where
  "ValidateWithdrawalTxFromStaking si tx stakingTx spendingInputIdx params =
     (case rebuildStakingInfo si stakingTx params of
        Inl e \<Rightarrow> Inl (Error (Wrap ''failed to rebuid the staking info'' (LibErr e)))
      | Inr stakingInfo \<Rightarrow>
        (case TimeLockPathSpendInfo stakingInfo of
           Inl e \<Rightarrow> Inl (Error (Wrap ''failed to get the unbonding path spend info'' (LibErr e)))
         | Inr timelockPathInfo \<Rightarrow>
           (case script_from_witness tx spendingInputIdx of
              Inl f \<Rightarrow> Inl f
            | Inr scriptFromWitness \<Rightarrow>
                if GetPkScriptPath timelockPathInfo \<noteq> scriptFromWitness then
                  Inl (Error (Wrap ''the tx does not unlock the time-lock path''
                         (IndexerErr ErrInvalidWithdrawalTx)))
                else Inr ())))"

definition ValidateWithdrawalTxFromUnbonding ::
    "'db StakingIndexer \<Rightarrow> MsgTx \<Rightarrow> StoredStakingTransaction \<Rightarrow> nat \<Rightarrow>
      ParsedVersionedGlobalParams \<Rightarrow> unit outcome" where
  "ValidateWithdrawalTxFromUnbonding si tx stakingTx spendingInputIdx params =
     (case rebuildUnbondingInfo si stakingTx params (StakingValue stakingTx - UnbondingFee params) of
        Inl e \<Rightarrow> Inl (Error (Wrap ''failed to rebuid the unbonding info'' (LibErr e)))
      | Inr unbondingInfo \<Rightarrow>
        (case unbonding_TimeLockPathSpendInfo unbondingInfo of
           Inl e \<Rightarrow> Inl (Error (Wrap ''failed to get the unbonding path spend info'' (LibErr e)))
         | Inr timelockPathInfo \<Rightarrow>
           (case script_from_witness tx spendingInputIdx of
              Inl f \<Rightarrow> Inl f
            | Inr scriptFromWitness \<Rightarrow>
                if GetPkScriptPath timelockPathInfo \<noteq> scriptFromWitness then
                  Inl (Error (Wrap ''the tx does not unlock the time-lock path''
                         (IndexerErr ErrInvalidWithdrawalTx)))
                else Inr ())))"

definition IsValidUnbondingTx ::
    "'db StakingIndexer \<Rightarrow> MsgTx \<Rightarrow> StoredStakingTransaction \<Rightarrow> ParsedVersionedGlobalParams \<Rightarrow>
      bool outcome" where
  "IsValidUnbondingTx si tx stakingTx params =
     (if IsTransferTx (lib si) tx \<noteq> None then Inr False
      else (case slice_index (TxIn tx) 0 of Inl f \<Rightarrow> Inl f | Inr txIn0 \<Rightarrow>
      if Hash (PreviousOutPoint txIn0) \<noteq> TxHash (store si) (Tx stakingTx) then Inr False
      else if Index (PreviousOutPoint txIn0) \<noteq> StakingOutputIdx stakingTx then Inr False
      else (case rebuildStakingInfo si stakingTx params of
        Inl e \<Rightarrow> Inl (Error (Wrap ''failed to rebuid the staking info'' (LibErr e)))
      | Inr stakingInfo \<Rightarrow>
      (case UnbondingPathSpendInfo stakingInfo of
        Inl e \<Rightarrow> Inl (Error (Wrap ''failed to get the unbonding path spend info'' (LibErr e)))
      | Inr unbondingPathInfo \<Rightarrow>
      (case script_from_witness tx 0 of Inl f \<Rightarrow> Inl f | Inr scriptFromWitness \<Rightarrow>
      if GetPkScriptPath unbondingPathInfo \<noteq> scriptFromWitness then Inr False
      else if Sequence txIn0 \<noteq> MaxTxInSequenceNum then
        Inl (Error (Wrap ''unbonding tx should not enable rbf'' (IndexerErr ErrInvalidUnbondingTx)))
      else if LockTime tx \<noteq> 0 then
        Inl (Error (Wrap ''unbonding tx should not set lock time'' (IndexerErr ErrInvalidUnbondingTx)))
      else (case slice_index (TxOut (Tx stakingTx)) (unat (StakingOutputIdx stakingTx)) of
        Inl f \<Rightarrow> Inl f
      | Inr stakingOutput \<Rightarrow>
      (let expectedUnbondingOutputValue = Value stakingOutput - UnbondingFee params in
      if sint expectedUnbondingOutputValue \<le> 0 then
        Inl (Error (Wrap ''staking output value is too low'' (IndexerErr ErrInvalidUnbondingTx)))
      else (case rebuildUnbondingInfo si stakingTx params expectedUnbondingOutputValue of
        Inl e \<Rightarrow> Inl (Error (Wrap ''failed to rebuid the unbonding info'' (LibErr e)))
      | Inr unbondingInfo \<Rightarrow>
      (case slice_index (TxOut tx) 0 of Inl f \<Rightarrow> Inl f | Inr txOut0 \<Rightarrow>
      if PkScript txOut0 \<noteq> PkScript (UnbondingOutput unbondingInfo) then
        Inl (Error (Wrap ''the unbonding output is not expected'' (IndexerErr ErrInvalidUnbondingTx)))
      else if Value txOut0 \<noteq> Value (UnbondingOutput unbondingInfo) then
        Inl (Error (Wrap ''the unbonding output value is not expected'' (IndexerErr ErrInvalidUnbondingTx)))
      else Inr True)))))))))"

definition isOverflow ::
    "'db StakingIndexer \<Rightarrow> u64 \<Rightarrow> ParsedVersionedGlobalParams \<Rightarrow> 'db \<Rightarrow> bool outcome" where
  "isOverflow si h params d =
     (let isTimeBased = CapHeight params \<noteq> 0 in
      if isTimeBased \<and> h < ActivationHeight params then
        Inl (Panic ''the transaction height should not be lower than the param activation height'')
      else if isTimeBased \<and> h > CapHeight params then Inr True
      else if isTimeBased \<and> h \<le> CapHeight params then Inr False
      else case GetConfirmedTvl (store si) d of
             Inl e \<Rightarrow> Inl (Error (Wrap ''failed to get the confirmed TVL'' e))
           | Inr confirmedTvl \<Rightarrow> Inr (confirmedTvl \<ge> StakingCap params))"

section \<open>Handlers\<close>

text \<open>\<open>if err := m(); err != nil { return fmt.Errorf("msg: %w", err) }\<close>, and the variant that
  counts the failure before it returns the error.\<close>

definition wrap_error :: "string \<Rightarrow> ('s, 'a) prog \<Rightarrow> ('s, 'a) prog" where
  "wrap_error msg m = on_error m (\<lambda>e. raise (Wrap msg e))"

definition count_error :: "(metrics \<Rightarrow> metrics) \<Rightarrow> ('db state, 'a) prog \<Rightarrow> ('db state, 'a) prog" where
  "count_error f m = on_error m (\<lambda>e. bind (metric f) (\<lambda>_. raise e))"

definition invalid_tx :: "string \<Rightarrow> ('db state, unit) prog" where
  "invalid_tx label = metric (invalidTransactionsCounter_update (inc_label label))"

text \<open>\<open>StakingIndexer.addStakingTransaction\<close>: first the event, then the database.\<close>

definition si_addStakingTransaction ::
    "'db StakingIndexer \<Rightarrow> u64 \<Rightarrow> i64 \<Rightarrow> MsgTx \<Rightarrow> PublicKey \<Rightarrow> PublicKey \<Rightarrow> u64 \<Rightarrow> u32 \<Rightarrow> u32 \<Rightarrow> bool \<Rightarrow>
      ('db state, unit) prog" where
  "si_addStakingTransaction si h timestamp tx stakerPk fpPk stakingValue stakingTime
      stakingOutputIndex overflow =
     bind (lift (getTxHex si tx)) (\<lambda>txHex.
     bind (wrap_error ''failed to push the staking event to the queue''
       (push_event si (ActiveStakingEvent (hash_String si (TxHash (store si) tx))
          (hex_EncodeToString (SerializePubKey (store si) stakerPk))
          (hex_EncodeToString (SerializePubKey (store si) fpPk))
          stakingValue h timestamp (ucast stakingTime) (ucast stakingOutputIndex) txHex overflow)))
       (\<lambda>_.
     bind (on_error
       (store_write (AddStakingTransaction (store si) tx stakingOutputIndex h stakerPk stakingTime
          fpPk stakingValue overflow))
       (\<lambda>e. if errors_Is e (StoreErr ErrDuplicateTransaction) then ret ()
            else raise (Wrap ''failed to add the staking tx to store'' e))) (\<lambda>_.
     bind (metric (totalStakingTxs_update
       (inc_label (if overflow then ''overflow'' else ''active'')))) (\<lambda>_.
     metric (lastFoundStakingTxHeight_update (\<lambda>_. uint h))))))"

definition ProcessStakingTx ::
    "'db StakingIndexer \<Rightarrow> MsgTx \<Rightarrow> ParsedV0StakingTx \<Rightarrow> u64 \<Rightarrow> i64 \<Rightarrow>
      ParsedVersionedGlobalParams \<Rightarrow> ('db state, unit) prog" where
  "ProcessStakingTx si tx stakingData h timestamp params =
     (let add = (\<lambda>overflow. si_addStakingTransaction si h timestamp tx
            (StakerPublicKey (OpReturnData stakingData))
            (FinalityProviderPublicKey (OpReturnData stakingData))
            (Value (StakingOutput stakingData))
            (ucast (op_StakingTime (OpReturnData stakingData)))
            (word_of_int (parsed_StakingOutputIdx stakingData)) overflow) in
      bind (store_read (GetStakingTransaction (store si) (TxHash (store si) tx))) (\<lambda>storedStakingTx.
      case storedStakingTx of
        Some stakingTx \<Rightarrow> add (IsOverflow stakingTx)
      | None \<Rightarrow>
        (case validateStakingTx params stakingData of
           Inl _ \<Rightarrow> invalid_tx ''confirmed_staking_transaction''
         | Inr _ \<Rightarrow>
           bind (wrap_error ''failed to check the overflow of staking tx''
             (bind (gets db) (\<lambda>d. lift (isOverflow si h params d)))) add)))"

definition ProcessUnbondingTx ::
    "'db StakingIndexer \<Rightarrow> MsgTx \<Rightarrow> hash \<Rightarrow> u64 \<Rightarrow> i64 \<Rightarrow> ParsedVersionedGlobalParams \<Rightarrow>
      ('db state, unit) prog" where
  "ProcessUnbondingTx si tx stakingTxHash h timestamp params =
     bind (lift (getTxHex si tx)) (\<lambda>unbondingTxHex.
     bind (wrap_error ''failed to push the unbonding event to the queue''
       (push_event si (UnbondingStakingEvent (hash_String si stakingTxHash) h timestamp
          (ucast (UnbondingTime params)) 0 unbondingTxHex
          (hash_String si (TxHash (store si) tx))))) (\<lambda>_.
     bind (on_error (store_write (AddUnbondingTransaction (store si) tx stakingTxHash))
       (\<lambda>e. if errors_Is e (StoreErr ErrDuplicateTransaction) then ret ()
            else raise (Wrap ''failed to add the unbonding tx to store'' e))) (\<lambda>_.
     bind (metric (totalUnbondingTxs_update Suc)) (\<lambda>_.
     metric (lastFoundUnbondingTxHeight_update (\<lambda>_. uint h))))))"

definition processWithdrawTx ::
    "'db StakingIndexer \<Rightarrow> MsgTx \<Rightarrow> hash \<Rightarrow> hash option \<Rightarrow> u64 \<Rightarrow> ('db state, unit) prog" where
  "processWithdrawTx si tx stakingTxHash unbondingTxHash h =
     bind (wrap_error ''failed to push the withdraw event to the consumer''
       (push_event si (WithdrawStakingEvent (hash_String si stakingTxHash)))) (\<lambda>_.
     if unbondingTxHash = None then
       bind (metric (totalWithdrawTxsFromStaking_update Suc)) (\<lambda>_.
       metric (lastFoundWithdrawTxFromStakingHeight_update (\<lambda>_. uint h)))
     else
       bind (metric (totalWithdrawTxsFromUnbonding_update Suc)) (\<lambda>_.
       metric (lastFoundWithdrawTxFromUnbondingHeight_update (\<lambda>_. uint h))))"

definition handleSpendingStakingTransaction ::
    "'db StakingIndexer \<Rightarrow> MsgTx \<Rightarrow> StoredStakingTransaction \<Rightarrow> nat \<Rightarrow> u64 \<Rightarrow> i64 \<Rightarrow>
      ('db state, unit) prog" where
  "handleSpendingStakingTransaction si tx stakingTx spendingInputIndex h timestamp =
     (let stakingTxHash = TxHash (store si) (Tx stakingTx) in
      bind (lift (getVersionedParams si (InclusionHeight stakingTx))) (\<lambda>paramsFromStakingTxHeight.
      bind (attempt (lift (IsValidUnbondingTx si tx stakingTx paramsFromStakingTxHeight))) (\<lambda>r.
      case r of
        Inl e \<Rightarrow>
          if errors_Is e (IndexerErr ErrInvalidUnbondingTx)
          then invalid_tx ''confirmed_unbonding_transactions''
          else bind (metric (failedVerifyingUnbondingTxsCounter_update Suc)) (\<lambda>_. raise e)
      | Inr isUnbonding \<Rightarrow>
          if \<not> isUnbonding then
            bind (attempt (lift (ValidateWithdrawalTxFromStaking si tx stakingTx spendingInputIndex
                    paramsFromStakingTxHeight))) (\<lambda>r.
            case r of
              Inl e \<Rightarrow>
                if errors_Is e (IndexerErr ErrInvalidWithdrawalTx)
                then invalid_tx ''confirmed_withdraw_staking_transactions''
                else bind (metric (failedProcessingWithdrawTxsFromStakingCounter_update Suc))
                       (\<lambda>_. raise e)
            | Inr _ \<Rightarrow>
                count_error (failedProcessingWithdrawTxsFromStakingCounter_update Suc)
                  (processWithdrawTx si tx stakingTxHash None h))
          else
            on_error (ProcessUnbondingTx si tx stakingTxHash h timestamp paramsFromStakingTxHeight)
              (\<lambda>e. if \<not> errors_Is e (StoreErr ErrDuplicateTransaction)
                   then bind (metric (failedProcessingUnbondingTxsCounter_update Suc)) (\<lambda>_. raise e)
                   else ret ()))))"

text \<open>The stored staking transaction may be nil here: reading its height is then a run-time
  panic.\<close>

definition handleSpendingUnbondingTransaction ::
    "'db StakingIndexer \<Rightarrow> MsgTx \<Rightarrow> StoredUnbondingTransaction \<Rightarrow> nat \<Rightarrow> u64 \<Rightarrow>
      ('db state, unit) prog" where
  "handleSpendingUnbondingTransaction si tx unbondingTx spendingInputIdx h =
     bind (count_error (failedProcessingWithdrawTxsFromUnbondingCounter_update Suc)
       (store_read (GetStakingTxByHash si (StakingTxHash unbondingTx)))) (\<lambda>maybeStakingTx.
     case maybeStakingTx of
       None \<Rightarrow> panic ''nil pointer dereference''
     | Some storedStakingTx \<Rightarrow>
       bind (lift (getVersionedParams si (InclusionHeight storedStakingTx))) (\<lambda>paramsFromStakingTxHeight.
       bind (attempt (lift (ValidateWithdrawalTxFromUnbonding si tx storedStakingTx spendingInputIdx
               paramsFromStakingTxHeight))) (\<lambda>r.
       case r of
         Inl e \<Rightarrow>
           if errors_Is e (IndexerErr ErrInvalidWithdrawalTx)
           then invalid_tx ''confirmed_withdraw_unbonding_transactions''
           else bind (metric (failedProcessingWithdrawTxsFromUnbondingCounter_update Suc)) (\<lambda>_. raise e)
       | Inr _ \<Rightarrow>
           count_error (failedProcessingWithdrawTxsFromUnbondingCounter_update Suc)
             (processWithdrawTx si tx (StakingTxHash unbondingTx)
                (Some (TxHash (store si) (unbonding_Tx unbondingTx))) h))))"

text \<open>The body of the transaction loop of \<open>HandleConfirmedBlock\<close>.\<close>

definition confirmed_tx ::
    "'db StakingIndexer \<Rightarrow> ParsedVersionedGlobalParams \<Rightarrow> IndexedBlock \<Rightarrow> MsgTx \<Rightarrow>
      ('db state, unit) prog" where
  "confirmed_tx si params b msgTx =
     (let h = u64_of_i32 (Height b); timestamp = Timestamp (Header b) in
      bind (case tryParseStakingTx si msgTx params of
              Inl _ \<Rightarrow> ret ()
            | Inr stakingData \<Rightarrow>
                wrap_error ''failed to process the staking tx''
                  (count_error (failedProcessingStakingTxsCounter_update Suc)
                    (ProcessStakingTx si msgTx stakingData h timestamp params))) (\<lambda>_.
      bind (gets (\<lambda>s. getSpentStakingTxs si msgTx (db s))) (\<lambda>(stakingTxs, inputIndexes).
      bind (for_each (zip stakingTxs inputIndexes) (\<lambda>(stakingTx, i).
              handleSpendingStakingTransaction si msgTx stakingTx i h timestamp)) (\<lambda>_.
      bind (gets (\<lambda>s. getSpentUnbondingTxs si msgTx (db s))) (\<lambda>(unbondingTxs, inputIndexes).
      for_each (zip unbondingTxs inputIndexes) (\<lambda>(unbondingTx, i).
        handleSpendingUnbondingTransaction si msgTx unbondingTx i h))))))"

text \<open>The end of \<open>HandleConfirmedBlock\<close>, after its loop, and the whole handler.\<close>

definition finish_block :: "'db StakingIndexer \<Rightarrow> IndexedBlock \<Rightarrow> ('db state, unit) prog" where
  "finish_block si b =
     (let h = u64_of_i32 (Height b) in
      bind (wrap_error ''failed to save the last processed height''
        (store_write (SaveLastProcessedHeight (store si) h))) (\<lambda>_.
      bind (if \<not> ExtraEventEnabled si then ret ()
            else
              bind (wrap_error ''failed to get the confirmed tvl''
                (store_read (GetConfirmedTvl (store si)))) (\<lambda>confirmedTvl.
              wrap_error ''failed to push the confirmed info event''
                (push_event si (ConfirmedInfoEvent h confirmedTvl)))) (\<lambda>_.
      metric (lastProcessedBtcHeight_update (\<lambda>_. sint (Height b))))))"

definition HandleConfirmedBlock :: "'db StakingIndexer \<Rightarrow> IndexedBlock \<Rightarrow> ('db state, unit) prog" where
  "HandleConfirmedBlock si b =
     bind (lift (getVersionedParams si (u64_of_i32 (Height b)))) (\<lambda>params.
     bind (for_each (Txs b) (\<lambda>tx. confirmed_tx si params b (MsgTx_of tx))) (\<lambda>_.
     finish_block si b))"

section \<open>Unconfirmed blocks\<close>

text \<open>
  The innermost loop of \<open>CalculateTvlInUnconfirmedBlocks\<close>, over the staking transactions that
  one transaction spends; then the body of the transaction loop, whose \<open>continue\<close>s return the
  variables as they are; then the loops. The variables are the sum so far and the staking
  transactions found in the blocks.
\<close>

definition unconfirmed_spend ::
    "'db StakingIndexer \<Rightarrow> MsgTx \<Rightarrow> StoredStakingTransaction \<Rightarrow> i64 \<Rightarrow> ('db state, i64) prog" where
  "unconfirmed_spend si msgTx stakingTx amount =
     bind (lift (getVersionedParams si (InclusionHeight stakingTx))) (\<lambda>paramsFromStakingTxHeight.
     bind (attempt (lift (IsValidUnbondingTx si msgTx stakingTx paramsFromStakingTxHeight))) (\<lambda>r.
     case r of
       Inl e \<Rightarrow>
         if errors_Is e (IndexerErr ErrInvalidUnbondingTx)
         then bind (invalid_tx ''unconfirmed_unbonding_transactions'') (\<lambda>_. ret amount)
         else bind (metric (failedVerifyingUnbondingTxsCounter_update Suc))
                (\<lambda>_. raise (Wrap ''failed to validate unconfirmed unbonding tx'' e))
     | Inr isUnbonding \<Rightarrow>
         if isUnbonding then ret (if \<not> IsOverflow stakingTx then amount - StakingValue stakingTx else amount)
         else bind (invalid_tx ''unconfirmed_unknown_transaction'') (\<lambda>_. ret amount)))"

definition unconfirmed_tx ::
    "'db StakingIndexer \<Rightarrow> ParsedVersionedGlobalParams \<Rightarrow> IndexedBlock \<Rightarrow> MsgTx \<Rightarrow>
      i64 \<times> (hash \<rightharpoonup> StoredStakingTransaction) \<Rightarrow>
      ('db state, i64 \<times> (hash \<rightharpoonup> StoredStakingTransaction)) prog" where
  "unconfirmed_tx si params b msgTx = (\<lambda>(amount, unconfirmedStakingTxs).
     case tryParseStakingTx si msgTx params of
       Inr stakingData \<Rightarrow>
         (case validateStakingTx params stakingData of
            Inl _ \<Rightarrow>
              bind (invalid_tx ''unconfirmed_staking_transaction'')
                (\<lambda>_. ret (amount, unconfirmedStakingTxs))
          | Inr _ \<Rightarrow>
              ret (amount + Value (StakingOutput stakingData),
                   unconfirmedStakingTxs(TxHash (store si) msgTx \<mapsto>
                     \<lparr>Tx = msgTx,
                      StakingOutputIdx = word_of_int (parsed_StakingOutputIdx stakingData),
                      InclusionHeight = u64_of_i32 (Height b),
                      StakerPk = StakerPublicKey (OpReturnData stakingData),
                      StakingTime = ucast (op_StakingTime (OpReturnData stakingData)),
                      FinalityProviderPk = FinalityProviderPublicKey (OpReturnData stakingData),
                      IsOverflow = False,
                      StakingValue = Value (StakingOutput stakingData)\<rparr>)))
     | Inl _ \<Rightarrow>
         bind (gets (\<lambda>s. fst (getSpentStakingTxs si msgTx (db s)))) (\<lambda>stored.
         let stakingTxs = (if stored = [] then fst (getSpentFromStakingTxs msgTx unconfirmedStakingTxs)
                           else stored) in
         bind (for_acc stakingTxs (unconfirmed_spend si msgTx) amount) (\<lambda>amount'.
         ret (amount', unconfirmedStakingTxs))))"

definition unconfirmed_block ::
    "'db StakingIndexer \<Rightarrow> IndexedBlock \<Rightarrow> i64 \<times> (hash \<rightharpoonup> StoredStakingTransaction) \<Rightarrow>
      ('db state, i64 \<times> (hash \<rightharpoonup> StoredStakingTransaction)) prog" where
  "unconfirmed_block si b v =
     bind (lift (getVersionedParams si (u64_of_i32 (Height b)))) (\<lambda>params.
     for_acc (map MsgTx_of (Txs b)) (unconfirmed_tx si params b) v)"

definition CalculateTvlInUnconfirmedBlocks ::
    "'db StakingIndexer \<Rightarrow> IndexedBlock list \<Rightarrow> ('db state, i64) prog" where
  "CalculateTvlInUnconfirmedBlocks si unconfirmedBlocks =
     bind (for_acc unconfirmedBlocks (unconfirmed_block si) (0, Map.empty)) (\<lambda>v. ret (fst v))"

definition processUnconfirmedInfo ::
    "'db StakingIndexer \<Rightarrow> IndexedBlock list \<Rightarrow> ('db state, unit) prog" where
  "processUnconfirmedInfo si unconfirmedBlocks =
     (if unconfirmedBlocks = [] then ret ()
      else
        let tipBlockCache = last unconfirmedBlocks in
        bind (wrap_error ''failed to calculate unconfirmed tvl''
          (CalculateTvlInUnconfirmedBlocks si unconfirmedBlocks)) (\<lambda>tvlInUnconfirmedBlocks.
        bind (wrap_error ''failed to get the confirmed TVL''
          (store_read (si_GetConfirmedTvl si))) (\<lambda>confirmedTvl.
        let unconfirmedTvl = confirmedTvl + tvlInUnconfirmedBlocks in
        if sint unconfirmedTvl < 0 then raise (Errorf ''total tvl is negative'')
        else
          bind (wrap_error ''failed to push the unconfirmed event''
            (push_event si (BtcInfoEvent (u64_of_i32 (Height tipBlockCache)) confirmedTvl
               unconfirmedTvl))) (\<lambda>_.
          metric (lastCalculatedTvl_update (\<lambda>_. sint unconfirmedTvl))))))"

section \<open>Start heights and the event loop\<close>

text \<open>\<open>GetLastProcessedHeight\<close> returns 0 beside its error.\<close>

definition ValidateStartHeight :: "'db StakingIndexer \<Rightarrow> u64 \<Rightarrow> 'db \<Rightarrow> unit outcome" where
  "ValidateStartHeight si startHeight d =
     (case slice_index (Versions si) 0 of
        Inl f \<Rightarrow> Inl f
      | Inr v0 \<Rightarrow>
        (let baseHeight = ActivationHeight v0;
             r = GetLastProcessedHeight (store si) d;
             lastProcessedHeight = (case r of Inl _ \<Rightarrow> 0 | Inr n \<Rightarrow> n) in
         if startHeight < baseHeight then
           Inl (Error (Errorf ''the start height should not be lower than the earliest activation height''))
         else if isl r \<and> startHeight \<noteq> baseHeight then
           Inl (Error (Errorf ''the database is empty, the start height should be equal to the base height''))
         else if lastProcessedHeight \<noteq> 0 \<and> startHeight > lastProcessedHeight + 1 then
           Inl (Error (Errorf ''the start height should not be higher than the last processed height + 1''))
         else Inr ()))"

definition GetStartHeight :: "'db StakingIndexer \<Rightarrow> 'db \<Rightarrow> u64 outcome" where
  "GetStartHeight si d =
     (case GetLastProcessedHeight (store si) d of
        Inl _ \<Rightarrow>
          (case slice_index (Versions si) 0 of Inl f \<Rightarrow> Inl f | Inr v0 \<Rightarrow> Inr (ActivationHeight v0))
      | Inr lastProcessedHeight \<Rightarrow> Inr (lastProcessedHeight + 1))"

text \<open>
  One update received by \<open>blocksEventLoop\<close>: a confirmed block that cannot be handled ends the
  process. The loop handles the updates in the order in which they arrive, until it is told
  to quit.
\<close>

definition handle_update :: "'db StakingIndexer \<Rightarrow> ChainUpdateInfo \<Rightarrow> ('db state, unit) prog" where
  "handle_update si update =
     bind (for_each (ConfirmedBlocks update) (\<lambda>block.
       on_error (HandleConfirmedBlock si block) (\<lambda>e. fatal ''failed to handle block''))) (\<lambda>_.
     on_error (processUnconfirmedInfo si (UnconfirmedBlocks update))
       (\<lambda>e. metric (failedProcessingUnconfirmedBlockCounter_update Suc)))"

definition blocksEventLoop :: "'db StakingIndexer \<Rightarrow> ChainUpdateInfo list \<Rightarrow> ('db state, unit) prog" where
  "blocksEventLoop si updates = for_each updates (handle_update si)"

end
