(* ===== verification/Validation.thy ===== *)
theory Validation
  imports Indexer
begin

text \<open>
  What the pure checks of the indexer accept: the staking requirements, the cap, the
  unbonding and withdrawal transactions and the start heights.
\<close>

section \<open>Helpers\<close>

lemma slice_index_Inr [simp]: "slice_index xs i = Inr x \<longleftrightarrow> i < length xs \<and> x = xs ! i"
  by (auto simp: slice_index_def)

lemma slice_index_Inl [simp]: "slice_index xs i = Inl f \<longleftrightarrow> \<not> i < length xs \<and> f = Panic ''index out of range''"
  by (auto simp: slice_index_def)

lemma script_from_witness_Inr:
  "script_from_witness tx i = Inr script \<longleftrightarrow>
     i < length (TxIn tx) \<and> 2 \<le> length (Witness (TxIn tx ! i)) \<and>
     script = Witness (TxIn tx ! i) ! (length (Witness (TxIn tx ! i)) - 2)"
  by (auto simp: script_from_witness_def split: sum.split)

text \<open>The unbonding requirements, one by one.\<close>

definition unlocks_unbonding_path ::
    "'db StakingIndexer \<Rightarrow> TxIn \<Rightarrow> StoredStakingTransaction \<Rightarrow> ParsedVersionedGlobalParams \<Rightarrow> bool" where
  "unlocks_unbonding_path si txIn stakingTx params \<longleftrightarrow>
     (case rebuildStakingInfo si stakingTx params of
        Inl _ \<Rightarrow> False
      | Inr info \<Rightarrow>
        (case UnbondingPathSpendInfo info of
           Inl _ \<Rightarrow> False
         | Inr path \<Rightarrow> 2 \<le> length (Witness txIn) \<and>
             Witness txIn ! (length (Witness txIn) - 2) = GetPkScriptPath path))"

definition pays_unbonding_output ::
    "'db StakingIndexer \<Rightarrow> MsgTx \<Rightarrow> StoredStakingTransaction \<Rightarrow> ParsedVersionedGlobalParams \<Rightarrow> bool" where
  "pays_unbonding_output si tx stakingTx params \<longleftrightarrow>
     unat (StakingOutputIdx stakingTx) < length (TxOut (Tx stakingTx)) \<and>
     (let amount = Value (TxOut (Tx stakingTx) ! unat (StakingOutputIdx stakingTx)) - UnbondingFee params in
      0 < sint amount \<and>
      (case rebuildUnbondingInfo si stakingTx params amount of
         Inl _ \<Rightarrow> False
       | Inr info \<Rightarrow> TxOut tx \<noteq> [] \<and> PkScript (hd (TxOut tx)) = PkScript (UnbondingOutput info) \<and>
           Value (hd (TxOut tx)) = Value (UnbondingOutput info)))"

section \<open>Unbonding transactions\<close>

lemma IsValidUnbondingTx_spends:
  assumes "IsValidUnbondingTx si tx stakingTx params = Inr True"
  shows "TxIn tx \<noteq> [] \<and> PreviousOutPoint (hd (TxIn tx)) =
    \<lparr>Hash = TxHash (store si) (Tx stakingTx), Index = StakingOutputIdx stakingTx\<rparr>"
proof -
  obtain txIn0 where in0: "slice_index (TxIn tx) 0 = Inr txIn0"
    and eq: "Hash (PreviousOutPoint txIn0) = TxHash (store si) (Tx stakingTx)"
      "Index (PreviousOutPoint txIn0) = StakingOutputIdx stakingTx"
    using assms by (auto simp: IsValidUnbondingTx_def split: sum.splits if_splits)
  from in0 have "TxIn tx \<noteq> []" and "txIn0 = hd (TxIn tx)"
    by (auto simp: hd_conv_nth)
  with eq show ?thesis by simp
qed

text \<open>C23: \<open>IsValidUnbondingTx\<close> accepts exactly the transfer transactions whose first input
  spends the staking output through the unbonding path, without RBF and lock time, and whose
  first output is the unbonding output rebuilt from the parameters, of the staked value less
  the unbonding fee, which must be positive.\<close>

theorem IsValidUnbondingTx_iff:
  "IsValidUnbondingTx si tx stakingTx params = Inr True \<longleftrightarrow>
     IsTransferTx (lib si) tx = None \<and> TxIn tx \<noteq> [] \<and>
     PreviousOutPoint (hd (TxIn tx)) =
       \<lparr>Hash = TxHash (store si) (Tx stakingTx), Index = StakingOutputIdx stakingTx\<rparr> \<and>
     unlocks_unbonding_path si (hd (TxIn tx)) stakingTx params \<and>
     Sequence (hd (TxIn tx)) = MaxTxInSequenceNum \<and> LockTime tx = 0 \<and>
     pays_unbonding_output si tx stakingTx params"
proof (cases "TxIn tx")
  case Nil
  then show ?thesis by (simp add: IsValidUnbondingTx_def slice_index_def)
next
  case (Cons txIn0 txIns)
  then have in0: "slice_index (TxIn tx) 0 = Inr txIn0" by simp
  have outpoint: "PreviousOutPoint txIn0 = \<lparr>Hash = a, Index = b\<rparr> \<longleftrightarrow>
      Hash (PreviousOutPoint txIn0) = a \<and> Index (PreviousOutPoint txIn0) = b" for a b
    by (cases "PreviousOutPoint txIn0") simp
  show ?thesis
    unfolding IsValidUnbondingTx_def in0
    by (auto simp: Cons outpoint unlocks_unbonding_path_def pays_unbonding_output_def
        script_from_witness_def slice_index_def Let_def hd_conv_nth
        split: sum.splits if_splits)
qed

section \<open>Staking requirements\<close>

text \<open>C24: \<open>validateStakingTx\<close> accepts a parsed transaction exactly when its amount and its
  time are within the limits of the parameters, bounds included; otherwise its error is
  \<open>ErrInvalidStakingTx\<close>.\<close>

theorem validateStakingTx_correct:
  "(validateStakingTx params stakingData = Inr () \<longleftrightarrow>
      sint (MinStakingAmount params) \<le> sint (Value (StakingOutput stakingData)) \<and>
      sint (Value (StakingOutput stakingData)) \<le> sint (MaxStakingAmount params) \<and>
      MinStakingTime params \<le> op_StakingTime (OpReturnData stakingData) \<and>
      op_StakingTime (OpReturnData stakingData) \<le> MaxStakingTime params) \<and>
   (case validateStakingTx params stakingData of
      Inr _ \<Rightarrow> True | Inl e \<Rightarrow> errors_Is e (IndexerErr ErrInvalidStakingTx))"
proof -
  have u16: "(ucast a :: u64) < ucast b \<longleftrightarrow> a < b" for a b :: u16
    by (simp add: word_less_nat_alt unsigned_ucast_eq take_bit_nat_eq_self unsigned_less
        less_trans [OF unsigned_less])
  show ?thesis
    by (auto simp: validateStakingTx_def Let_def u16)
qed

section \<open>The cap\<close>

text \<open>The overflow flag: with a cap height, a transaction overflows exactly when it is
  included above that height; without one, exactly when the confirmed TVL has reached the
  cap. The call panics exactly when the parameters have a cap height and are not active yet
  at the height of the transaction, and otherwise fails only when the TVL cannot be read.\<close>

lemma isOverflow_correct:
  "isOverflow si h params d =
     (if CapHeight params \<noteq> 0 then
        if h < ActivationHeight params then
          Inl (Panic ''the transaction height should not be lower than the param activation height'')
        else Inr (CapHeight params < h)
      else case GetConfirmedTvl (store si) d of
             Inl e \<Rightarrow> Inl (Error (Wrap ''failed to get the confirmed TVL'' e))
           | Inr confirmedTvl \<Rightarrow> Inr (StakingCap params \<le> confirmedTvl))"
  by (auto simp: isOverflow_def Let_def split: sum.split)

section \<open>Withdrawals\<close>

text \<open>The time-lock scripts that a withdrawal must unlock.\<close>

definition unlocks_script :: "MsgTx \<Rightarrow> nat \<Rightarrow> bytes \<Rightarrow> bool" where
  "unlocks_script tx i script \<longleftrightarrow> i < length (TxIn tx) \<and> 2 \<le> length (Witness (TxIn tx ! i)) \<and>
     Witness (TxIn tx ! i) ! (length (Witness (TxIn tx ! i)) - 2) = script"

text \<open>A withdrawal from staking is accepted exactly when the input unlocks the time-lock
  path rebuilt from the stored staking transaction.\<close>

lemma ValidateWithdrawalTxFromStaking_iff:
  "ValidateWithdrawalTxFromStaking si tx stakingTx i params = Inr () \<longleftrightarrow>
     (\<exists>info path. rebuildStakingInfo si stakingTx params = Inr info \<and>
        TimeLockPathSpendInfo info = Inr path \<and> unlocks_script tx i (GetPkScriptPath path))"
  by (auto simp: ValidateWithdrawalTxFromStaking_def unlocks_script_def script_from_witness_def
      slice_index_def split: sum.splits if_splits)

text \<open>A withdrawal from unbonding is accepted exactly when the input unlocks the time-lock
  path of the unbonding output rebuilt from the stored staking transaction, for the staked
  value less the unbonding fee.\<close>

lemma ValidateWithdrawalTxFromUnbonding_iff:
  "ValidateWithdrawalTxFromUnbonding si tx stakingTx i params = Inr () \<longleftrightarrow>
     (\<exists>info path.
        rebuildUnbondingInfo si stakingTx params (StakingValue stakingTx - UnbondingFee params) = Inr info \<and>
        unbonding_TimeLockPathSpendInfo info = Inr path \<and>
        unlocks_script tx i (GetPkScriptPath path))"
  by (auto simp: ValidateWithdrawalTxFromUnbonding_def unlocks_script_def script_from_witness_def
      slice_index_def split: sum.splits if_splits)

section \<open>Start heights\<close>

text \<open>\<open>ValidateStartHeight\<close> accepts exactly the heights from the earliest activation
  height to the last processed height plus one, the earliest activation height alone when no
  height was processed, and any height from the earliest activation height on when the last
  processed height is 0.\<close>

lemma ValidateStartHeight_iff:
  "ValidateStartHeight si startHeight d = Inr () \<longleftrightarrow>
     Versions si \<noteq> [] \<and> ActivationHeight (hd (Versions si)) \<le> startHeight \<and>
     (case GetLastProcessedHeight (store si) d of
        Inl _ \<Rightarrow> startHeight = ActivationHeight (hd (Versions si))
      | Inr n \<Rightarrow> n = 0 \<or> startHeight \<le> n + 1)"
  by (cases "Versions si")
    (auto simp: ValidateStartHeight_def slice_index_def Let_def split: sum.splits if_splits)

text \<open>The height that \<open>GetStartHeight\<close> returns passes \<open>ValidateStartHeight\<close>, provided
  the last processed height, if there is one, is not below the earliest activation height
  minus one.\<close>

lemma GetStartHeight_valid:
  assumes "GetStartHeight si d = Inr startHeight" and "Versions si \<noteq> []"
    and "\<forall>n. GetLastProcessedHeight (store si) d = Inr n \<longrightarrow> ActivationHeight (hd (Versions si)) \<le> n + 1"
  shows "ValidateStartHeight si startHeight d = Inr ()"
  using assms
  by (auto simp: ValidateStartHeight_def GetStartHeight_def slice_index_def Let_def hd_conv_nth
      split: sum.splits if_splits)

end
