(* ===== verification/Indexer_Invariants.thy ===== *)
theory Indexer_Invariants
  imports Validation
begin

text \<open>
  What every run of the indexer keeps, whatever the outcome of its calls: the store stays
  uncorrupted and balanced and only grows, every staking transaction that enters it was
  parsed and validated under the parameters of its height, every unbonding transaction that
  enters it is a valid one for a stored staking transaction, and both were announced to the
  consumer before they were stored.
\<close>

section \<open>The relation between the states before and after a run\<close>

definition ledger_at :: "'db StakingIndexer \<Rightarrow> 'db state \<Rightarrow> ledger" where
  "ledger_at si s = ledger_of (store si) (db s)"

definition db_ok :: "'db StakingIndexer \<Rightarrow> 'db state \<Rightarrow> bool" where
  "db_ok si s \<longleftrightarrow> store_ok (store si) (db s)"

text \<open>The event that announces a stored message; its time stamp is that of the block.\<close>

fun announces_stake :: "'db StakingIndexer \<Rightarrow> hash \<Rightarrow> StakingTransaction \<Rightarrow> event \<Rightarrow> bool" where
  "announces_stake si h p (ActiveStakingEvent txHash staker fp val hgt ts time idx txHex overflow) \<longleftrightarrow>
     txHash = hash_String si h \<and> staker = hex_EncodeToString (p_StakerPk p) \<and>
     fp = hex_EncodeToString (p_FinalityProviderPk p) \<and> val = p_StakingValue p \<and>
     hgt = p_InclusionHeight p \<and> time = ucast (p_StakingTime p) \<and>
     idx = ucast (p_StakingOutputIdx p) \<and> txHex = hex_EncodeToString (p_TransactionBytes p) \<and>
     overflow = p_IsOverflow p"
| "announces_stake si h p _ = False"

fun announces_unbonding :: "'db StakingIndexer \<Rightarrow> hash \<Rightarrow> UnbondingTransaction \<Rightarrow> event \<Rightarrow> bool" where
  "announces_unbonding si h u (UnbondingStakingEvent stakingHash hgt ts time idx txHex txHash) \<longleftrightarrow>
     stakingHash = hash_String si (pu_StakingTxHash u) \<and> idx = 0 \<and>
     txHex = hex_EncodeToString (pu_TransactionBytes u) \<and> txHash = hash_String si h"
| "announces_unbonding si h u _ = False"

text \<open>The message built for a transaction that was parsed and validated at a height.\<close>

definition staking_msg ::
    "'db StakingIndexer \<Rightarrow> ParsedV0StakingTx \<Rightarrow> u64 \<Rightarrow> bytes \<Rightarrow> bool \<Rightarrow> StakingTransaction" where
  "staking_msg si stakingData h ser overflow =
     \<lparr>p_TransactionBytes = ser,
      p_StakingOutputIdx = word_of_int (parsed_StakingOutputIdx stakingData),
      p_InclusionHeight = h,
      p_StakerPk = SerializePubKey (store si) (StakerPublicKey (OpReturnData stakingData)),
      p_FinalityProviderPk =
        SerializePubKey (store si) (FinalityProviderPublicKey (OpReturnData stakingData)),
      p_StakingTime = ucast (op_StakingTime (OpReturnData stakingData)),
      p_IsOverflow = overflow,
      p_StakingValue = Value (StakingOutput stakingData)\<rparr>"

definition stake_valid :: "'db StakingIndexer \<Rightarrow> MsgTx set \<Rightarrow> hash \<Rightarrow> StakingTransaction \<Rightarrow> bool" where
  "stake_valid si C h p \<longleftrightarrow>
     (\<exists>params tx stakingData ser.
        GetVersionedGlobalParamsByHeight si (p_InclusionHeight p) = Some params \<and>
        tx \<in> C \<and> tryParseStakingTx si tx params = Inr stakingData \<and>
        validateStakingTx params stakingData = Inr () \<and>
        h = TxHash (store si) tx \<and> Serialize (store si) tx = Inr ser \<and>
        p = staking_msg si stakingData (p_InclusionHeight p) ser (p_IsOverflow p))"

definition unbonding_valid :: "'db StakingIndexer \<Rightarrow> MsgTx set \<Rightarrow> ledger \<Rightarrow> hash \<Rightarrow> UnbondingTransaction \<Rightarrow> bool" where
  "unbonding_valid si C l h u \<longleftrightarrow>
     (\<exists>p stakingTx params tx.
        staking l (pu_StakingTxHash u) = Some p \<and>
        protoStakingTxToStoredStakingTx (store si) p = Inr stakingTx \<and>
        GetVersionedGlobalParamsByHeight si (InclusionHeight stakingTx) = Some params \<and>
        tx \<in> C \<and> IsValidUnbondingTx si tx stakingTx params = Inr True \<and>
        h = TxHash (store si) tx \<and> Serialize (store si) tx = Inr (pu_TransactionBytes u))"

definition new_stakes_ok :: "'db StakingIndexer \<Rightarrow> MsgTx set \<Rightarrow> 'db state \<Rightarrow> 'db state \<Rightarrow> bool" where
  "new_stakes_ok si C s s' \<longleftrightarrow>
     (\<forall>h p. staking (ledger_at si s') h = Some p \<longrightarrow>
        staking (ledger_at si s) h = Some p \<or>
        stake_valid si C h p \<and> (\<exists>ev\<in>set (queue s'). announces_stake si h p ev))"

definition new_unbondings_ok :: "'db StakingIndexer \<Rightarrow> MsgTx set \<Rightarrow> 'db state \<Rightarrow> 'db state \<Rightarrow> bool" where
  "new_unbondings_ok si C s s' \<longleftrightarrow>
     (\<forall>h u. unbonding (ledger_at si s') h = Some u \<longrightarrow>
        unbonding (ledger_at si s) h = Some u \<or>
        unbonding_valid si C (ledger_at si s') h u \<and>
        (\<exists>ev\<in>set (queue s'). announces_unbonding si h u ev))"

definition progress :: "'db StakingIndexer \<Rightarrow> MsgTx set \<Rightarrow> 'db state \<Rightarrow> 'db state \<Rightarrow> bool" where
  "progress si C s s' \<longleftrightarrow> (db_ok si s \<longrightarrow>
     db_ok si s' \<and> ledger_le (ledger_at si s) (ledger_at si s') \<and>
     (balanced (ledger_at si s) \<longrightarrow> balanced (ledger_at si s')) \<and>
     (\<exists>evs. queue s' = queue s @ evs) \<and> new_stakes_ok si C s s' \<and> new_unbondings_ok si C s s')"

text \<open>A block of the chain whose transactions are \<open>C\<close>; every transaction has inputs.\<close>

definition block_ok :: "MsgTx set \<Rightarrow> IndexedBlock \<Rightarrow> bool" where
  "block_ok C b \<longleftrightarrow> (\<forall>tx\<in>set (Txs b). MsgTx_of tx \<in> C \<and> TxIn (MsgTx_of tx) \<noteq> [])"

text \<open>A staking transaction as the look-ups return it.\<close>

definition stored_in :: "'db StakingIndexer \<Rightarrow> 'db state \<Rightarrow> StoredStakingTransaction \<Rightarrow> bool" where
  "stored_in si s stakingTx \<longleftrightarrow>
     (\<exists>p. staking (ledger_at si s) (TxHash (store si) (Tx stakingTx)) = Some p \<and>
        protoStakingTxToStoredStakingTx (store si) p = Inr stakingTx)"

text \<open>The invariant of the indexer.\<close>

definition index_ok :: "'db StakingIndexer \<Rightarrow> MsgTx set \<Rightarrow> 'db state \<Rightarrow> bool" where
  "index_ok si C s \<longleftrightarrow> db_ok si s \<and> balanced (ledger_at si s) \<and>
     (\<forall>h p. staking (ledger_at si s) h = Some p \<longrightarrow>
        stake_valid si C h p \<and> (\<exists>ev\<in>set (queue s). announces_stake si h p ev)) \<and>
     (\<forall>h u. unbonding (ledger_at si s) h = Some u \<longrightarrow>
        unbonding_valid si C (ledger_at si s) h u \<and>
        (\<exists>ev\<in>set (queue s). announces_unbonding si h u ev))"

lemma unbonding_valid_mono:
  "unbonding_valid si C l h u \<Longrightarrow> ledger_le l l' \<Longrightarrow> unbonding_valid si C l' h u"
  unfolding unbonding_valid_def by (blast intro: ledger_le_staking)

lemma new_stakes_ok_trans:
  assumes "new_stakes_ok si C s t" and "new_stakes_ok si C t u" and "queue u = queue t @ evs"
  shows "new_stakes_ok si C s u"
  unfolding new_stakes_ok_def
proof (intro allI impI)
  fix h p
  assume "staking (ledger_at si u) h = Some p"
  with assms(2) consider "staking (ledger_at si t) h = Some p"
    | "stake_valid si C h p" "\<exists>ev\<in>set (queue u). announces_stake si h p ev"
    unfolding new_stakes_ok_def by blast
  then show "staking (ledger_at si s) h = Some p \<or>
      stake_valid si C h p \<and> (\<exists>ev\<in>set (queue u). announces_stake si h p ev)"
  proof cases
    case 1
    with assms(1) show ?thesis unfolding new_stakes_ok_def assms(3) set_append by blast
  qed blast
qed

lemma new_unbondings_ok_trans:
  assumes "new_unbondings_ok si C s t" and "new_unbondings_ok si C t u" and "queue u = queue t @ evs"
    and "ledger_le (ledger_at si t) (ledger_at si u)"
  shows "new_unbondings_ok si C s u"
  unfolding new_unbondings_ok_def
proof (intro allI impI)
  fix h w
  assume "unbonding (ledger_at si u) h = Some w"
  with assms(2) consider "unbonding (ledger_at si t) h = Some w"
    | "unbonding_valid si C (ledger_at si u) h w" "\<exists>ev\<in>set (queue u). announces_unbonding si h w ev"
    unfolding new_unbondings_ok_def by blast
  then show "unbonding (ledger_at si s) h = Some w \<or> unbonding_valid si C (ledger_at si u) h w \<and>
      (\<exists>ev\<in>set (queue u). announces_unbonding si h w ev)"
  proof cases
    case 1
    with assms(1,4) show ?thesis
      unfolding new_unbondings_ok_def assms(3) set_append by (blast intro: unbonding_valid_mono)
  qed blast
qed

interpretation progress: state_preorder "progress si C" for si C
proof
  fix s t u
  show "progress si C s s"
    by (simp add: progress_def new_stakes_ok_def new_unbondings_ok_def)
  assume st: "progress si C s t" and tu: "progress si C t u"
  show "progress si C s u"
    unfolding progress_def
  proof (intro impI)
    assume ok: "db_ok si s"
    from st ok obtain e1 where 1: "db_ok si t" "ledger_le (ledger_at si s) (ledger_at si t)"
      "balanced (ledger_at si s) \<longrightarrow> balanced (ledger_at si t)" "queue t = queue s @ e1"
      "new_stakes_ok si C s t" "new_unbondings_ok si C s t"
      by (auto simp: progress_def)
    from tu 1(1) obtain e2 where 2: "db_ok si u" "ledger_le (ledger_at si t) (ledger_at si u)"
      "balanced (ledger_at si t) \<longrightarrow> balanced (ledger_at si u)" "queue u = queue t @ e2"
      "new_stakes_ok si C t u" "new_unbondings_ok si C t u"
      by (auto simp: progress_def)
    show "db_ok si u \<and> ledger_le (ledger_at si s) (ledger_at si u) \<and>
        (balanced (ledger_at si s) \<longrightarrow> balanced (ledger_at si u)) \<and>
        (\<exists>evs. queue u = queue s @ evs) \<and> new_stakes_ok si C s u \<and> new_unbondings_ok si C s u"
      using 1 2 ledger_le_trans [OF 1(2) 2(2)] new_stakes_ok_trans [OF 1(5) 2(5,4)]
        new_unbondings_ok_trans [OF 1(6) 2(6,4,2)]
      by simp
  qed
qed

text \<open>A run that leaves the database alone and only pushes events.\<close>

lemma progress_same_db:
  "db s' = db s \<Longrightarrow> queue s' = queue s @ evs \<Longrightarrow> progress si C s s'"
  by (auto simp: progress_def db_ok_def ledger_at_def new_stakes_ok_def new_unbondings_ok_def)

lemma progress_ok: "progress si C s s' \<Longrightarrow> db_ok si s \<Longrightarrow> db_ok si s'"
  by (simp add: progress_def)

lemma progress_index_ok:
  assumes "progress si C s s'" and "index_ok si C s"
  shows "index_ok si C s'"
proof -
  from assms obtain evs where *: "db_ok si s'" "ledger_le (ledger_at si s) (ledger_at si s')"
    "balanced (ledger_at si s')" "queue s' = queue s @ evs" "new_stakes_ok si C s s'"
    "new_unbondings_ok si C s s'"
    by (auto simp: progress_def index_ok_def)
  have "stake_valid si C h p \<and> (\<exists>ev\<in>set (queue s'). announces_stake si h p ev)"
    if "staking (ledger_at si s') h = Some p" for h p
    using that *(5) assms(2) unfolding new_stakes_ok_def index_ok_def *(4) set_append by blast
  moreover have "unbonding_valid si C (ledger_at si s') h u \<and>
      (\<exists>ev\<in>set (queue s'). announces_unbonding si h u ev)"
    if "unbonding (ledger_at si s') h = Some u" for h u
    using that *(2,6) assms(2) unfolding new_unbondings_ok_def index_ok_def *(4) set_append
    by (blast intro: unbonding_valid_mono)
  ultimately show ?thesis using * by (simp add: index_ok_def)
qed

section \<open>The effects\<close>

lemma run_store_read: "run_in (progress si C) (store_read f)"
  by (rule run_inI) (simp add: store_read_def progress.R_refl split: sum.split)

lemma run_push_event: "run_in (progress si C) (push_event si ev)"
  by (rule run_inI)
    (auto simp: push_event_def progress.R_refl intro: progress_same_db split: option.split)

lemma run_metric: "run_in (progress si C) (metric f)"
  unfolding metric_def by (rule progress.run_modify) (rule progress_same_db [where evs = "[]"], simp_all)

lemma run_invalid_tx: "run_in (progress si C) (invalid_tx l)"
  unfolding invalid_tx_def by (rule run_metric)

lemma run_wrap_error: "run_in (progress si C) m \<Longrightarrow> run_in (progress si C) (wrap_error msg m)"
  unfolding wrap_error_def by (intro progress.run_rules)

lemma run_count_error: "run_in (progress si C) m \<Longrightarrow> run_in (progress si C) (count_error f m)"
  unfolding count_error_def by (intro progress.run_rules run_metric)

lemmas run_effects = progress.run_ret progress.run_raise progress.run_panic progress.run_fatal
  progress.run_lift progress.run_gets progress.run_bind progress.run_attempt progress.run_on_error
  progress.run_for_each progress.run_for_acc
  run_store_read run_push_event run_metric run_invalid_tx run_wrap_error run_count_error

lemma push_event_Inr: "push_event si ev s = (Inr x, s') \<Longrightarrow> s' = s\<lparr>queue := queue s @ [ev]\<rparr>"
  by (auto simp: push_event_def split: option.splits)

lemma wrap_error_Inr [simp]: "wrap_error msg m s = (Inr x, s') \<longleftrightarrow> m s = (Inr x, s')"
  by (simp add: wrap_error_def)

lemma getTxHex_Inr:
  assumes "getTxHex si tx = Inr txHex"
  obtains ser where "Serialize (store si) tx = Inr ser" and "txHex = hex_EncodeToString ser"
  using assms by (auto simp: getTxHex_def split: sum.splits)

text \<open>The shape of the two writers: hexadecimal form, event, store, metrics.\<close>

lemma progress_announced_write:
  assumes "getTxHex si tx = Inr txHex"
    and "progress si C (s\<lparr>queue := queue s @ [ev txHex]\<rparr>)
      (snd (store_write w (s\<lparr>queue := queue s @ [ev txHex]\<rparr>)))"
    and "run_in (progress si C) k"
  shows "progress si C s (snd (bind (lift (getTxHex si tx)) (\<lambda>txHex.
    bind (wrap_error m1 (push_event si (ev txHex))) (\<lambda>_.
    bind (on_error (store_write w) (\<lambda>e. if errors_Is e dup then ret () else raise (Wrap m2 e)))
      (\<lambda>_. k))) s))"
proof -
  have hex: "lift (getTxHex si tx) s = (Inr txHex, s)" using assms(1) by (simp add: lift_def)
  have "progress si C s (snd (bind (wrap_error m1 (push_event si (ev txHex))) (\<lambda>_.
    bind (on_error (store_write w) (\<lambda>e. if errors_Is e dup then ret () else raise (Wrap m2 e)))
      (\<lambda>_. k)) s))"
  proof (rule progress.bind_at, goal_cases)
    case 1
    show ?case by (intro progress.run_at run_effects)
  next
    case (2 x s1)
    then have "progress si C s1 (snd (store_write w s1))"
      using assms(2) by (auto dest: push_event_Inr)
    with assms(3) show ?case
      by (intro progress.bind_at progress.on_error_at) (auto intro!: progress.run_at run_effects)
  qed
  then show ?thesis by (simp add: bind_eq [of "lift (getTxHex si tx)"] hex)
qed

lemma run_processWithdrawTx: "run_in (progress si C) (processWithdrawTx si tx x y h)"
  unfolding processWithdrawTx_def by (auto intro!: run_effects)

lemma run_handleSpendingUnbondingTransaction:
  "run_in (progress si C) (handleSpendingUnbondingTransaction si tx unbondingTx i h)"
  unfolding handleSpendingUnbondingTransaction_def
  by (intro run_effects) (auto split: option.split sum.split intro!: run_effects run_processWithdrawTx)

lemma run_unconfirmed_spend: "run_in (progress si C) (unconfirmed_spend si tx stakingTx v)"
  unfolding unconfirmed_spend_def by (auto split: sum.split intro!: run_effects)

lemma run_unconfirmed_tx: "run_in (progress si C) (unconfirmed_tx si params b tx v)"
  unfolding unconfirmed_tx_def Let_def
  by (auto split: prod.split sum.split intro!: run_effects run_unconfirmed_spend)

lemma run_processUnconfirmedInfo: "run_in (progress si C) (processUnconfirmedInfo si bs)"
  unfolding processUnconfirmedInfo_def CalculateTvlInUnconfirmedBlocks_def unconfirmed_block_def Let_def
  by (auto intro!: run_effects run_unconfirmed_tx)

lemma HandleConfirmedBlock_params:
  assumes "GetVersionedGlobalParamsByHeight si (u64_of_i32 (Height b)) = Some params"
  shows "HandleConfirmedBlock si b =
    bind (for_each (Txs b) (\<lambda>tx. confirmed_tx si params b (MsgTx_of tx))) (\<lambda>_. finish_block si b)"
  by (simp add: fun_eq_iff HandleConfirmedBlock_def getVersionedParams_def assms
      bind_eq [of "lift _"] lift_def)

section \<open>The loops over the inputs\<close>

text \<open>The loops return, in order, what the inputs spend, with the indexes of the inputs.\<close>

definition spent_by ::
    "(hash \<Rightarrow> 'a option) \<Rightarrow> (TxIn \<Rightarrow> 'a \<Rightarrow> bool) \<Rightarrow> nat \<times> TxIn \<Rightarrow> ('a \<times> nat) option" where
  "spent_by look test = (\<lambda>(i, txIn).
     case look (Hash (PreviousOutPoint txIn)) of
       Some x \<Rightarrow> if test txIn x then Some (x, i) else None
     | None \<Rightarrow> None)"

lemma spent_loop_pairs:
  assumes "spent_loop look test k ins = (xs, is)"
  shows "zip xs is = List.map_filter (spent_by look test) (enumerate k ins)"
    and "length xs = length is"
  using assms
  by (induction ins arbitrary: k xs "is")
    (auto simp: spent_by_def List.map_filter_simps split: option.splits if_splits prod.splits)

lemma map_filter_member: "x \<in> set (List.map_filter f xs) \<longleftrightarrow> (\<exists>y\<in>set xs. f y = Some x)"
  by (induction xs) (auto simp: List.map_filter_simps split: option.splits)

lemma spent_loop_stored:
  assumes "spent_loop look test k ins = (xs, is)" and "(x, i) \<in> set (zip xs is)"
  obtains txIn where "txIn \<in> set ins" and "look (Hash (PreviousOutPoint txIn)) = Some x"
    and "test txIn x"
proof -
  from assms(2) obtain y where y: "y \<in> set (enumerate k ins)" "spent_by look test y = Some (x, i)"
    unfolding spent_loop_pairs(1) [OF assms(1)] map_filter_member by blast
  have "snd y \<in> set ins" using y(1) by (metis image_eqI list.set_map map_snd_enumerate)
  with y(2) that [of "snd y"] show ?thesis
    by (auto simp: spent_by_def split: prod.splits option.splits if_splits)
qed

section \<open>The handlers\<close>

locale indexer_env = store_backend "store si" for si :: "'db StakingIndexer"
begin

text \<open>One write to the store, announced if it adds something.\<close>

lemma progress_write:
  assumes adm: "admissible_op (store si) op"
    and stake: "\<And>h p. op = AddStaking h p \<Longrightarrow> db_ok si s \<Longrightarrow> staking (ledger_at si s) h = None \<Longrightarrow>
        stake_valid si C h p \<and> (\<exists>ev\<in>set (queue s). announces_stake si h p ev)"
    and unbond: "\<And>h u. op = AddUnbonding h u \<Longrightarrow> db_ok si s \<Longrightarrow>
        unbonding_valid si C (ledger_at si s) h u \<and> (\<exists>ev\<in>set (queue s). announces_unbonding si h u ev)"
  shows "progress si C s (snd (store_write (exec_op (store si) op) s))"
proof -
  define s' where "s' = s\<lparr>db := fst (exec_op (store si) op (db s))\<rparr>"
  have run: "snd (store_write (exec_op (store si) op) s) = s'"
    by (simp add: s'_def store_write_def split: prod.split option.split)
  have q: "queue s' = queue s" by (simp add: s'_def)
  show ?thesis
    unfolding progress_def run
  proof (intro impI)
    assume ok: "db_ok si s"
    have ok': "store_ok (store si) (db s)" using ok by (simp add: db_ok_def)
    have le: "ledger_le (ledger_at si s) (ledger_at si s')"
      using st.exec_le [OF ok' adm] by (simp add: s'_def ledger_at_def)
    from ok' adm have "new_stakes_ok si C s s' \<and> new_unbondings_ok si C s s'"
    proof (cases rule: st.exec_cases)
      case (applied d')
      then have ap: "apply_op op (ledger_at si s) = Inr (ledger_at si s')"
        by (simp add: s'_def ledger_at_def)
      show ?thesis
      proof (cases op)
        case (AddStaking h p)
        note maps = apply_staking_maps [OF ap [unfolded AddStaking]]
        show ?thesis
          using stake [OF AddStaking ok maps(1)] maps(2,3)
          by (simp add: new_stakes_ok_def new_unbondings_ok_def q)
      next
        case (AddUnbonding h u)
        note maps = apply_unbonding_maps [OF ap [unfolded AddUnbonding]]
        show ?thesis
          using unbond [OF AddUnbonding ok] unbonding_valid_mono [OF _ le] maps(2,3)
          by (auto simp: new_stakes_ok_def new_unbondings_ok_def q)
      next
        case (SaveHeight n)
        note maps = apply_height_maps [OF ap [unfolded SaveHeight]]
        then show ?thesis by (simp add: new_stakes_ok_def new_unbondings_ok_def)
      qed
    next
      case (refused e)
      then show ?thesis by (simp add: s'_def new_stakes_ok_def new_unbondings_ok_def ledger_at_def)
    qed
    then show "db_ok si s' \<and> ledger_le (ledger_at si s) (ledger_at si s') \<and>
        (balanced (ledger_at si s) \<longrightarrow> balanced (ledger_at si s')) \<and>
        (\<exists>evs. queue s' = queue s @ evs) \<and> new_stakes_ok si C s s' \<and> new_unbondings_ok si C s s'"
      using st.exec_keeps_ok [OF ok' adm] st.exec_balanced [OF ok' adm] le
      by (simp add: s'_def db_ok_def ledger_at_def)
  qed
qed

text \<open>The exported writers as operations of the contract.\<close>

lemma AddStakingTransaction_exec:
  "AddStakingTransaction (store si) tx (word_of_int (parsed_StakingOutputIdx stakingData)) h
     (StakerPublicKey (OpReturnData stakingData)) (ucast (op_StakingTime (OpReturnData stakingData)))
     (FinalityProviderPublicKey (OpReturnData stakingData)) (Value (StakingOutput stakingData)) ov =
   (case Serialize (store si) tx of
      Inl e \<Rightarrow> (\<lambda>d. (d, Some (LibErr e)))
    | Inr ser \<Rightarrow> exec_op (store si)
        (AddStaking (TxHash (store si) tx) (staking_msg si stakingData h ser ov)))"
  by (auto simp: fun_eq_iff AddStakingTransaction_def SerializeBtcTransaction_def lib_result_def
      staking_msg_def split: sum.split)

lemma AddUnbondingTransaction_exec:
  "AddUnbondingTransaction (store si) tx h =
   (case Serialize (store si) tx of
      Inl e \<Rightarrow> (\<lambda>d. (d, Some (LibErr e)))
    | Inr ser \<Rightarrow> exec_op (store si) (AddUnbonding (TxHash (store si) tx)
        \<lparr>pu_TransactionBytes = ser, pu_StakingTxHash = h\<rparr>))"
  by (auto simp: fun_eq_iff AddUnbondingTransaction_def SerializeBtcTransaction_def lib_result_def
      split: sum.split)

lemma staking_msg_admissible:
  assumes "Serialize (store si) tx = Inr ser" and "TxIn tx \<noteq> []"
  shows "admissible_op (store si)
    (AddStaking (TxHash (store si) tx) (staking_msg si stakingData h ser ov))"
  using staking_msg_decodes [OF assms, of "staking_msg si stakingData h ser ov"
      "StakerPublicKey (OpReturnData stakingData)" "FinalityProviderPublicKey (OpReturnData stakingData)"]
  by (auto simp: staking_msg_def)

text \<open>What the look-ups of the indexer find is in the ledger.\<close>

lemma GetStakingTransaction_stored:
  assumes "db_ok si s" and "GetStakingTransaction (store si) h (db s) = Inr (Some stakingTx)"
  obtains p where "staking (ledger_at si s) h = Some p"
    and "protoStakingTxToStoredStakingTx (store si) p = Inr stakingTx"
    and "TxHash (store si) (Tx stakingTx) = h"
proof (cases "BeginRead (store si) (db s)")
  case (Some e)
  then show ?thesis using assms(2) by (simp add: GetStakingTransaction_def View_def)
next
  case None
  have ok: "store_ok (store si) (db s)" using assms(1) by (simp add: db_ok_def)
  show ?thesis
  proof (cases "staking (ledger_at si s) h")
    case None
    with GetStakingTransaction_None [OF ok \<open>BeginRead (store si) (db s) = None\<close>, of h] assms(2)
    show ?thesis by (simp add: ledger_at_def)
  next
    case (Some p)
    then have "staking (ledger_of (store si) (db s)) h = Some p" by (simp add: ledger_at_def)
    from GetStakingTransaction_Some [OF ok None this] assms(2) Some that show ?thesis
      by (metis Inr_inject option.inject)
  qed
qed

text \<open>Storing a staking transaction that is stored already, or is valid.\<close>

lemma progress_add_staking:
  assumes ins: "TxIn tx \<noteq> []"
    and new: "\<And>ser. db_ok si s \<Longrightarrow> staking (ledger_at si s) (TxHash (store si) tx) = None \<Longrightarrow>
      Serialize (store si) tx = Inr ser \<Longrightarrow>
      stake_valid si C (TxHash (store si) tx) (staking_msg si stakingData h ser ov)"
  shows "progress si C s (snd (si_addStakingTransaction si h ts tx
    (StakerPublicKey (OpReturnData stakingData)) (FinalityProviderPublicKey (OpReturnData stakingData))
    (Value (StakingOutput stakingData)) (ucast (op_StakingTime (OpReturnData stakingData)))
    (word_of_int (parsed_StakingOutputIdx stakingData)) ov s))"
proof (cases "Serialize (store si) tx")
  case (Inl e)
  then show ?thesis
    by (simp add: si_addStakingTransaction_def getTxHex_def bind_eq lift_def progress.R_refl)
next
  case (Inr ser)
  let ?op = "AddStaking (TxHash (store si) tx) (staking_msg si stakingData h ser ov)"
  have stored: "progress si C (s\<lparr>queue := queue s @ [ev]\<rparr>)
      (snd (store_write (exec_op (store si) ?op) (s\<lparr>queue := queue s @ [ev]\<rparr>)))"
    if ev: "announces_stake si (TxHash (store si) tx) (staking_msg si stakingData h ser ov) ev" for ev
    using staking_msg_admissible [OF Inr ins] new [OF _ _ Inr] ev
    by (intro progress_write) (auto simp: db_ok_def ledger_at_def)
  show ?thesis
    unfolding si_addStakingTransaction_def AddStakingTransaction_exec Inr sum.case
    by (intro progress_announced_write run_effects, simp add: getTxHex_def Inr, rule stored)
      (simp add: staking_msg_def)
qed

text \<open>An unbonding transaction that is valid for a stored staking transaction.\<close>

lemma progress_process_unbonding:
  assumes ins: "TxIn tx \<noteq> []" and "length stakingHash = 32"
    and new: "\<And>ser. db_ok si s \<Longrightarrow> Serialize (store si) tx = Inr ser \<Longrightarrow>
      unbonding_valid si C (ledger_at si s) (TxHash (store si) tx)
        \<lparr>pu_TransactionBytes = ser, pu_StakingTxHash = stakingHash\<rparr>"
  shows "progress si C s (snd (ProcessUnbondingTx si tx stakingHash h ts params s))"
proof (cases "Serialize (store si) tx")
  case (Inl e)
  then show ?thesis
    by (simp add: ProcessUnbondingTx_def getTxHex_def bind_eq lift_def progress.R_refl)
next
  case (Inr ser)
  let ?u = "\<lparr>pu_TransactionBytes = ser, pu_StakingTxHash = stakingHash\<rparr>"
  have stored: "progress si C (s\<lparr>queue := queue s @ [ev]\<rparr>)
      (snd (store_write (exec_op (store si) (AddUnbonding (TxHash (store si) tx) ?u)) (s\<lparr>queue := queue s @ [ev]\<rparr>)))"
    if ev: "announces_unbonding si (TxHash (store si) tx) ?u ev" for ev
    using unbonding_msg_decodes(2) [OF Inr ins assms(2)] new [OF _ Inr] ev
    by (intro progress_write) (auto simp: db_ok_def ledger_at_def)
  show ?thesis
    unfolding ProcessUnbondingTx_def AddUnbondingTransaction_exec Inr sum.case
    by (intro progress_announced_write run_effects, simp add: getTxHex_def Inr, rule stored) simp
qed

lemma progress_process_staking:
  assumes "TxIn tx \<noteq> []" and "tx \<in> C" and par: "GetVersionedGlobalParamsByHeight si h = Some params"
    and parsed: "tryParseStakingTx si tx params = Inr stakingData"
  shows "progress si C s (snd (ProcessStakingTx si tx stakingData h ts params s))"
  unfolding ProcessStakingTx_def Let_def
proof (rule progress.bind_at, goal_cases)
  case 1
  show ?case by (intro progress.run_at run_effects)
next
  case (2 found s1)
  then have read: "s1 = s" "GetStakingTransaction (store si) (TxHash (store si) tx) (db s) = Inr found"
    by (auto simp: store_read_def split: sum.splits)
  show ?case
  proof (cases found)
    case (Some stakingTx)
    have "staking (ledger_at si s) (TxHash (store si) tx) \<noteq> None" if "db_ok si s"
      using GetStakingTransaction_stored [OF that] read(2) Some by blast
    with assms(1) show ?thesis
      by (auto simp: Some read(1) intro!: progress_add_staking)
  next
    case None
    have "stake_valid si C (TxHash (store si) tx) (staking_msg si stakingData h ser ov)"
      if "Serialize (store si) tx = Inr ser" and "validateStakingTx params stakingData = Inr ()" for ser ov
      unfolding stake_valid_def using assms(2) par parsed that by (auto simp: staking_msg_def)
    with assms(1) show ?thesis
      by (auto simp: None split: sum.split
          intro!: progress.bind_at progress_add_staking intro: progress.run_at run_effects)
  qed
qed

lemma run_process_staking:
  assumes "TxIn tx \<noteq> []" and "tx \<in> C" and "GetVersionedGlobalParamsByHeight si h = Some params"
    and "tryParseStakingTx si tx params = Inr stakingData"
  shows "run_in (progress si C) (ProcessStakingTx si tx stakingData h ts params)"
  unfolding run_in_def using progress_process_staking [OF assms] by blast

lemma stored_in_progress:
  assumes "stored_in si s stakingTx" and "db_ok si s" and "progress si C s s'"
  shows "stored_in si s' stakingTx"
  using assms by (auto simp: stored_in_def progress_def intro: ledger_le_staking)

lemma progress_handle_spending_staking:
  assumes ins: "TxIn tx \<noteq> []" "tx \<in> C" and st: "db_ok si s \<Longrightarrow> stored_in si s stakingTx"
  shows "progress si C s (snd (handleSpendingStakingTransaction si tx stakingTx i h ts s))"
proof -
  have unbond: "progress si C s (snd (ProcessUnbondingTx si tx (TxHash (store si) (Tx stakingTx)) h ts params s))"
    if "GetVersionedGlobalParamsByHeight si (InclusionHeight stakingTx) = Some params"
      and "IsValidUnbondingTx si tx stakingTx params = Inr True" for params
    using ins st that
    by (intro progress_process_unbonding) (auto simp: length_TxHash stored_in_def unbonding_valid_def)
  show ?thesis
    unfolding handleSpendingStakingTransaction_def Let_def
    by (intro progress.bind_at)
      (auto simp: lift_def attempt_def getVersionedParams_def progress.R_refl
        split: sum.splits option.splits fault.splits intro!: progress.on_error_at unbond,
        (rule progress.run_at, auto split: sum.split intro!: run_effects run_processWithdrawTx)+)
qed

lemma getSpentStakingTxs_stored:
  assumes "db_ok si s" and "(stakingTx, i) \<in> set (zip stakingTxs is)"
    and "getSpentStakingTxs si tx (db s) = (stakingTxs, is)"
  shows "stored_in si s stakingTx"
proof (rule spent_loop_stored [OF assms(3) [unfolded getSpentStakingTxs_def] assms(2)])
  fix txIn
  assume "(case GetStakingTxByHash si (Hash (PreviousOutPoint txIn)) (db s) of
    Inl _ \<Rightarrow> None | Inr r \<Rightarrow> r) = Some stakingTx"
  then have "GetStakingTransaction (store si) (Hash (PreviousOutPoint txIn)) (db s)
      = Inr (Some stakingTx)"
    by (cases "GetStakingTransaction (store si) (Hash (PreviousOutPoint txIn)) (db s)")
      (simp_all add: GetStakingTxByHash_def)
  then show ?thesis
    by (rule GetStakingTransaction_stored [OF assms(1)]) (simp add: stored_in_def)
qed

text \<open>A loop over staking transactions that are stored when it starts.\<close>

lemma progress_for_stored:
  assumes "\<And>x s. x \<in> set xs \<Longrightarrow> (db_ok si s \<Longrightarrow> stored_in si s (fst x)) \<Longrightarrow> progress si C s (snd (body x s))"
    and "\<And>x. x \<in> set xs \<Longrightarrow> db_ok si s \<Longrightarrow> stored_in si s (fst x)" and "db_ok si s"
  shows "progress si C s (snd (for_each xs body s))"
  using assms
proof (induction xs arbitrary: s)
  case Nil
  show ?case by (intro progress.run_at progress.run_for_each) simp
next
  case (Cons x xs)
  have body: "progress si C s (snd (body x s))" using Cons.prems by simp
  have rest: "progress si C s' (snd (for_each xs body s'))" if "body x s = (Inr y, s')" for y s'
  proof -
    from that body have "progress si C s s'" by simp
    with Cons.prems show ?thesis
      by (intro Cons.IH) (simp_all add: progress_ok stored_in_progress [of s _ C s'])
  qed
  show ?case
    unfolding for_each.simps by (rule progress.bind_at) (fact body, rule rest)
qed

lemma progress_not_ok: "\<not> db_ok si s \<Longrightarrow> progress si C s s'"
  by (simp add: progress_def)

text \<open>The handlers of what one transaction spends, from the look-up on.\<close>

lemma progress_spending_loop:
  assumes "TxIn tx \<noteq> []" and "tx \<in> C" and "getSpentStakingTxs si tx (db s) = (stakingTxs, is)"
  shows "progress si C s (snd (for_each (zip stakingTxs is)
    (\<lambda>(stakingTx, i). handleSpendingStakingTransaction si tx stakingTx i h ts) s))"
proof (cases "db_ok si s")
  case True
  with assms(1,2) getSpentStakingTxs_stored [OF True _ assms(3)] show ?thesis
    by (intro progress_for_stored) (auto intro!: progress_handle_spending_staking)
qed (rule progress_not_ok)

lemma progress_confirmed_tx:
  assumes "TxIn tx \<noteq> []" and "tx \<in> C"
    and "GetVersionedGlobalParamsByHeight si (u64_of_i32 (Height b)) = Some params"
  shows "progress si C s (snd (confirmed_tx si params b tx s))"
  unfolding confirmed_tx_def Let_def
proof (rule progress.bind_at, goal_cases)
  case 1
  show ?case
    using assms
    by (intro progress.run_at) (auto split: sum.split intro!: run_effects run_process_staking)
next
  case (2 _ s1)
  show ?case
    using progress_spending_loop [OF assms(1,2)]
    by (intro progress.bind_at)
      (auto simp: gets_def progress.R_refl intro!: progress.bind_at,
        (rule progress.run_at, auto intro!: run_effects run_handleSpendingUnbondingTransaction)+)
qed

lemma run_SaveLastProcessedHeight:
  "run_in (progress si C) (store_write (SaveLastProcessedHeight (store si) h))"
  using progress_write [of "SaveHeight h"] by (simp add: run_in_def)

lemma run_finish_block: "run_in (progress si C) (finish_block si b)"
  unfolding finish_block_def Let_def
  by (auto intro!: run_effects run_SaveLastProcessedHeight)

lemma run_HandleConfirmedBlock:
  assumes "block_ok C b"
  shows "run_in (progress si C) (HandleConfirmedBlock si b)"
proof (cases "GetVersionedGlobalParamsByHeight si (u64_of_i32 (Height b))")
  case None
  then show ?thesis
    by (simp add: run_in_def HandleConfirmedBlock_def getVersionedParams_def bind_eq lift_def
        progress.R_refl)
next
  case (Some params)
  have "run_in (progress si C) (confirmed_tx si params b (MsgTx_of tx))" if "tx \<in> set (Txs b)" for tx
    using assms that progress_confirmed_tx [OF _ _ Some] by (simp add: run_in_def block_ok_def)
  then show ?thesis
    unfolding HandleConfirmedBlock_params [OF Some] by (intro run_effects run_finish_block)
qed

lemma run_handle_update:
  assumes "\<forall>b\<in>set (ConfirmedBlocks update). block_ok C b"
  shows "run_in (progress si C) (handle_update si update)"
  unfolding handle_update_def
  using assms by (intro run_effects run_HandleConfirmedBlock run_processUnconfirmedInfo) blast

end

section \<open>Reachable states\<close>

text \<open>
  The states the indexer can be in: opened on an empty database; after an update, whatever
  its outcome, also when it ended the process; opened again on the database left behind. The
  queue is the sequence of all events pushed so far, over restarts.
\<close>

definition zero_metrics :: metrics where
  "zero_metrics =
     \<lparr>startBtcHeight = 0, lastProcessedBtcHeight = 0, lastCalculatedTvl = 0,
      lastFoundStakingTxHeight = 0, lastFoundUnbondingTxHeight = 0,
      lastFoundWithdrawTxFromStakingHeight = 0, lastFoundWithdrawTxFromUnbondingHeight = 0,
      totalStakingTxs = (\<lambda>_. 0), totalUnbondingTxs = 0, totalWithdrawTxsFromStaking = 0,
      totalWithdrawTxsFromUnbonding = 0, failedProcessingStakingTxsCounter = 0,
      failedProcessingUnconfirmedBlockCounter = 0, invalidTransactionsCounter = (\<lambda>_. 0),
      failedVerifyingUnbondingTxsCounter = 0, failedProcessingUnbondingTxsCounter = 0,
      failedProcessingWithdrawTxsFromStakingCounter = 0,
      failedProcessingWithdrawTxsFromUnbondingCounter = 0\<rparr>"

inductive reachable :: "'db StakingIndexer \<Rightarrow> MsgTx set \<Rightarrow> 'db state \<Rightarrow> bool" for si C where
  opened: "fresh_db (store si) d \<Longrightarrow> NewIndexerStore (store si) d = (d', None) \<Longrightarrow>
    reachable si C \<lparr>db = d', queue = [], meters = zero_metrics\<rparr>"
| updated: "reachable si C s \<Longrightarrow> \<forall>b\<in>set (ConfirmedBlocks update). block_ok C b \<Longrightarrow>
    handle_update si update s = (r, s') \<Longrightarrow> reachable si C s'"
| reopened: "reachable si C s \<Longrightarrow> NewIndexerStore (store si) (db s) = (d', None) \<Longrightarrow>
    reachable si C (s\<lparr>db := d', meters := zero_metrics\<rparr>)"

context indexer_env
begin

lemma index_ok_opened:
  assumes "fresh_db (store si) d" and "NewIndexerStore (store si) d = (d', None)"
  shows "index_ok si C \<lparr>db = d', queue = [], meters = zero_metrics\<rparr>"
proof -
  note f = fresh_db_ledger [OF assms(1)]
  have "ledger_wf (ledger_of (store si) d)" by (simp add: f(2))
  note o = store_ok_NewIndexerStore [OF assms(2) f(1) this]
  have "ledger_of (store si) d' = empty_ledger" using o(2) f(2) by simp
  with o(1) show ?thesis
    by (simp add: index_ok_def db_ok_def ledger_at_def del: ledger_of_sel) (simp add: empty_ledger_def)
qed

lemma index_ok_reopened:
  assumes "index_ok si C s" and "NewIndexerStore (store si) (db s) = (d', None)"
  shows "index_ok si C (s\<lparr>db := d', meters := m\<rparr>)"
proof -
  have ok: "contents_ok (store si) (db s)" "ledger_wf (ledger_of (store si) (db s))"
    using assms(1) by (simp_all add: index_ok_def db_ok_def store_ok_def)
  from store_ok_NewIndexerStore [OF assms(2) ok] assms(1) show ?thesis
    by (simp add: index_ok_def db_ok_def ledger_at_def)
qed

lemma reachable_index_ok: "reachable si C s \<Longrightarrow> index_ok si C s"
proof (induction rule: reachable.induct)
  case (opened d d')
  then show ?case by (rule index_ok_opened)
next
  case (updated s update r s')
  then show ?case
    using progress_index_ok run_inD [OF run_handle_update] by blast
next
  case (reopened s d')
  then show ?case by (intro index_ok_reopened)
qed

end

section \<open>Chains without double spends\<close>

text \<open>
  No two transactions of the chain spend the same output of one of its transactions. (The
  inputs of coinbase transactions name no transaction.)
\<close>

definition no_double_spend :: "'db backend \<Rightarrow> MsgTx set \<Rightarrow> bool" where
  "no_double_spend B C \<longleftrightarrow>
     (\<forall>t\<in>C. \<forall>t'\<in>C. \<forall>i\<in>set (TxIn t). \<forall>i'\<in>set (TxIn t').
        PreviousOutPoint i = PreviousOutPoint i' \<and> Hash (PreviousOutPoint i) \<in> TxHash B ` C \<longrightarrow> t = t')"

lemma no_double_spendD:
  assumes "no_double_spend B C" and "t \<in> C" and "t' \<in> C" and "i \<in> set (TxIn t)" and "i' \<in> set (TxIn t')"
    and "PreviousOutPoint i = PreviousOutPoint i'" and "Hash (PreviousOutPoint i) \<in> TxHash B ` C"
  shows "t = t'"
  using assms unfolding no_double_spend_def by blast

text \<open>A staking transaction has one valid spender.\<close>

lemma index_ok_unbonder:
  assumes ok: "index_ok si C s" and chain: "no_double_spend (store si) C"
    and u: "unbonding (ledger_at si s) h = Some u" and p: "staking (ledger_at si s) (pu_StakingTxHash u) = Some p"
    and st: "protoStakingTxToStoredStakingTx (store si) p = Inr st"
    and tx: "tx \<in> C" "IsValidUnbondingTx si tx st par = Inr True"
  shows "h = TxHash (store si) tx"
proof -
  have "unbonding_valid si C (ledger_at si s) h u" using ok u by (simp add: index_ok_def)
  with p st obtain par' tx' where
    tx': "tx' \<in> C" "IsValidUnbondingTx si tx' st par' = Inr True" "h = TxHash (store si) tx'"
    by (auto simp: unbonding_valid_def)
  have "staking_decodes (store si) (pu_StakingTxHash u) p"
    using ok p store_ok_decodes(1) [of "store si" "db s"]
    by (simp add: index_ok_def db_ok_def ledger_at_def)
  then have hash: "TxHash (store si) (Tx st) = pu_StakingTxHash u"
    using st by (auto simp: staking_decodes_def)
  have "stake_valid si C (pu_StakingTxHash u) p"
    using ok p by (simp add: index_ok_def)
  then have "pu_StakingTxHash u \<in> TxHash (store si) ` C"
    by (auto simp: stake_valid_def)
  with IsValidUnbondingTx_spends [OF tx(2)] IsValidUnbondingTx_spends [OF tx'(2)] hash
  have "tx = tx'"
    by (intro no_double_spendD [OF chain tx(1) tx'(1), of "hd (TxIn tx)" "hd (TxIn tx')"]) auto
  with tx'(3) show ?thesis by simp
qed

lemma index_ok_single_unbonding:
  assumes ok: "index_ok si C s" and chain: "no_double_spend (store si) C"
  shows "single_unbonding (ledger_at si s)"
  unfolding single_unbonding_def
proof (intro allI impI)
  fix h h' u u'
  assume u: "unbonding (ledger_at si s) h = Some u" and u': "unbonding (ledger_at si s) h' = Some u'"
    and eq: "pu_StakingTxHash u = pu_StakingTxHash u'"
  have "unbonding_valid si C (ledger_at si s) h u" using ok u by (simp add: index_ok_def)
  then obtain p st par tx where
    p: "staking (ledger_at si s) (pu_StakingTxHash u) = Some p" "protoStakingTxToStoredStakingTx (store si) p = Inr st"
    and tx: "tx \<in> C" "IsValidUnbondingTx si tx st par = Inr True" "h = TxHash (store si) tx"
    by (auto simp: unbonding_valid_def)
  with index_ok_unbonder [OF ok chain u' _ p(2) tx(1,2)] eq show "h = h'" by simp
qed

end
