(* ===== verification/Sample_Env.thy ===== *)
theory Sample_Env
  imports Indexer_Invariants
begin

text \<open>
  A concrete environment: byte codecs for transactions and messages, a key-value database
  that is a map of maps, and a staking library for transactions that pay their first output and
  carry their data in a second one.
  It shows that the assumptions of \<open>store_backend\<close> can be met, and the examples of the
  development are evaluated in it.
\<close>

section \<open>Codecs\<close>

text \<open>A codec: decoding takes the encoding off the front of the input.\<close>

locale codec =
  fixes put :: "'a \<Rightarrow> bytes" and get :: "bytes \<Rightarrow> 'a \<times> bytes"
  assumes get_put: "get (put x @ rest) = (x, rest)"
begin

lemma get_put_fst: "fst (get (put x)) = x"
  using get_put [of x "[]"] by simp

end

definition put_nat :: "nat \<Rightarrow> bytes" where
  "put_nat n = replicate n 1 @ [0]"

definition get_nat :: "bytes \<Rightarrow> nat \<times> bytes" where
  "get_nat bs = (let n = length (takeWhile (\<lambda>b. b = 1) bs) in (n, drop (Suc n) bs))"

definition put_u64 :: "u64 \<Rightarrow> bytes" where
  "put_u64 = BigEndian_PutUint64"

definition get_u64 :: "bytes \<Rightarrow> u64 \<times> bytes" where
  "get_u64 bs = (BigEndian_Uint64 (take 8 bs), drop 8 bs)"

definition put_u32 :: "u32 \<Rightarrow> bytes" where
  "put_u32 v = put_u64 (ucast v)"

definition get_u32 :: "bytes \<Rightarrow> u32 \<times> bytes" where
  "get_u32 bs = map_prod ucast id (get_u64 bs)"

fun get_times :: "(bytes \<Rightarrow> 'a \<times> bytes) \<Rightarrow> nat \<Rightarrow> bytes \<Rightarrow> 'a list \<times> bytes" where
  "get_times get 0 bs = ([], bs)"
| "get_times get (Suc n) bs =
     (let (x, bs) = get bs; (xs, bs) = get_times get n bs in (x # xs, bs))"

definition put_list :: "('a \<Rightarrow> bytes) \<Rightarrow> 'a list \<Rightarrow> bytes" where
  "put_list put xs = put_nat (length xs) @ concat (map put xs)"

definition get_list :: "(bytes \<Rightarrow> 'a \<times> bytes) \<Rightarrow> bytes \<Rightarrow> 'a list \<times> bytes" where
  "get_list get bs = (let (n, bs) = get_nat bs in get_times get n bs)"

definition put_byte :: "u8 \<Rightarrow> bytes" where
  "put_byte b = [b]"

definition get_byte :: "bytes \<Rightarrow> u8 \<times> bytes" where
  "get_byte bs = (hd bs, tl bs)"

abbreviation put_bytes :: "bytes \<Rightarrow> bytes" where
  "put_bytes \<equiv> put_list put_byte"

abbreviation get_bytes :: "bytes \<Rightarrow> bytes \<times> bytes" where
  "get_bytes \<equiv> get_list get_byte"

interpretation nat_codec: codec put_nat get_nat
proof
  fix n :: nat and rest :: bytes
  have "takeWhile (\<lambda>b. b = 1) (replicate n 1 @ 0 # rest) = replicate n (1 :: u8)"
    by (induction n) simp_all
  then show "get_nat (put_nat n @ rest) = (n, rest)"
    by (simp add: get_nat_def put_nat_def)
qed

interpretation u64_codec: codec put_u64 get_u64
  by unfold_locales (simp add: put_u64_def get_u64_def)

interpretation u32_codec: codec put_u32 get_u32
proof
  fix x :: u32 and rest
  have "(ucast (ucast x :: u64) :: u32) = x"
    by (rule bit_word_eqI) (auto simp: bit_simps)
  then show "get_u32 (put_u32 x @ rest) = (x, rest)"
    by (simp add: put_u32_def get_u32_def u64_codec.get_put)
qed

interpretation byte_codec: codec put_byte get_byte
  by unfold_locales (simp add: put_byte_def get_byte_def)

lemma codec_list:
  assumes "codec put get"
  shows "codec (put_list put) (get_list get)"
proof
  fix xs rest
  have "get_times get (length xs) (concat (map put xs) @ rest) = (xs, rest)"
    by (induction xs) (simp_all add: codec.get_put [OF assms])
  then show "get_list get (put_list put xs @ rest) = (xs, rest)"
    by (simp add: put_list_def get_list_def nat_codec.get_put)
qed

interpretation bytes_codec: codec put_bytes get_bytes
  by (rule codec_list) (rule byte_codec.codec_axioms)

text \<open>Transactions.\<close>

definition put_TxIn :: "TxIn \<Rightarrow> bytes" where
  "put_TxIn i = put_bytes (Hash (PreviousOutPoint i)) @ put_u32 (Index (PreviousOutPoint i)) @
     put_bytes (SignatureScript i) @ put_list put_bytes (Witness i) @ put_u32 (Sequence i)"

definition get_TxIn :: "bytes \<Rightarrow> TxIn \<times> bytes" where
  "get_TxIn bs =
     (let (h, bs) = get_bytes bs; (ix, bs) = get_u32 bs; (sig, bs) = get_bytes bs;
          (wit, bs) = get_list get_bytes bs; (sq, bs) = get_u32 bs in
      (\<lparr>PreviousOutPoint = \<lparr>Hash = h, Index = ix\<rparr>, SignatureScript = sig, Witness = wit,
        Sequence = sq\<rparr>, bs))"

definition put_TxOut :: "TxOut \<Rightarrow> bytes" where
  "put_TxOut out = put_u64 (Value out) @ put_bytes (PkScript out)"

definition get_TxOut :: "bytes \<Rightarrow> TxOut \<times> bytes" where
  "get_TxOut bs =
     (let (v, bs) = get_u64 bs; (script, bs) = get_bytes bs in
      (\<lparr>Value = v, PkScript = script\<rparr>, bs))"

definition put_MsgTx :: "MsgTx \<Rightarrow> bytes" where
  "put_MsgTx tx = put_u32 (tx_Version tx) @ put_list put_TxIn (TxIn tx) @
     put_list put_TxOut (TxOut tx) @ put_u32 (LockTime tx)"

definition get_MsgTx :: "bytes \<Rightarrow> MsgTx \<times> bytes" where
  "get_MsgTx bs =
     (let (v, bs) = get_u32 bs; (ins, bs) = get_list get_TxIn bs;
          (outs, bs) = get_list get_TxOut bs; (lock, bs) = get_u32 bs in
      (\<lparr>tx_Version = v, TxIn = ins, TxOut = outs, LockTime = lock\<rparr>, bs))"

interpretation witness_codec: codec "put_list put_bytes" "get_list get_bytes"
  by (rule codec_list) (rule bytes_codec.codec_axioms)

interpretation TxIn_codec: codec put_TxIn get_TxIn
  by unfold_locales
    (simp add: put_TxIn_def get_TxIn_def u32_codec.get_put bytes_codec.get_put witness_codec.get_put)

interpretation TxOut_codec: codec put_TxOut get_TxOut
  by unfold_locales (simp add: put_TxOut_def get_TxOut_def u64_codec.get_put bytes_codec.get_put)

interpretation TxIns_codec: codec "put_list put_TxIn" "get_list get_TxIn"
  by (rule codec_list) (rule TxIn_codec.codec_axioms)

interpretation TxOuts_codec: codec "put_list put_TxOut" "get_list get_TxOut"
  by (rule codec_list) (rule TxOut_codec.codec_axioms)

interpretation MsgTx_codec: codec put_MsgTx get_MsgTx
  by unfold_locales
    (simp add: put_MsgTx_def get_MsgTx_def u32_codec.get_put TxIns_codec.get_put TxOuts_codec.get_put)

text \<open>The messages of the store.\<close>

definition put_bool :: "bool \<Rightarrow> bytes" where
  "put_bool b = [if b then 1 else 0]"

definition get_bool :: "bytes \<Rightarrow> bool \<times> bytes" where
  "get_bool bs = (hd bs = 1, tl bs)"

definition put_StakingTransaction :: "StakingTransaction \<Rightarrow> bytes" where
  "put_StakingTransaction p = put_bytes (p_TransactionBytes p) @ put_u32 (p_StakingOutputIdx p) @
     put_u64 (p_InclusionHeight p) @ put_bytes (p_StakerPk p) @ put_bytes (p_FinalityProviderPk p) @
     put_u32 (p_StakingTime p) @ put_bool (p_IsOverflow p) @ put_u64 (p_StakingValue p)"

definition get_StakingTransaction :: "bytes \<Rightarrow> StakingTransaction \<times> bytes" where
  "get_StakingTransaction bs =
     (let (tx, bs) = get_bytes bs; (ix, bs) = get_u32 bs; (hgt, bs) = get_u64 bs;
          (sk, bs) = get_bytes bs; (fk, bs) = get_bytes bs; (time, bs) = get_u32 bs;
          (ov, bs) = get_bool bs; (v, bs) = get_u64 bs in
      (\<lparr>p_TransactionBytes = tx, p_StakingOutputIdx = ix, p_InclusionHeight = hgt, p_StakerPk = sk,
        p_FinalityProviderPk = fk, p_StakingTime = time, p_IsOverflow = ov, p_StakingValue = v\<rparr>, bs))"

definition put_UnbondingTransaction :: "UnbondingTransaction \<Rightarrow> bytes" where
  "put_UnbondingTransaction u = put_bytes (pu_TransactionBytes u) @ put_bytes (pu_StakingTxHash u)"

definition get_UnbondingTransaction :: "bytes \<Rightarrow> UnbondingTransaction \<times> bytes" where
  "get_UnbondingTransaction bs =
     (let (tx, bs) = get_bytes bs; (h, bs) = get_bytes bs in
      (\<lparr>pu_TransactionBytes = tx, pu_StakingTxHash = h\<rparr>, bs))"

interpretation bool_codec: codec put_bool get_bool
  by unfold_locales (simp add: put_bool_def get_bool_def)

interpretation StakingTransaction_codec: codec put_StakingTransaction get_StakingTransaction
  by unfold_locales
    (simp add: put_StakingTransaction_def get_StakingTransaction_def u32_codec.get_put
      u64_codec.get_put bytes_codec.get_put bool_codec.get_put)

interpretation UnbondingTransaction_codec: codec put_UnbondingTransaction get_UnbondingTransaction
  by unfold_locales
    (simp add: put_UnbondingTransaction_def get_UnbondingTransaction_def bytes_codec.get_put)

section \<open>The database\<close>

record mem_db =
  m_buckets :: "bytes \<Rightarrow> bool"
  m_contents :: "bytes \<Rightarrow> bytes \<Rightarrow> bytes option"

definition empty_db :: mem_db where
  "empty_db = \<lparr>m_buckets = (\<lambda>_. False), m_contents = (\<lambda>_ _. None)\<rparr>"

text \<open>A stand-in for the double SHA-256: 32 bytes made of the last bytes of the version and of the sum of the outputs.\<close>

definition sample_TxHash :: "MsgTx \<Rightarrow> hash" where
  "sample_TxHash tx = replicate 30 0 @ [ucast (tx_Version tx), ucast (sum_list (map Value (TxOut tx)))]"

definition sample_backend :: "mem_db backend" where
  "sample_backend =
     \<lparr>TxHash = sample_TxHash,
      Serialize = (\<lambda>tx. Inr (put_MsgTx tx)),
      Deserialize = (\<lambda>bs. Inr (fst (get_MsgTx bs))),
      SerializePubKey = (\<lambda>pk. put_nat pk),
      ParsePubKey = (\<lambda>bs. Inr (fst (get_nat bs))),
      NewHash = (\<lambda>bs. if length bs = 32 then Inr bs else Inl ''invalid hash length''),
      MarshalStaking = (\<lambda>p. Inr (put_StakingTransaction p)),
      UnmarshalStaking = (\<lambda>bs. Inr (fst (get_StakingTransaction bs))),
      MarshalUnbonding = (\<lambda>u. Inr (put_UnbondingTransaction u)),
      UnmarshalUnbonding = (\<lambda>bs. Inr (fst (get_UnbondingTransaction bs))),
      HasBucket = m_buckets,
      Get = m_contents,
      Put = (\<lambda>d b k v. if \<not> m_buckets d b then Inl ''no bucket''
               else Inr (d\<lparr>m_contents := (m_contents d)(b := (m_contents d b)(k \<mapsto> v))\<rparr>)),
      CreateTopLevelBucket = (\<lambda>d b. Inr (d\<lparr>m_buckets := (m_buckets d)(b := True)\<rparr>)),
      Batch = (\<lambda>f d. case f d of Inl e \<Rightarrow> (d, Some e) | Inr d' \<Rightarrow> (d', None)),
      BeginRead = (\<lambda>_. None)\<rparr>"

lemma length_sample_TxHash: "length (sample_TxHash tx) = 32"
  by (simp add: sample_TxHash_def)

interpretation sample: store_backend sample_backend
  by unfold_locales
    (auto simp: sample_backend_def length_sample_TxHash MsgTx_codec.get_put_fst
      nat_codec.get_put_fst StakingTransaction_codec.get_put_fst
      UnbondingTransaction_codec.get_put_fst split: if_splits)

section \<open>The indexer and a few transactions\<close>

definition sample_params :: ParsedVersionedGlobalParams where
  "sample_params =
     \<lparr>params_Version = 0, StakingCap = 5000, CapHeight = 0, ActivationHeight = 100, Tag = [1, 2, 3, 4],
      CovenantPks = [7, 8, 9], CovenantQuorum = 2, UnbondingTime = 10, UnbondingFee = 100,
      MaxStakingAmount = 3000, MinStakingAmount = 500, MaxStakingTime = 1000, MinStakingTime = 50,
      ConfirmationDepth = 6\<rparr>"

definition sample_lib :: btcstaking where
  "sample_lib =
     \<lparr>IsTransferTx = (\<lambda>tx. if length (TxIn tx) = 1 \<and> length (TxOut tx) = 1 then None
         else Some ''transfer tx must have one input and one output''),
      IsPossibleV0StakingTx = (\<lambda>tx tag. tx_Version tx = 2),
      ParseV0StakingTx = (\<lambda>tx tag pks quorum net.
        if length (TxOut tx) < 2 then Inl ''staking tx must have at least two outputs''
        else Inr \<lparr>StakingOutput = hd (TxOut tx), parsed_StakingOutputIdx = 0,
               OpReturnData = \<lparr>StakerPublicKey = 1, FinalityProviderPublicKey = 2,
                 op_StakingTime = 100\<rparr>\<rparr>),
      BuildStakingInfo = (\<lambda>pk fps cov quorum time amount net.
        Inr \<lparr>TimeLockPathSpendInfo = Inr \<lparr>GetPkScriptPath = [1]\<rparr>,
             UnbondingPathSpendInfo = Inr \<lparr>GetPkScriptPath = [2]\<rparr>\<rparr>),
      BuildUnbondingInfo = (\<lambda>pk fps cov quorum time amount net.
        Inr \<lparr>UnbondingOutput = \<lparr>Value = amount, PkScript = [3]\<rparr>,
             unbonding_TimeLockPathSpendInfo = Inr \<lparr>GetPkScriptPath = [4]\<rparr>\<rparr>)\<rparr>"

definition sample_si :: "mem_db StakingIndexer" where
  "sample_si =
     \<lparr>store = sample_backend, lib = sample_lib, hash_String = hex_EncodeToString,
      consumer = (\<lambda>_ _. None), Versions = [sample_params],
      GetVersionedGlobalParamsByHeight = (\<lambda>h. if h < 100 then None else Some sample_params),
      ExtraEventEnabled = True, BTCNetParams = ''regtest''\<rparr>"

text \<open>A staking transaction of 1000 satoshi, the transaction that unbonds it, and the one that
  withdraws from the unbonding.\<close>

definition sample_stake :: MsgTx where
  "sample_stake =
     \<lparr>tx_Version = 2,
      TxIn = [\<lparr>PreviousOutPoint = \<lparr>Hash = replicate 32 9, Index = 0\<rparr>, SignatureScript = [],
               Witness = [], Sequence = 0\<rparr>],
      TxOut = [\<lparr>Value = 1000, PkScript = [5]\<rparr>, \<lparr>Value = 0, PkScript = [106]\<rparr>], LockTime = 0\<rparr>"

definition sample_unbond :: MsgTx where
  "sample_unbond =
     \<lparr>tx_Version = 1,
      TxIn = [\<lparr>PreviousOutPoint = \<lparr>Hash = sample_TxHash sample_stake, Index = 0\<rparr>, SignatureScript = [],
               Witness = [[6], [2], [7]], Sequence = MaxTxInSequenceNum\<rparr>],
      TxOut = [\<lparr>Value = 900, PkScript = [3]\<rparr>], LockTime = 0\<rparr>"

definition sample_withdraw :: MsgTx where
  "sample_withdraw =
     \<lparr>tx_Version = 1,
      TxIn = [\<lparr>PreviousOutPoint = \<lparr>Hash = sample_TxHash sample_unbond, Index = 0\<rparr>, SignatureScript = [],
               Witness = [[6], [4], [7]], Sequence = 10\<rparr>],
      TxOut = [\<lparr>Value = 850, PkScript = [8]\<rparr>], LockTime = 0\<rparr>"

definition sample_header :: BlockHeader where
  "sample_header =
     \<lparr>h_Version = 1, PrevBlock = replicate 32 0, MerkleRoot = replicate 32 0, Timestamp = 77,
      Bits = 0, Nonce = 0\<rparr>"

definition sample_block :: "i32 \<Rightarrow> MsgTx list \<Rightarrow> IndexedBlock" where
  "sample_block h txs =
     NewIndexedBlockFromMsgBlock h \<lparr>Header_of = sample_header, Transactions = txs\<rparr>"

definition sample_chain :: "MsgTx set" where
  "sample_chain = {sample_stake, sample_unbond, sample_withdraw}"

definition sample_start :: "mem_db state" where
  "sample_start =
     \<lparr>db = fst (NewIndexerStore sample_backend empty_db), queue = [], meters = zero_metrics\<rparr>"

section \<open>A reachable state\<close>

definition sample_update :: ChainUpdateInfo where
  "sample_update =
     \<lparr>ConfirmedBlocks = [sample_block 100 [sample_stake]],
      UnconfirmedBlocks = [sample_block 101 [sample_unbond]]\<rparr>"

definition sample_state :: "mem_db state" where
  "sample_state = snd (handle_update sample_si sample_update sample_start)"

lemma store_sample_si [simp]: "store sample_si = sample_backend"
  by (simp add: sample_si_def)

lemma sample_reads [simp]: "BeginRead sample_backend d = None"
  by (simp add: sample_backend_def)

lemma block_ok_sample_block:
  "set txs \<subseteq> sample_chain \<Longrightarrow> block_ok sample_chain (sample_block h txs)"
  by (auto simp: block_ok_def sample_block_def NewIndexedBlockFromMsgBlock_def GetWrappedTxs_def
      sample_chain_def sample_stake_def sample_unbond_def sample_withdraw_def dest!: nth_mem)

lemma reachable_sample_start: "reachable sample_si C sample_start"
proof -
  have "fresh_db sample_backend empty_db"
    by (simp add: fresh_db_def sample_backend_def empty_db_def)
  moreover have "NewIndexerStore sample_backend empty_db =
      (fst (NewIndexerStore sample_backend empty_db), None)"
    by (simp add: NewIndexerStore_def initBuckets_def sample_backend_def)
  ultimately show ?thesis
    unfolding sample_start_def
    by (intro reachable.opened [of _ empty_db, unfolded store_sample_si]) simp_all
qed

lemma reachable_sample_state: "reachable sample_si sample_chain sample_state"
proof (rule reachable.updated [OF reachable_sample_start])
  show "handle_update sample_si sample_update sample_start =
      (fst (handle_update sample_si sample_update sample_start), sample_state)"
    by (simp add: sample_state_def)
  show "\<forall>b\<in>set (ConfirmedBlocks sample_update). block_ok sample_chain b"
    by (auto simp: sample_update_def sample_chain_def [symmetric] intro!: block_ok_sample_block)
      (simp add: sample_chain_def)
qed

lemma TxIn_sample:
  "i \<in> set (TxIn sample_stake) \<Longrightarrow> Hash (PreviousOutPoint i) = replicate 32 9"
  "i \<in> set (TxIn sample_unbond) \<Longrightarrow> Hash (PreviousOutPoint i) = sample_TxHash sample_stake"
  "i \<in> set (TxIn sample_withdraw) \<Longrightarrow> Hash (PreviousOutPoint i) = sample_TxHash sample_unbond"
  by (auto simp: sample_stake_def sample_unbond_def sample_withdraw_def)

lemma sample_hashes:
  "sample_TxHash sample_stake \<noteq> sample_TxHash sample_unbond"
  "sample_TxHash sample_stake \<noteq> replicate 32 9" "sample_TxHash sample_unbond \<noteq> replicate 32 9"
  by code_simp+

lemma no_double_spend_sample: "no_double_spend sample_backend sample_chain"
  unfolding no_double_spend_def
proof (intro ballI impI, elim conjE)
  fix t t' i i'
  assume t: "t \<in> sample_chain" "t' \<in> sample_chain" "i \<in> set (TxIn t)" "i' \<in> set (TxIn t')"
    and "PreviousOutPoint i = PreviousOutPoint i'"
  then have "Hash (PreviousOutPoint i) = Hash (PreviousOutPoint i')" by simp
  with t show "t = t'"
    using sample_hashes by (auto simp: sample_chain_def TxIn_sample)
qed

text \<open>Evaluated: the staking transaction is stored and counted.\<close>

lemma sample_state_tvl: "GetConfirmedTvl sample_backend (db sample_state) = Inr 1000"
  unfolding sample_state_def by code_simp

end
