(* ===== verification/Store_Correct.thy ===== *)
theory Store_Correct
  imports Sample_Env
begin

text \<open>
  The store: it refines the abstract ledger, what is written is read back, and integers
  survive their encoding. Every theorem is applied to the in-memory database of
  \<open>Sample_Env\<close>.
\<close>

section \<open>Refinement of the ledger\<close>

text \<open>C17: every writing operation of the store does what the ledger operation does or leaves
  the database as it was, with the error that the ledger operation gives or an error of the
  database itself; the database stays well-formed.\<close>

theorem store_refines_ledger:
  assumes "store_backend B" and "store_ok B d" and "admissible_op B op" and "exec_op B op d = (d', r)"
  shows "store_ok B d' \<and>
    (case r of
       None \<Rightarrow> apply_op op (ledger_of B d) = Inr (ledger_of B d')
     | Some e \<Rightarrow> d' = d \<and> (lib_failure e \<or> (\<exists>se. e = StoreErr se \<and> apply_op op (ledger_of B d) = Inl se)))"
proof (cases r)
  case None
  with store_backend.exec_op_done [OF assms(1-3)] assms(4) show ?thesis by simp
next
  case (Some e)
  with store_backend.exec_op_refused [OF assms(1-3)] assms(2,4) show ?thesis by auto
qed

text \<open>\<open>uint64FromBytes\<close> reads exactly the encodings that \<open>uint64ToBytes\<close> writes, and gives
  back the number.\<close>

lemma uint64_bytes_roundtrip: "uint64FromBytes b = Inr v \<longleftrightarrow> b = uint64ToBytes v"
  by (auto simp: uint64FromBytes_def uint64ToBytes_def split: if_splits)

section \<open>What is written is read back\<close>

text \<open>C25: a staking transaction that was added is found under its hash, with every field as it
  was given; keys are found up to their serialisation, which drops the parity.\<close>

theorem AddStakingTransaction_Get:
  assumes B: "store_backend B" and ok: "store_ok B d" and ins: "TxIn tx \<noteq> []"
    and run: "AddStakingTransaction B tx idx h sk time fk val overflow d = (d', None)"
    and reads: "BeginRead B d' = None"
  shows "\<exists>st. GetStakingTransaction B (TxHash B tx) d' = Inr (Some st) \<and> Tx st = tx \<and>
    StakingOutputIdx st = idx \<and> InclusionHeight st = h \<and> StakingTime st = time \<and>
    StakingValue st = val \<and> IsOverflow st = overflow \<and>
    SerializePubKey B (StakerPk st) = SerializePubKey B sk \<and>
    SerializePubKey B (FinalityProviderPk st) = SerializePubKey B fk"
proof -
  from run obtain ser where ser: "Serialize B tx = Inr ser"
    by (auto simp: AddStakingTransaction_def SerializeBtcTransaction_def lib_result_def split: sum.splits)
  define p where "p = \<lparr>p_TransactionBytes = ser, p_StakingOutputIdx = idx, p_InclusionHeight = h,
    p_StakerPk = SerializePubKey B sk, p_FinalityProviderPk = SerializePubKey B fk,
    p_StakingTime = time, p_IsOverflow = overflow, p_StakingValue = val\<rparr>"
  have exec: "exec_op B (AddStaking (TxHash B tx) p) d = (d', None)"
    using run ser by (simp add: AddStakingTransaction_def SerializeBtcTransaction_def lib_result_def p_def)
  obtain st where st: "protoStakingTxToStoredStakingTx B p = Inr st" "Tx st = tx"
      "SerializePubKey B (StakerPk st) = SerializePubKey B sk"
      "SerializePubKey B (FinalityProviderPk st) = SerializePubKey B fk"
      "StakingOutputIdx st = idx" "InclusionHeight st = h" "StakingTime st = time"
      "IsOverflow st = overflow" "StakingValue st = val" "staking_decodes B (TxHash B tx) p"
    by (rule store_backend.staking_msg_decodes [OF B ser ins, of p sk fk]) (simp_all add: p_def)
  have adm: "admissible_op B (AddStaking (TxHash B tx) p)" using st(10) by simp
  note applied = store_backend.exec_op_done [OF B ok adm exec]
  then have "staking (ledger_of B d') (TxHash B tx) = Some p"
    using apply_staking_maps(2) [of "TxHash B tx" p "ledger_of B d" "ledger_of B d'"]
    by (simp del: apply_op.simps ledger_of_sel)
  from store_backend.GetStakingTransaction_Some [OF B _ reads this] applied
  obtain st' where "GetStakingTransaction B (TxHash B tx) d' = Inr (Some st')"
    "protoStakingTxToStoredStakingTx B p = Inr st'" by blast
  with st show ?thesis by auto
qed

text \<open>C26: an unbonding transaction that was added is found under its hash, with the hash of the
  staking transaction it unbonds, and it was added only because that one is stored.\<close>

theorem AddUnbondingTransaction_Get:
  assumes B: "store_backend B" and ok: "store_ok B d" and ins: "TxIn tx \<noteq> []" and len: "length sh = 32"
    and run: "AddUnbondingTransaction B tx sh d = (d', None)" and reads: "BeginRead B d' = None"
  shows "GetUnbondingTransaction B (TxHash B tx) d' = Inr (Some \<lparr>unbonding_Tx = tx, StakingTxHash = sh\<rparr>) \<and>
    staking (ledger_of B d) sh \<noteq> None"
proof -
  from run obtain ser where ser: "Serialize B tx = Inr ser"
    by (auto simp: AddUnbondingTransaction_def SerializeBtcTransaction_def lib_result_def split: sum.splits)
  define u where "u = \<lparr>pu_TransactionBytes = ser, pu_StakingTxHash = sh\<rparr>"
  have exec: "exec_op B (AddUnbonding (TxHash B tx) u) d = (d', None)"
    using run ser by (simp add: AddUnbondingTransaction_def SerializeBtcTransaction_def lib_result_def u_def)
  note dec = store_backend.unbonding_msg_decodes [OF B ser ins len, folded u_def]
  have adm: "admissible_op B (AddUnbonding (TxHash B tx) u)" using dec(2) by simp
  note applied = store_backend.exec_op_done [OF B ok adm exec]
  then have st: "staking (ledger_of B d) sh \<noteq> None"
    and un: "unbonding (ledger_of B d') (TxHash B tx) = Some u"
    using apply_unbonding_maps [of "TxHash B tx" u "ledger_of B d" "ledger_of B d'"]
    by (auto simp: u_def simp del: apply_op.simps ledger_of_sel)
  from store_backend.GetUnbondingTransaction_Some [OF B _ reads un] applied
  obtain ut where "GetUnbondingTransaction B (TxHash B tx) d' = Inr (Some ut)"
    "protoUnbondingTxToStoredUnbondingTx B u = Inr ut" by blast
  with dec(1) st show ?thesis by simp
qed

text \<open>The height that was saved last is the last processed height.\<close>

lemma SaveLastProcessedHeight_Get:
  assumes B: "store_backend B" and ok: "store_ok B d"
    and run: "SaveLastProcessedHeight B n d = (d', None)" and reads: "BeginRead B d' = None"
  shows "GetLastProcessedHeight B d' = Inr n"
proof -
  have exec: "exec_op B (SaveHeight n) d = (d', None)" using run by simp
  have adm: "admissible_op B (SaveHeight n)" by simp
  note applied = store_backend.exec_op_done [OF B ok adm exec]
  then have "ledger_of B d' = ledger_of B d\<lparr>height := Some n\<rparr>" by simp
  then have "height (ledger_of B d') = Some n" by (simp del: ledger_of_sel)
  with applied show ?thesis
    by (simp add: store_backend.GetLastProcessedHeight_ledger [OF B _ reads] del: ledger_of_sel)
qed

section \<open>Applications to the in-memory database\<close>

lemma store_ok_sample_start: "store_ok sample_backend (db sample_start)"
  using indexer_env.reachable_index_ok [OF indexer_env.intro reachable_sample_start] sample.store_backend_axioms
  by (simp add: index_ok_def db_ok_def)

lemma store_ok_sample_state: "store_ok sample_backend (db sample_state)"
  using indexer_env.reachable_index_ok [OF indexer_env.intro reachable_sample_state] sample.store_backend_axioms
  by (simp add: index_ok_def db_ok_def)

theorem store_refines_ledger_witness:
  "store_ok sample_backend (fst (exec_op sample_backend (SaveHeight 7) (db sample_start))) \<and>
    (case snd (exec_op sample_backend (SaveHeight 7) (db sample_start)) of
       None \<Rightarrow> apply_op (SaveHeight 7) (ledger_of sample_backend (db sample_start)) =
         Inr (ledger_of sample_backend (fst (exec_op sample_backend (SaveHeight 7) (db sample_start))))
     | Some e \<Rightarrow> fst (exec_op sample_backend (SaveHeight 7) (db sample_start)) = db sample_start \<and>
         (lib_failure e \<or> (\<exists>se. e = StoreErr se \<and>
            apply_op (SaveHeight 7) (ledger_of sample_backend (db sample_start)) = Inl se)))"
  by (rule store_refines_ledger [OF sample.store_backend_axioms store_ok_sample_start])
    (simp_all only: admissible_op.simps prod.collapse)

definition sample_added :: mem_db where
  "sample_added = fst (AddStakingTransaction sample_backend sample_stake 0 100 1 10 2 1000 False (db sample_start))"

lemma sample_added_run:
  "AddStakingTransaction sample_backend sample_stake 0 100 1 10 2 1000 False (db sample_start) = (sample_added, None)"
proof -
  have "snd (AddStakingTransaction sample_backend sample_stake 0 100 1 10 2 1000 False (db sample_start)) = None"
    by code_simp
  then show ?thesis by (simp add: sample_added_def prod_eq_iff)
qed

theorem AddStakingTransaction_Get_witness:
  "\<exists>st. GetStakingTransaction sample_backend (TxHash sample_backend sample_stake) sample_added = Inr (Some st) \<and>
    Tx st = sample_stake \<and> StakingOutputIdx st = 0 \<and> InclusionHeight st = 100 \<and> StakingTime st = 10 \<and>
    StakingValue st = 1000 \<and> IsOverflow st = False \<and>
    SerializePubKey sample_backend (StakerPk st) = SerializePubKey sample_backend 1 \<and>
    SerializePubKey sample_backend (FinalityProviderPk st) = SerializePubKey sample_backend 2"
  by (rule AddStakingTransaction_Get [OF sample.store_backend_axioms store_ok_sample_start _ sample_added_run])
    (simp_all add: sample_stake_def)

definition sample_unbonded :: mem_db where
  "sample_unbonded =
     fst (AddUnbondingTransaction sample_backend sample_unbond (TxHash sample_backend sample_stake) (db sample_state))"

lemma sample_unbonded_run:
  "AddUnbondingTransaction sample_backend sample_unbond (TxHash sample_backend sample_stake) (db sample_state) =
    (sample_unbonded, None)"
proof -
  have "snd (AddUnbondingTransaction sample_backend sample_unbond (TxHash sample_backend sample_stake)
      (db sample_state)) = None" by code_simp
  then show ?thesis by (simp add: sample_unbonded_def prod_eq_iff)
qed

theorem AddUnbondingTransaction_Get_witness:
  "GetUnbondingTransaction sample_backend (TxHash sample_backend sample_unbond) sample_unbonded =
      Inr (Some \<lparr>unbonding_Tx = sample_unbond, StakingTxHash = TxHash sample_backend sample_stake\<rparr>) \<and>
    staking (ledger_of sample_backend (db sample_state)) (TxHash sample_backend sample_stake) \<noteq> None"
  by (rule AddUnbondingTransaction_Get [OF sample.store_backend_axioms store_ok_sample_state _
        sample.length_TxHash sample_unbonded_run])
    (simp_all add: sample_unbond_def)

end
