(* ===== verification/Block_Spec.thy ===== *)
theory Block_Spec
  imports Indexer_Invariants
begin

text \<open>
  What a confirmed block does to the ledger, as a sequence of atomic steps: for every
  transaction, in order, the step that stores it as a staking transaction, then one step per
  input that stores it as the unbonding transaction of what the input spends; last the step
  that saves the height. \<open>HandleConfirmedBlock\<close> implements this sequence, and a run that is
  cut off implements a prefix of it. The sequence can be replayed from any prefix, so an
  interrupted block is completed by handling it again.
\<close>

section \<open>Steps\<close>

type_synonym ledger_step = "ledger \<Rightarrow> ledger option"

primrec run_steps :: "ledger_step list \<Rightarrow> ledger_step" where
  "run_steps [] l = Some l"
| "run_steps (f # fs) l = (case f l of None \<Rightarrow> None | Some l' \<Rightarrow> run_steps fs l')"

text \<open>A write that takes a duplicate for done.\<close>

definition add_once :: "store_op \<Rightarrow> ledger_step" where
  "add_once op l =
     (case apply_op op l of
        Inr l' \<Rightarrow> Some l'
      | Inl e \<Rightarrow> if e = ErrDuplicateTransaction then Some l else None)"

definition spec_overflow :: "ParsedVersionedGlobalParams \<Rightarrow> u64 \<Rightarrow> ledger \<Rightarrow> bool" where
  "spec_overflow params h l =
     (if CapHeight params \<noteq> 0 then CapHeight params < h else StakingCap params \<le> current_tvl l)"

definition stake_step ::
    "'db StakingIndexer \<Rightarrow> ParsedVersionedGlobalParams \<Rightarrow> u64 \<Rightarrow> MsgTx \<Rightarrow> ledger_step" where
  "stake_step si params h tx l =
     (case tryParseStakingTx si tx params of
        Inl _ \<Rightarrow> Some l
      | Inr stakingData \<Rightarrow>
          if staking l (TxHash (store si) tx) \<noteq> None \<or> validateStakingTx params stakingData \<noteq> Inr ()
          then Some l
          else case Serialize (store si) tx of
                 Inl _ \<Rightarrow> None
               | Inr ser \<Rightarrow>
                   add_once (AddStaking (TxHash (store si) tx)
                     (staking_msg si stakingData h ser (spec_overflow params h l))) l)"

definition stored_at :: "'db StakingIndexer \<Rightarrow> ledger \<Rightarrow> hash \<Rightarrow> StoredStakingTransaction option" where
  "stored_at si l h =
     (case staking l h of
        None \<Rightarrow> None
      | Some p \<Rightarrow>
        (case protoStakingTxToStoredStakingTx (store si) p of Inl _ \<Rightarrow> None | Inr st \<Rightarrow> Some st))"

definition unbond_stored :: "'db StakingIndexer \<Rightarrow> MsgTx \<Rightarrow> StoredStakingTransaction \<Rightarrow> ledger_step" where
  "unbond_stored si tx stakingTx l =
     (case GetVersionedGlobalParamsByHeight si (InclusionHeight stakingTx) of
        None \<Rightarrow> Some l
      | Some params \<Rightarrow>
          if IsValidUnbondingTx si tx stakingTx params \<noteq> Inr True then Some l
          else case Serialize (store si) tx of
                 Inl _ \<Rightarrow> None
               | Inr ser \<Rightarrow>
                   add_once (AddUnbonding (TxHash (store si) tx)
                     \<lparr>pu_TransactionBytes = ser,
                      pu_StakingTxHash = TxHash (store si) (Tx stakingTx)\<rparr>) l)"

definition unbond_step :: "'db StakingIndexer \<Rightarrow> MsgTx \<Rightarrow> TxIn \<Rightarrow> ledger_step" where
  "unbond_step si tx txIn l =
     (case stored_at si l (Hash (PreviousOutPoint txIn)) of
        None \<Rightarrow> Some l
      | Some stakingTx \<Rightarrow>
          if spends_output txIn stakingTx then unbond_stored si tx stakingTx l else Some l)"

definition tx_steps ::
    "'db StakingIndexer \<Rightarrow> ParsedVersionedGlobalParams \<Rightarrow> u64 \<Rightarrow> MsgTx \<Rightarrow> ledger_step list" where
  "tx_steps si params h tx = stake_step si params h tx # map (unbond_step si tx) (TxIn tx)"

definition save_step :: "u64 \<Rightarrow> ledger_step" where
  "save_step h l = Some (l\<lparr>height := Some h\<rparr>)"

definition block_steps ::
    "'db StakingIndexer \<Rightarrow> ParsedVersionedGlobalParams \<Rightarrow> IndexedBlock \<Rightarrow> ledger_step list" where
  "block_steps si params b =
     (let h = u64_of_i32 (Height b) in
      concat (map (\<lambda>tx. tx_steps si params h (MsgTx_of tx)) (Txs b)) @ [save_step h])"

text \<open>No transaction of a block spends a later one.\<close>

primrec spends_backwards :: "'db backend \<Rightarrow> MsgTx list \<Rightarrow> bool" where
  "spends_backwards B [] \<longleftrightarrow> True"
| "spends_backwards B (tx # txs) \<longleftrightarrow>
     (\<forall>txIn\<in>set (TxIn tx). Hash (PreviousOutPoint txIn) \<notin> TxHash B ` set txs) \<and> spends_backwards B txs"

section \<open>Replay\<close>

lemma run_steps_append:
  "run_steps (fs @ gs) l = (case run_steps fs l of None \<Rightarrow> None | Some l' \<Rightarrow> run_steps gs l')"
  by (induction fs arbitrary: l) (auto split: option.split)

text \<open>A step that stays done whatever prefix of the later steps is made.\<close>

definition stays_done :: "ledger_step \<Rightarrow> ledger_step list \<Rightarrow> bool" where
  "stays_done f gs \<longleftrightarrow>
     (\<forall>l l' n l1. f l = Some l' \<longrightarrow> run_steps (take n gs) l' = Some l1 \<longrightarrow> f l1 = Some l1)"

primrec replayable :: "ledger_step list \<Rightarrow> bool" where
  "replayable [] \<longleftrightarrow> True"
| "replayable (f # fs) \<longleftrightarrow> stays_done f fs \<and> replayable fs"

lemma replayable_fixed:
  "replayable fs \<Longrightarrow> run_steps (take n fs) l = Some l1 \<Longrightarrow> m \<le> n \<Longrightarrow> run_steps (take m fs) l1 = Some l1"
proof (induction fs arbitrary: m n l)
  case Nil
  then show ?case by simp
next
  case (Cons f fs)
  show ?case
  proof (cases m)
    case 0
    then show ?thesis by simp
  next
    case (Suc m')
    then obtain n' where n: "n = Suc n'" "m' \<le> n'" using Cons.prems(3) by (cases n) auto
    with Cons.prems(2) obtain l' where l': "f l = Some l'" "run_steps (take n' fs) l' = Some l1"
      by (auto split: option.splits)
    then have "f l1 = Some l1" using Cons.prems(1) by (auto simp: stays_done_def)
    moreover have "run_steps (take m' fs) l1 = Some l1"
      using Cons.IH [OF _ l'(2) n(2)] Cons.prems(1) by simp
    ultimately show ?thesis by (simp add: Suc)
  qed
qed

text \<open>Steps that are made after some of the first of them have been made before.\<close>

lemma replay_take:
  assumes "replayable fs" and "run_steps (take n fs) l = Some l1" and "n \<le> m"
  shows "run_steps (take m fs) l1 = run_steps (take m fs) l"
proof -
  have "take m fs = take n fs @ drop n (take m fs)"
    using append_take_drop_id [of n "take m fs"] assms(3) by (simp add: min_absorb1)
  with replayable_fixed [OF assms(1,2) le_refl] assms(2) show ?thesis
    by (metis (no_types, lifting) option.simps(5) run_steps_append)
qed

lemma replay_prefix:
  assumes "replayable fs" and "run_steps (take n fs) l = Some l1"
  shows "run_steps fs l1 = run_steps fs l"
  using replay_take [OF assms, of "max n (length fs)"] by simp

text \<open>Some first steps, and then some first steps again, are some first steps.\<close>

lemma replay_prefix_again:
  assumes "replayable fs" and "run_steps (take n fs) l = Some l1" and "run_steps (take m fs) l1 = Some l2"
  shows "\<exists>k. run_steps (take k fs) l = Some l2"
proof (cases "m \<le> n")
  case True
  then have "l2 = l1" using replayable_fixed [OF assms(1,2)] assms(3) by simp
  with assms(2) show ?thesis by blast
next
  case False
  with replay_take [OF assms(1,2), of m] assms(3) show ?thesis by (intro exI [of _ m]) simp
qed

text \<open>The steps of a block only add to the two maps, under the hash of their transaction.\<close>

definition grows_in :: "hash set \<Rightarrow> ledger_step \<Rightarrow> bool" where
  "grows_in H f \<longleftrightarrow>
     (\<forall>l l'. f l = Some l' \<longrightarrow> ledger_le l l' \<and> (\<forall>k. k \<notin> H \<longrightarrow> staking l' k = staking l k))"

lemma add_once_cases:
  assumes "add_once op l = Some l'"
  obtains "apply_op op l = Inr l'" | "apply_op op l = Inl ErrDuplicateTransaction" and "l' = l"
  using assms by (auto simp: add_once_def split: sum.splits if_splits)

lemma add_once_AddStaking:
  assumes "add_once (AddStaking h p) l = Some l'"
  shows "ledger_le l l'" and "k \<noteq> h \<Longrightarrow> staking l' k = staking l k" and "staking l' h \<noteq> None"
  using assms
  by (cases rule: add_once_cases; fastforce dest: apply_op_le apply_staking_maps split: if_splits)+

lemma add_once_AddUnbonding:
  assumes "add_once (AddUnbonding h u) l = Some l'"
  shows "ledger_le l l'" and "staking l' = staking l" and "unbonding l' h \<noteq> None"
    and "staking l' (pu_StakingTxHash u) \<noteq> None"
  using assms
  by (cases rule: add_once_cases;
      fastforce dest: apply_op_le apply_unbonding_maps split: if_splits option.splits)+

lemma unbond_stored_cases:
  assumes "unbond_stored si tx stakingTx l = Some l'"
  obtains "l' = l" | u where "add_once (AddUnbonding (TxHash (store si) tx) u) l = Some l'"
    and "pu_StakingTxHash u = TxHash (store si) (Tx stakingTx)"
proof -
  have "l' = l \<or> (\<exists>ser. add_once (AddUnbonding (TxHash (store si) tx)
      \<lparr>pu_TransactionBytes = ser, pu_StakingTxHash = TxHash (store si) (Tx stakingTx)\<rparr>) l = Some l')"
    using assms by (auto simp: unbond_stored_def split: option.splits if_splits sum.splits)
  with that show ?thesis by fastforce
qed

lemma unbond_stored_keeps:
  assumes "unbond_stored si tx stakingTx l = Some l'"
  shows "ledger_le l l'" and "staking l' = staking l"
  using assms by (cases rule: unbond_stored_cases; auto dest: add_once_AddUnbonding)+

lemma unbond_step_keeps:
  assumes "unbond_step si tx txIn l = Some l'"
  shows "ledger_le l l'" and "staking l' = staking l"
  using assms
  by (auto simp: unbond_step_def dest: unbond_stored_keeps split: option.splits if_splits)

lemma stake_step_keeps:
  assumes "stake_step si params h tx l = Some l'"
  shows "ledger_le l l'" and "k \<noteq> TxHash (store si) tx \<Longrightarrow> staking l' k = staking l k"
  using assms
  by (auto simp: stake_step_def dest: add_once_AddStaking split: sum.splits if_splits)

lemma stake_step_grows: "TxHash (store si) tx \<in> H \<Longrightarrow> grows_in H (stake_step si params h tx)"
  unfolding grows_in_def by (metis stake_step_keeps)

lemma unbond_step_grows: "grows_in H (unbond_step si tx txIn)"
  by (auto simp: grows_in_def dest: unbond_step_keeps)

lemma save_step_grows: "grows_in H (save_step h)"
  by (auto simp: grows_in_def save_step_def ledger_le_def)

lemma run_steps_grow:
  assumes "\<forall>f\<in>set fs. grows_in H f" and "run_steps fs l = Some l'"
  shows "ledger_le l l' \<and> (\<forall>k. k \<notin> H \<longrightarrow> staking l' k = staking l k)"
  using assms
proof (induction fs arbitrary: l)
  case Nil
  then show ?case by simp
next
  case (Cons f fs)
  from Cons.prems(2) obtain l1 where f: "f l = Some l1" and fs: "run_steps fs l1 = Some l'"
    by (auto split: option.splits)
  from Cons.prems(1) f have "ledger_le l l1" "\<forall>k. k \<notin> H \<longrightarrow> staking l1 k = staking l k"
    by (auto simp: grows_in_def)
  with Cons.IH [OF _ fs] Cons.prems(1) show ?case
    by (auto intro: ledger_le_trans)
qed

lemma stake_step_stays_done:
  assumes "\<forall>g\<in>set gs. grows_in H g"
  shows "stays_done (stake_step si params h tx) gs"
  unfolding stays_done_def
proof (intro allI impI)
  fix l l' n l1
  assume step: "stake_step si params h tx l = Some l'" and run: "run_steps (take n gs) l' = Some l1"
  have le: "ledger_le l' l1" and "ledger_le l l'"
    using run_steps_grow [OF _ run] assms stake_step_keeps(1) [OF step] by (auto dest: in_set_takeD)
  then have le0: "ledger_le l l1" by (blast intro: ledger_le_trans)
  show "stake_step si params h tx l1 = Some l1"
  proof (cases "tryParseStakingTx si tx params")
    case (Inl e)
    then show ?thesis by (simp add: stake_step_def)
  next
    case (Inr stakingData)
    have "staking l1 (TxHash (store si) tx) \<noteq> None \<or> validateStakingTx params stakingData \<noteq> Inr ()"
    proof (cases "staking l (TxHash (store si) tx) \<noteq> None \<or> validateStakingTx params stakingData \<noteq> Inr ()")
      case True
      then show ?thesis using ledger_le_staking [OF le0] by blast
    next
      case False
      then have "staking l' (TxHash (store si) tx) \<noteq> None"
        using step Inr by (auto simp: stake_step_def dest: add_once_AddStaking(3) split: sum.splits)
      then show ?thesis using ledger_le_staking [OF le] by blast
    qed
    then show ?thesis by (auto simp: stake_step_def Inr)
  qed
qed

lemma stored_at_cong: "staking l h = staking l' h \<Longrightarrow> stored_at si l h = stored_at si l' h"
  by (simp add: stored_at_def)

lemma add_once_duplicate:
  assumes "unbonding l h \<noteq> None" and "staking l (pu_StakingTxHash u) \<noteq> None"
  shows "add_once (AddUnbonding h u) l = Some l"
  using assms by (auto simp: add_once_def split: option.splits)

lemma unbond_stored_stays:
  assumes "unbond_stored si tx stakingTx l = Some l'" and "ledger_le l' l1"
  shows "unbond_stored si tx stakingTx l1 = Some l1"
proof (cases "GetVersionedGlobalParamsByHeight si (InclusionHeight stakingTx)")
  case None
  then show ?thesis by (simp add: unbond_stored_def)
next
  case (Some params)
  show ?thesis
  proof (cases "IsValidUnbondingTx si tx stakingTx params = Inr True")
    case False
    then show ?thesis by (simp add: unbond_stored_def Some)
  next
    case True
    with assms(1) Some obtain ser where ser: "Serialize (store si) tx = Inr ser"
      and add: "add_once (AddUnbonding (TxHash (store si) tx) \<lparr>pu_TransactionBytes = ser,
        pu_StakingTxHash = TxHash (store si) (Tx stakingTx)\<rparr>) l = Some l'"
      by (auto simp: unbond_stored_def split: sum.splits)
    note d = add_once_AddUnbonding(3,4) [OF add]
    have "unbonding l1 (TxHash (store si) tx) \<noteq> None" "staking l1 (TxHash (store si) (Tx stakingTx)) \<noteq> None"
      using d ledger_le_unbonding [OF assms(2)] ledger_le_staking [OF assms(2)] by fastforce+
    then show ?thesis
      by (simp add: unbond_stored_def Some True ser add_once_duplicate)
  qed
qed

lemma unbond_step_stays_done:
  assumes "\<forall>g\<in>set gs. grows_in H g" and "Hash (PreviousOutPoint txIn) \<notin> H"
  shows "stays_done (unbond_step si tx txIn) gs"
  unfolding stays_done_def
proof (intro allI impI)
  fix l l' n l1
  assume step: "unbond_step si tx txIn l = Some l'" and run: "run_steps (take n gs) l' = Some l1"
  have le: "ledger_le l' l1"
    and "staking l1 (Hash (PreviousOutPoint txIn)) = staking l' (Hash (PreviousOutPoint txIn))"
    using run_steps_grow [OF _ run, of H] assms by (auto dest: in_set_takeD)
  then have same: "stored_at si l1 (Hash (PreviousOutPoint txIn)) = stored_at si l (Hash (PreviousOutPoint txIn))"
    using unbond_step_keeps(2) [OF step] by (intro stored_at_cong) simp
  show "unbond_step si tx txIn l1 = Some l1"
    using step unbond_stored_stays [OF _ le]
    by (auto simp: unbond_step_def same split: option.splits if_splits)
qed

lemma replayable_unbond_steps:
  assumes "replayable gs" and "\<forall>g\<in>set gs. grows_in H g"
    and "\<forall>txIn\<in>set ins. Hash (PreviousOutPoint txIn) \<notin> H"
  shows "replayable (map (unbond_step si tx) ins @ gs)"
  using assms(3)
proof (induction ins)
  case Nil
  then show ?case by (simp add: assms(1))
next
  case (Cons txIn ins)
  have "\<forall>g\<in>set (map (unbond_step si tx) ins @ gs). grows_in H g"
    using assms(2) by (auto simp: unbond_step_grows)
  with Cons show ?case
    by (auto intro!: unbond_step_stays_done)
qed

lemma block_steps_grow:
  "\<forall>g\<in>set (concat (map (tx_steps si params h) txs) @ [save_step k]).
     grows_in (TxHash (store si) ` set txs) g"
  by (auto simp: tx_steps_def stake_step_grows unbond_step_grows save_step_grows)

text \<open>The steps of a block whose transactions spend backwards can be replayed.\<close>

lemma replayable_block_steps:
  assumes "spends_backwards (store si) (map MsgTx_of (Txs b))"
  shows "replayable (block_steps si params b)"
proof -
  define h where "h = u64_of_i32 (Height b)"
  have "replayable (concat (map (tx_steps si params h) txs) @ [save_step h])"
    if "spends_backwards (store si) txs" for txs
    using that
  proof (induction txs)
    case Nil
    show ?case by (simp add: stays_done_def save_step_def)
  next
    case (Cons tx txs)
    let ?gs = "concat (map (tx_steps si params h) txs) @ [save_step h]"
    have rest: "replayable (map (unbond_step si tx) (TxIn tx) @ ?gs)"
      using Cons by (intro replayable_unbond_steps [OF _ block_steps_grow]) auto
    have "\<forall>g\<in>set (map (unbond_step si tx) (TxIn tx) @ ?gs). grows_in (TxHash (store si) ` set txs) g"
      using block_steps_grow [of si params h txs h] by (auto simp: unbond_step_grows)
    then have "stays_done (stake_step si params h tx) (map (unbond_step si tx) (TxIn tx) @ ?gs)"
      by (rule stake_step_stays_done)
    with rest show ?case
      by (simp add: tx_steps_def [of si params h tx])
  qed
  from this [OF assms] show ?thesis
    by (simp add: block_steps_def h_def Let_def comp_def)
qed

section \<open>Programs that implement a sequence of steps\<close>

definition reads_ok :: "'db StakingIndexer \<Rightarrow> bool" where
  "reads_ok si \<longleftrightarrow> (\<forall>d. BeginRead (store si) d = None)"

text \<open>A run that returns makes all the steps; one that does not makes some first of them.\<close>

definition implements ::
    "'db StakingIndexer \<Rightarrow> ('db state, 'a) prog \<Rightarrow> ledger_step list \<Rightarrow> 'db state \<Rightarrow> bool" where
  "implements si m fs s \<longleftrightarrow> (db_ok si s \<longrightarrow>
     (case m s of
        (Inr _, s') \<Rightarrow> db_ok si s' \<and> run_steps fs (ledger_at si s) = Some (ledger_at si s')
      | (Inl _, s') \<Rightarrow> db_ok si s' \<and> (\<exists>n. run_steps (take n fs) (ledger_at si s) = Some (ledger_at si s'))))"

lemma implementsI:
  assumes "\<And>x s'. db_ok si s \<Longrightarrow> m s = (Inr x, s') \<Longrightarrow>
      db_ok si s' \<and> run_steps fs (ledger_at si s) = Some (ledger_at si s')"
    and "\<And>f s'. db_ok si s \<Longrightarrow> m s = (Inl f, s') \<Longrightarrow>
      db_ok si s' \<and> (\<exists>n. run_steps (take n fs) (ledger_at si s) = Some (ledger_at si s'))"
  shows "implements si m fs s"
proof (cases "m s")
  case (Pair r s')
  with assms [of _ s'] show ?thesis by (cases r) (simp_all add: implements_def)
qed

lemma implements_Inr:
  assumes "implements si m fs s" and "db_ok si s" and "m s = (Inr x, s')"
  shows "db_ok si s'" and "run_steps fs (ledger_at si s) = Some (ledger_at si s')"
  using assms by (simp_all add: implements_def)

lemma implements_Inl:
  assumes "implements si m fs s" and "db_ok si s" and "m s = (Inl f, s')"
  shows "db_ok si s'" and "\<exists>n. run_steps (take n fs) (ledger_at si s) = Some (ledger_at si s')"
  using assms by (simp_all add: implements_def)

text \<open>A program that leaves the database alone makes no step.\<close>

lemma same_db_ledger:
  "db s' = db s \<Longrightarrow> ledger_at si s' = ledger_at si s" "db s' = db s \<Longrightarrow> db_ok si s' = db_ok si s"
  by (simp_all add: ledger_at_def db_ok_def)

lemma implements_nothing:
  assumes "db (snd (m s)) = db s"
  shows "implements si m [] s"
  using same_db_ledger [OF assms] by (auto simp: implements_def split: prod.splits sum.splits)

lemma implements_failed:
  assumes "m s = (Inl f, s')" and "db s' = db s"
  shows "implements si m fs s"
  using assms same_db_ledger [OF assms(2)]
  by (auto simp: implements_def intro: exI [of _ 0])

lemma implements_skip:
  assumes "f (ledger_at si s) = Some (ledger_at si s)" and "implements si m fs s"
  shows "implements si m (f # fs) s"
proof (rule implementsI)
  fix g s'
  assume "db_ok si s" and "m s = (Inl g, s')"
  from implements_Inl [OF assms(2) this] obtain n where "db_ok si s'"
    "run_steps (take n fs) (ledger_at si s) = Some (ledger_at si s')" by blast
  then show "db_ok si s' \<and> (\<exists>n. run_steps (take n (f # fs)) (ledger_at si s) = Some (ledger_at si s'))"
    using assms(1) by (intro conjI exI [of _ "Suc n"]) simp_all
qed (use assms implements_Inr [OF assms(2)] in auto)

lemma implements_cong:
  assumes "implements si m [g] s" and "db_ok si s \<Longrightarrow> f (ledger_at si s) = g (ledger_at si s)"
  shows "implements si m [f] s"
proof (cases "db_ok si s")
  case True
  have "run_steps (take n [f]) (ledger_at si s) = run_steps (take n [g]) (ledger_at si s)" for n
    using assms(2) [OF True] by (cases n) simp_all
  then have eq: "(\<lambda>n. run_steps (take n [f]) (ledger_at si s)) = (\<lambda>n. run_steps (take n [g]) (ledger_at si s))"
    by blast
  from fun_cong [OF eq, of 1] have "run_steps [f] (ledger_at si s) = run_steps [g] (ledger_at si s)" by simp
  with assms(1) show ?thesis unfolding implements_def by (simp only: fun_cong [OF eq])
qed (simp add: implements_def)

lemma implements_bind:
  assumes "implements si m fs s"
    and "\<And>x s'. db_ok si s' \<Longrightarrow> m s = (Inr x, s') \<Longrightarrow> implements si (k x) gs s'"
  shows "implements si (bind m k) (fs @ gs) s"
proof (cases "db_ok si s")
  case False
  then show ?thesis by (simp add: implements_def)
next
  case True
  show ?thesis
  proof (cases "m s")
    case (Pair r s1)
    show ?thesis
    proof (cases r)
      case (Inl f)
      from implements_Inl [OF assms(1) True] Pair Inl obtain n where "db_ok si s1"
        "run_steps (take n fs) (ledger_at si s) = Some (ledger_at si s1)" by blast
      moreover have "take (min n (length fs)) (fs @ gs) = take n fs" by (simp add: min_def)
      ultimately have "\<exists>n. run_steps (take n (fs @ gs)) (ledger_at si s) = Some (ledger_at si s1)"
        by metis
      with \<open>db_ok si s1\<close> show ?thesis
        using Pair Inl by (simp add: implements_def bind_eq)
    next
      case (Inr x)
      note fs = implements_Inr [OF assms(1) True Pair [unfolded Inr]]
      have k: "implements si (k x) gs s1" using assms(2) fs(1) Pair Inr by blast
      have "take (length fs + n) (fs @ gs) = fs @ take n gs" for n by simp
      then have pre: "run_steps (take n gs) (ledger_at si s1) = Some l \<Longrightarrow>
          \<exists>n. run_steps (take n (fs @ gs)) (ledger_at si s) = Some l" for n l
        by (metis (no_types, lifting) fs(2) option.case(2) run_steps_append)
      show ?thesis
        using implements_Inr [OF k fs(1)] implements_Inl [OF k fs(1)] pre fs(2)
        by (intro implementsI) (auto simp: bind_eq Pair Inr run_steps_append)
    qed
  qed
qed

lemma implements_bind_Cons:
  assumes "implements si m [f] s"
    and "\<And>x s'. m s = (Inr x, s') \<Longrightarrow> db_ok si s' \<Longrightarrow> implements si (k x) gs s'"
  shows "implements si (bind m k) (f # gs) s"
  using implements_bind [OF assms(1), of k gs] assms(2) by simp

lemma implements_for_each:
  assumes "\<And>x s. x \<in> set xs \<Longrightarrow> implements si (body x) (fs x) s"
  shows "implements si (for_each xs body) (concat (map fs xs)) s"
  using assms
  by (induction xs arbitrary: s)
    (simp_all add: implements_bind implements_nothing ret_def)

text \<open>Handlers that pass the error on.\<close>

lemma implements_on_error_raise:
  assumes "implements si m fs s"
    and "\<And>e s'. m s = (Inl (Error e), s') \<Longrightarrow> \<exists>f s''. handler e s' = (Inl f, s'') \<and> db s'' = db s'"
  shows "implements si (on_error m handler) fs s"
proof (cases "m s")
  case (Pair r s')
  show ?thesis
  proof (cases "\<exists>e. r = Inl (Error e)")
    case True
    then obtain e where r: "r = Inl (Error e)" by blast
    obtain f s'' where "handler e s' = (Inl f, s'')" "db s'' = db s'"
      using assms(2) Pair r by blast
    with Pair r assms(1) same_db_ledger [of s'' s'] show ?thesis
      by (simp add: implements_def on_error_def bind_eq attempt_def)
  next
    case False
    with Pair have "on_error m handler s = m s"
      by (auto simp: on_error_def bind_eq attempt_def ret_def split: sum.splits fault.splits)
    with assms(1) show ?thesis by (simp add: implements_def)
  qed
qed

lemma implements_wrap_error: "implements si m fs s \<Longrightarrow> implements si (wrap_error msg m) fs s"
  unfolding wrap_error_def by (rule implements_on_error_raise) (auto simp: raise_def)

lemma implements_count_error: "implements si m fs s \<Longrightarrow> implements si (count_error c m) fs s"
  unfolding count_error_def
  by (rule implements_on_error_raise) (auto simp: raise_def metric_def modify_def bind_eq)

section \<open>The indexer implements the steps\<close>

text \<open>Programs that leave the database alone.\<close>

abbreviation keeps_db :: "('db state, 'a) prog \<Rightarrow> bool" where
  "keeps_db \<equiv> run_in (\<lambda>s s'. db s' = db s)"

lemma keeps_db_effects:
  "keeps_db (store_read f)" "keeps_db (push_event si ev)" "keeps_db (metric g)" "keeps_db (invalid_tx l)"
  by (auto simp: run_in_def store_read_def push_event_def metric_def invalid_tx_def modify_def
      split: sum.split option.split)

lemma keeps_db_wrap: "keeps_db m \<Longrightarrow> keeps_db (wrap_error msg m)"
  unfolding wrap_error_def by (intro frame.run_rules [where obs = db])

lemma keeps_db_count: "keeps_db m \<Longrightarrow> keeps_db (count_error c m)"
  unfolding count_error_def by (intro frame.run_rules [where obs = db] keeps_db_effects)

lemmas keeps_db_rules = frame.run_rules [where obs = db] keeps_db_effects keeps_db_wrap keeps_db_count

lemma keeps_db_processWithdrawTx: "keeps_db (processWithdrawTx si tx x y h)"
  unfolding processWithdrawTx_def by (auto intro!: keeps_db_rules)

lemma keeps_db_handleSpendingUnbonding:
  "keeps_db (handleSpendingUnbondingTransaction si tx unbondingTx i h)"
  unfolding handleSpendingUnbondingTransaction_def
  by (intro keeps_db_rules)
    (auto split: option.split sum.split intro!: keeps_db_rules keeps_db_processWithdrawTx)

lemma keeps_dbD: "keeps_db m \<Longrightarrow> db (snd (m s)) = db s"
  by (simp add: run_in_def)

text \<open>The branch of a withdrawal, for any verdict on it.\<close>

lemma keeps_db_withdraw:
  "keeps_db (bind (attempt (lift r)) (case_sum
     (\<lambda>e. if errors_Is e x then invalid_tx l else bind (metric f) (\<lambda>_. raise e))
     (\<lambda>_. count_error g (processWithdrawTx si tx a b h))))"
  by (intro keeps_db_rules) (auto split: sum.split intro!: keeps_db_rules keeps_db_processWithdrawTx)

lemma implements_keeps_db: "keeps_db m \<Longrightarrow> implements si m [] s"
  by (rule implements_nothing) (simp add: run_in_def)

context indexer_env
begin

text \<open>One announced write: the event, the store, the metrics.\<close>

lemma implements_write:
  assumes adm: "admissible_op (store si) op"
  shows "implements si (on_error (store_write (exec_op (store si) op))
    (\<lambda>e. if errors_Is e (StoreErr ErrDuplicateTransaction) then ret () else raise (Wrap msg e)))
    [add_once op] s"
proof (cases "db_ok si s")
  case False
  then show ?thesis by (simp add: implements_def)
next
  case True
  then have ok: "store_ok (store si) (db s)" by (simp add: db_ok_def)
  from ok adm show ?thesis
  proof (cases rule: st.exec_cases)
    case (applied d')
    then show ?thesis
      by (simp add: implements_def on_error_def bind_eq attempt_def store_write_def ret_def db_ok_def
          ledger_at_def add_once_def)
  next
    case (refused e)
    from refused(2) consider "lib_failure e"
      | se where "e = StoreErr se" and "apply_op op (ledger_at si s) = Inl se"
      by (auto simp: ledger_at_def)
    then show ?thesis
    proof cases
      case 1
      then obtain m where e: "e = LibErr m" by (auto simp: lib_failure_def)
      have "run_steps (take 0 [add_once op]) (ledger_at si s) = Some (ledger_at si s)" by simp
      with refused(1) True e show ?thesis
        by (auto simp: implements_def on_error_def bind_eq attempt_def store_write_def raise_def
            intro: exI [of _ 0])
    next
      case (2 se)
      have "run_steps (take 0 [add_once op]) (ledger_at si s) = Some (ledger_at si s)" by simp
      with refused(1) True 2 show ?thesis
        by (auto simp: implements_def on_error_def bind_eq attempt_def store_write_def raise_def ret_def
            add_once_def intro: exI [of _ 0])
    qed
  qed
qed

lemma implements_announced_write:
  assumes "getTxHex si tx = Inr txHex" and "admissible_op (store si) op" and "keeps_db k"
  shows "implements si (bind (lift (getTxHex si tx)) (\<lambda>txHex.
    bind (wrap_error m1 (push_event si (ev txHex))) (\<lambda>_.
    bind (on_error (store_write (exec_op (store si) op))
      (\<lambda>e. if errors_Is e (StoreErr ErrDuplicateTransaction) then ret () else raise (Wrap m2 e)))
      (\<lambda>_. k)))) [add_once op] s"
proof -
  have "implements si (bind (lift (getTxHex si tx)) (\<lambda>txHex.
    bind (wrap_error m1 (push_event si (ev txHex))) (\<lambda>_.
    bind (on_error (store_write (exec_op (store si) op))
      (\<lambda>e. if errors_Is e (StoreErr ErrDuplicateTransaction) then ret () else raise (Wrap m2 e)))
      (\<lambda>_. k)))) ([] @ [] @ [add_once op] @ []) s"
    by (intro implements_bind implements_write implements_keeps_db keeps_db_rules assms)
  then show ?thesis by simp
qed

lemma implements_process_unbonding:
  assumes "TxIn tx \<noteq> []" and "length stakingHash = 32" and "Serialize (store si) tx = Inr ser"
  shows "implements si (ProcessUnbondingTx si tx stakingHash h ts params)
    [add_once (AddUnbonding (TxHash (store si) tx)
       \<lparr>pu_TransactionBytes = ser, pu_StakingTxHash = stakingHash\<rparr>)] s"
  unfolding ProcessUnbondingTx_def AddUnbondingTransaction_exec assms(3) sum.case
  using unbonding_msg_decodes(2) [OF assms(3,1,2)]
  by (intro implements_announced_write keeps_db_rules) (simp_all add: getTxHex_def assms(3))

text \<open>The writer of unbonding transactions never reports a duplicate.\<close>

lemma ProcessUnbondingTx_no_duplicate:
  assumes "ProcessUnbondingTx si tx stakingHash h ts params s = (Inl (Error e), s')"
  shows "\<not> errors_Is e (StoreErr ErrDuplicateTransaction)"
proof -
  have hex: "getTxHex si tx = Inl (Error e) \<Longrightarrow> ?thesis"
    by (auto simp: getTxHex_def split: sum.splits)
  show ?thesis
    using assms hex
    by (auto simp: ProcessUnbondingTx_def bind_eq lift_def wrap_error_def on_error_def attempt_def
        raise_def ret_def push_event_def metric_def modify_def
        split: sum.splits fault.splits prod.splits option.splits if_splits)
qed

lemma implements_handle_spending_staking:
  assumes ins: "TxIn tx \<noteq> []"
  shows "implements si (handleSpendingStakingTransaction si tx stakingTx i h ts)
    [unbond_stored si tx stakingTx] s"
proof (cases "\<exists>params. GetVersionedGlobalParamsByHeight si (InclusionHeight stakingTx) = Some params \<and>
    IsValidUnbondingTx si tx stakingTx params = Inr True")
  case False
  then have "unbond_stored si tx stakingTx (ledger_at si s) = Some (ledger_at si s)"
    by (auto simp: unbond_stored_def split: option.split)
  moreover have "db (snd (handleSpendingStakingTransaction si tx stakingTx i h ts s)) = db s"
    unfolding handleSpendingStakingTransaction_def Let_def
    by (intro frame.bind_at [where obs = db])
      (use False in \<open>auto simp: lift_def attempt_def getVersionedParams_def keeps_dbD keeps_db_withdraw
        split: sum.splits option.splits fault.splits\<close>, auto intro!: keeps_dbD keeps_db_rules)
  ultimately show ?thesis
    by (intro implements_skip implements_nothing)
next
  case True
  then obtain params where par: "GetVersionedGlobalParamsByHeight si (InclusionHeight stakingTx) = Some params"
    and valid: "IsValidUnbondingTx si tx stakingTx params = Inr True" by blast
  let ?h = "TxHash (store si) (Tx stakingTx)"
  let ?m = "ProcessUnbondingTx si tx ?h h ts params"
  let ?handler = "\<lambda>e. if \<not> errors_Is e (StoreErr ErrDuplicateTransaction)
      then bind (metric (failedProcessingUnbondingTxsCounter_update Suc)) (\<lambda>_. raise e) else ret ()"
  have raises: "\<exists>f s''. ?handler e s1 = (Inl f, s'') \<and> db s'' = db s1"
    if "?m s = (Inl (Error e), s1)" for e s1
    using ProcessUnbondingTx_no_duplicate [OF that]
    by (simp add: bind_eq metric_def modify_def raise_def)
  have "implements si (on_error ?m ?handler) [unbond_stored si tx stakingTx] s"
  proof (cases "Serialize (store si) tx")
    case (Inl e)
    then have "fst (?m s) = Inl (Error (Wrap ''failed to serialize the tx'' (LibErr e)))" "snd (?m s) = s"
      by (simp_all add: ProcessUnbondingTx_def getTxHex_def bind_eq lift_def)
    then have "?m s = (Inl (Error (Wrap ''failed to serialize the tx'' (LibErr e))), s)"
      by (metis prod.collapse)
    then have "implements si ?m [unbond_stored si tx stakingTx] s"
      by (rule implements_failed) simp
    then show ?thesis by (rule implements_on_error_raise) (rule raises)
  next
    case (Inr ser)
    have "implements si ?m [unbond_stored si tx stakingTx] s"
      by (rule implements_cong [OF implements_process_unbonding [OF ins length_TxHash Inr]])
        (simp add: unbond_stored_def par valid Inr)
    then show ?thesis by (rule implements_on_error_raise) (rule raises)
  qed
  moreover have "handleSpendingStakingTransaction si tx stakingTx i h ts s = on_error ?m ?handler s"
    by (simp add: handleSpendingStakingTransaction_def Let_def bind_eq lift_def getVersionedParams_def
        par valid attempt_def)
  ultimately show ?thesis by (simp add: implements_def)
qed

lemma read_staking:
  assumes "reads_ok si" and "db_ok si s"
  shows "GetStakingTransaction (store si) h (db s) = Inr (stored_at si (ledger_at si s) h)"
proof -
  have ok: "store_ok (store si) (db s)" "BeginRead (store si) (db s) = None"
    using assms by (simp_all add: reads_ok_def db_ok_def)
  show ?thesis
  proof (cases "staking (ledger_of (store si) (db s)) h")
    case None
    then show ?thesis using GetStakingTransaction_None [OF ok] by (simp add: stored_at_def ledger_at_def)
  next
    case (Some p)
    then show ?thesis
      by (rule GetStakingTransaction_Some [OF ok]) (use Some in \<open>simp add: stored_at_def ledger_at_def\<close>)
  qed
qed

lemma stored_at_None_iff:
  assumes "db_ok si s"
  shows "stored_at si (ledger_at si s) h = None \<longleftrightarrow> staking (ledger_at si s) h = None"
  using assms store_ok_decodes(1) [of "store si" "db s" h]
  by (fastforce simp: stored_at_def db_ok_def ledger_at_def staking_decodes_def
      split: option.splits)

lemma isOverflow_spec:
  assumes "GetConfirmedTvl (store si) d = Inr (current_tvl l)"
  shows "isOverflow si h params d = Inr (spec_overflow params h l) \<or> (\<exists>f. isOverflow si h params d = Inl f)"
  by (auto simp: isOverflow_def Let_def spec_overflow_def assms)

lemma implements_add_staking:
  assumes "TxIn tx \<noteq> []"
    and "\<And>ser. db_ok si s \<Longrightarrow> Serialize (store si) tx = Inr ser \<Longrightarrow> f (ledger_at si s) =
      add_once (AddStaking (TxHash (store si) tx) (staking_msg si stakingData h ser ov)) (ledger_at si s)"
  shows "implements si (si_addStakingTransaction si h ts tx
    (StakerPublicKey (OpReturnData stakingData)) (FinalityProviderPublicKey (OpReturnData stakingData))
    (Value (StakingOutput stakingData)) (ucast (op_StakingTime (OpReturnData stakingData)))
    (word_of_int (parsed_StakingOutputIdx stakingData)) ov) [f] s"
proof (cases "Serialize (store si) tx")
  case (Inl e)
  show ?thesis
    by (rule implements_failed [of _ _ "Error (Wrap ''failed to serialize the tx'' (LibErr e))" s])
      (simp_all add: si_addStakingTransaction_def getTxHex_def bind_eq lift_def Inl)
next
  case (Inr ser)
  let ?op = "AddStaking (TxHash (store si) tx) (staking_msg si stakingData h ser ov)"
  have "implements si (si_addStakingTransaction si h ts tx
    (StakerPublicKey (OpReturnData stakingData)) (FinalityProviderPublicKey (OpReturnData stakingData))
    (Value (StakingOutput stakingData)) (ucast (op_StakingTime (OpReturnData stakingData)))
    (word_of_int (parsed_StakingOutputIdx stakingData)) ov) [add_once ?op] s"
    unfolding si_addStakingTransaction_def AddStakingTransaction_exec Inr sum.case
    using staking_msg_admissible [OF Inr assms(1)]
    by (intro implements_announced_write keeps_db_rules) (simp_all add: getTxHex_def Inr)
  then show ?thesis
    by (rule implements_cong) (rule assms(2) [OF _ Inr])
qed

text \<open>A staking transaction that is not stored yet.\<close>

lemma implements_process_fresh:
  assumes "reads_ok si" and ins: "TxIn tx \<noteq> []"
    and parsed: "tryParseStakingTx si tx params = Inr stakingData" and True: "db_ok si s"
    and None: "stored_at si (ledger_at si s) (TxHash (store si) tx) = None"
  shows "implements si (ProcessStakingTx si tx stakingData h ts params) [stake_step si params h tx] s"
proof -
  note read = read_staking [OF assms(1) True, of "TxHash (store si) tx"]
  have fresh: "staking (ledger_at si s) (TxHash (store si) tx) = None"
    using None stored_at_None_iff [OF True] by simp
  have dup: "stake_step si params h tx (ledger_at si s) = Some (ledger_at si s)"
    if "validateStakingTx params stakingData \<noteq> Inr ()"
    using that by (auto simp: stake_step_def parsed)
  have tvl: "GetConfirmedTvl (store si) (db s) = Inr (current_tvl (ledger_at si s))"
    using assms(1) True GetConfirmedTvl_ledger [of "db s"]
    by (simp add: reads_ok_def db_ok_def ledger_at_def)
  consider e where "validateStakingTx params stakingData = Inl e"
    | f where "validateStakingTx params stakingData = Inr ()" "isOverflow si h params (db s) = Inl f"
    | "validateStakingTx params stakingData = Inr ()"
      "isOverflow si h params (db s) = Inr (spec_overflow params h (ledger_at si s))"
    using isOverflow_spec [OF tvl, of h params]
    by (cases "validateStakingTx params stakingData") auto
  then show ?thesis
  proof cases
    case (1 e)
    then have "db (snd (ProcessStakingTx si tx stakingData h ts params s)) = db s"
      by (simp add: ProcessStakingTx_def Let_def bind_eq store_read_def read None keeps_dbD
          keeps_db_effects)
    with dup 1 show ?thesis by (intro implements_skip implements_nothing) simp_all
  next
    case (2 f)
    then have "\<exists>g. ProcessStakingTx si tx stakingData h ts params s = (Inl g, s)"
      by (auto simp: ProcessStakingTx_def Let_def bind_eq store_read_def read None wrap_error_def
          on_error_def attempt_def gets_def lift_def raise_def split: fault.splits)
    then show ?thesis by (auto intro: implements_failed)
  next
    case 3
    have "implements si (si_addStakingTransaction si h ts tx
      (StakerPublicKey (OpReturnData stakingData)) (FinalityProviderPublicKey (OpReturnData stakingData))
      (Value (StakingOutput stakingData)) (ucast (op_StakingTime (OpReturnData stakingData)))
      (word_of_int (parsed_StakingOutputIdx stakingData)) (spec_overflow params h (ledger_at si s)))
      [stake_step si params h tx] s"
      using fresh 3(1) parsed by (intro implements_add_staking ins) (simp add: stake_step_def)
    then show ?thesis
      by (simp add: implements_def ProcessStakingTx_def Let_def bind_eq store_read_def read None 3
          wrap_error_def on_error_def attempt_def gets_def lift_def ret_def)
  qed
qed

lemma implements_process_staking:
  assumes "reads_ok si" and ins: "TxIn tx \<noteq> []"
    and parsed: "tryParseStakingTx si tx params = Inr stakingData"
  shows "implements si (ProcessStakingTx si tx stakingData h ts params) [stake_step si params h tx] s"
proof (cases "db_ok si s")
  case False
  then show ?thesis by (simp add: implements_def)
next
  case True
  note read = read_staking [OF assms(1) True, of "TxHash (store si) tx"]
  note none = stored_at_None_iff [OF True, of "TxHash (store si) tx"]
  have dup: "stake_step si params h tx (ledger_at si s) = Some (ledger_at si s)"
    if "staking (ledger_at si s) (TxHash (store si) tx) \<noteq> None"
    using that by (auto simp: stake_step_def parsed)
  show ?thesis
  proof (cases "stored_at si (ledger_at si s) (TxHash (store si) tx)")
    case (Some stakingTx)
    with none obtain p where p: "staking (ledger_at si s) (TxHash (store si) tx) = Some p" by auto
    have "implements si (si_addStakingTransaction si h ts tx
      (StakerPublicKey (OpReturnData stakingData)) (FinalityProviderPublicKey (OpReturnData stakingData))
      (Value (StakingOutput stakingData)) (ucast (op_StakingTime (OpReturnData stakingData)))
      (word_of_int (parsed_StakingOutputIdx stakingData)) (IsOverflow stakingTx))
      [stake_step si params h tx] s"
      using dup p by (intro implements_add_staking ins) (simp add: add_once_def)
    then show ?thesis
      by (simp add: implements_def ProcessStakingTx_def Let_def bind_eq store_read_def read Some)
  next
    case None
    then show ?thesis by (rule implements_process_fresh [OF assms(1) ins parsed True])
  qed
qed

lemma getSpentStakingTxs_pairs:
  assumes "reads_ok si" and "db_ok si s" and "getSpentStakingTxs si tx (db s) = (stakingTxs, is)"
  shows "zip stakingTxs is =
    List.map_filter (spent_by (stored_at si (ledger_at si s)) spends_output) (enumerate 0 (TxIn tx))"
  using spent_loop_pairs(1) [OF assms(3) [unfolded getSpentStakingTxs_def]]
  by (simp add: GetStakingTxByHash_def read_staking [OF assms(1,2)])

lemma implements_spend_loop:
  assumes ins: "TxIn tx \<noteq> []" and "db_ok si s" and "look = stored_at si (ledger_at si s)"
  shows "implements si (for_each (List.map_filter (spent_by look spends_output) (enumerate k txIns))
    (\<lambda>(stakingTx, i). handleSpendingStakingTransaction si tx stakingTx i h ts))
    (map (unbond_step si tx) txIns) s"
  using assms(2,3)
proof (induction txIns arbitrary: k s)
  case Nil
  show ?case by (simp add: List.map_filter_simps implements_keeps_db frame.run_ret)
next
  case (Cons txIn txIns)
  show ?case
  proof (cases "spent_by look spends_output (k, txIn)")
    case None
    then have "unbond_step si tx txIn (ledger_at si s) = Some (ledger_at si s)"
      by (auto simp: spent_by_def unbond_step_def Cons.prems(2) split: option.splits if_splits)
    with Cons None show ?thesis by (simp add: List.map_filter_simps implements_skip)
  next
    case (Some y)
    then obtain stakingTx where y: "y = (stakingTx, k)"
      and st: "stored_at si (ledger_at si s) (Hash (PreviousOutPoint txIn)) = Some stakingTx"
      and out: "spends_output txIn stakingTx"
      by (auto simp: spent_by_def Cons.prems(2) split: option.splits if_splits)
    have one: "implements si (handleSpendingStakingTransaction si tx stakingTx k h ts) [unbond_step si tx txIn] s"
      by (rule implements_cong [OF implements_handle_spending_staking [OF ins]])
        (simp add: unbond_step_def st out)
    have rest: "implements si (for_each (List.map_filter (spent_by look spends_output) (enumerate (Suc k) txIns))
        (\<lambda>(stakingTx, i). handleSpendingStakingTransaction si tx stakingTx i h ts))
        (map (unbond_step si tx) txIns) s'"
      if "handleSpendingStakingTransaction si tx stakingTx k h ts s = (Inr x, s')" and "db_ok si s'" for x s'
    proof (rule Cons.IH [OF that(2)])
      from implements_Inr(2) [OF one Cons.prems(1) that(1)]
      have "unbond_step si tx txIn (ledger_at si s) = Some (ledger_at si s')"
        by (simp split: option.splits)
      from unbond_step_keeps(2) [OF this] show "look = stored_at si (ledger_at si s')"
        by (simp add: Cons.prems(2) stored_at_def fun_eq_iff)
    qed
    have "implements si (bind (handleSpendingStakingTransaction si tx stakingTx k h ts)
        (\<lambda>_. for_each (List.map_filter (spent_by look spends_output) (enumerate (Suc k) txIns))
          (\<lambda>(stakingTx, i). handleSpendingStakingTransaction si tx stakingTx i h ts)))
        (unbond_step si tx txIn # map (unbond_step si tx) txIns) s"
      by (rule implements_bind_Cons [OF one]) (rule rest)
    then show ?thesis by (simp add: List.map_filter_simps Some y)
  qed
qed

lemma implements_stake_part:
  assumes "reads_ok si" and ins: "TxIn tx \<noteq> []"
  shows "implements si (case tryParseStakingTx si tx params of
      Inl _ \<Rightarrow> ret ()
    | Inr stakingData \<Rightarrow> wrap_error msg (count_error c (ProcessStakingTx si tx stakingData h ts params)))
    [stake_step si params h tx] s"
proof (cases "tryParseStakingTx si tx params")
  case (Inl e)
  then show ?thesis
    by (auto simp: stake_step_def intro!: implements_skip implements_keeps_db frame.run_ret)
next
  case (Inr stakingData)
  then show ?thesis
    by (auto intro!: implements_wrap_error implements_count_error implements_process_staking assms)
qed

lemma implements_confirmed_tx:
  assumes "reads_ok si" and ins: "TxIn tx \<noteq> []"
  shows "implements si (confirmed_tx si params b tx) (tx_steps si params (u64_of_i32 (Height b)) tx) s"
proof -
  let ?h = "u64_of_i32 (Height b)" and ?ts = "Timestamp (Header b)"
  have "implements si (bind (gets (\<lambda>s. getSpentStakingTxs si tx (db s))) (\<lambda>(stakingTxs, is).
      bind (for_each (zip stakingTxs is) (\<lambda>(stakingTx, i).
        handleSpendingStakingTransaction si tx stakingTx i ?h ?ts)) (\<lambda>_.
      bind (gets (\<lambda>s. getSpentUnbondingTxs si tx (db s))) (\<lambda>(unbondingTxs, is).
      for_each (zip unbondingTxs is) (\<lambda>(unbondingTx, i).
        handleSpendingUnbondingTransaction si tx unbondingTx i ?h)))))
      ([] @ map (unbond_step si tx) (TxIn tx) @ []) s1" for s1
  proof (rule implements_bind)
    show "implements si (gets (\<lambda>s. getSpentStakingTxs si tx (db s))) [] s1"
      by (intro implements_keeps_db keeps_db_rules)
    fix x s'
    assume ok: "db_ok si s'" and "gets (\<lambda>s. getSpentStakingTxs si tx (db s)) s1 = (Inr x, s')"
    then have x: "getSpentStakingTxs si tx (db s') = (fst x, snd x)" by (auto simp: gets_def)
    have "keeps_db (bind (gets (\<lambda>s. getSpentUnbondingTxs si tx (db s))) (\<lambda>(unbondingTxs, is).
      for_each (zip unbondingTxs is) (\<lambda>(unbondingTx, i).
        handleSpendingUnbondingTransaction si tx unbondingTx i ?h)))"
      by (auto intro!: keeps_db_rules keeps_db_handleSpendingUnbonding)
    then show "implements si (case x of (stakingTxs, is) \<Rightarrow>
      bind (for_each (zip stakingTxs is) (\<lambda>(stakingTx, i).
        handleSpendingStakingTransaction si tx stakingTx i ?h ?ts)) (\<lambda>_.
      bind (gets (\<lambda>s. getSpentUnbondingTxs si tx (db s))) (\<lambda>(unbondingTxs, is).
      for_each (zip unbondingTxs is) (\<lambda>(unbondingTx, i).
        handleSpendingUnbondingTransaction si tx unbondingTx i ?h))))
      (map (unbond_step si tx) (TxIn tx) @ []) s'"
      unfolding case_prod_beta getSpentStakingTxs_pairs [OF assms(1) ok x]
      by (intro implements_bind implements_spend_loop [unfolded case_prod_beta] ins ok refl
          implements_keeps_db)
  qed
  then show ?thesis
    unfolding confirmed_tx_def Let_def tx_steps_def
    by (intro implements_bind_Cons implements_stake_part assms) simp_all
qed

lemma implements_save_height:
  "implements si (store_write (SaveLastProcessedHeight (store si) h)) [save_step h] s"
proof (cases "db_ok si s")
  case True
  have adm: "admissible_op (store si) (SaveHeight h)" by simp
  from True have "store_ok (store si) (db s)" by (simp add: db_ok_def)
  from this adm show ?thesis
  proof (cases rule: st.exec_cases)
    case (applied d')
    then show ?thesis
      by (simp add: implements_def store_write_def db_ok_def ledger_at_def save_step_def)
  next
    case (refused e)
    then show ?thesis
      by (intro implements_failed [of _ s "Error e" s]) (simp_all add: store_write_def)
  qed
qed (simp add: implements_def)

lemma implements_HandleConfirmedBlock:
  assumes "reads_ok si" and "block_ok C b"
    and par: "GetVersionedGlobalParamsByHeight si (u64_of_i32 (Height b)) = Some params"
  shows "implements si (HandleConfirmedBlock si b) (block_steps si params b) s"
proof -
  let ?h = "u64_of_i32 (Height b)"
  have txs: "implements si (for_each (Txs b) (\<lambda>tx. confirmed_tx si params b (MsgTx_of tx)))
      (concat (map (\<lambda>tx. tx_steps si params ?h (MsgTx_of tx)) (Txs b))) s1" for s1
    using assms(2) by (intro implements_for_each implements_confirmed_tx assms(1)) (auto simp: block_ok_def)
  have "implements si (finish_block si b) ([save_step ?h] @ []) s1" for s1
    unfolding finish_block_def Let_def
    by (intro implements_bind implements_wrap_error implements_save_height implements_keeps_db)
      (auto intro!: keeps_db_rules)
  then have "implements si (HandleConfirmedBlock si b)
      (concat (map (\<lambda>tx. tx_steps si params ?h (MsgTx_of tx)) (Txs b)) @ [save_step ?h]) s"
    unfolding HandleConfirmedBlock_params [OF par] by (intro implements_bind txs) simp
  then show ?thesis by (simp add: block_steps_def Let_def)
qed

end

end
