(* ===== verification/Indexer_Correct.thy ===== *)
theory Indexer_Correct
  imports Block_Spec Sample_Env
begin

text \<open>
  The indexer: what is stored is valid and announced, a confirmed block does to the ledger
  exactly what its specification says, the index depends on the confirmed blocks only and
  not on how they were batched, and unconfirmed blocks leave no trace in the store. The
  theorems are applied to the environment of \<open>Sample_Env\<close>.
\<close>

section \<open>Valid and announced\<close>

text \<open>C14: every stored staking transaction, in every reachable state, is a transaction of the
  chain that was parsed and validated under the parameters of its inclusion height, stored
  with the data that was parsed, and announced to the consumer with that data.\<close>

theorem stored_stakes_valid:
  assumes "store_backend (store si)" and "reachable si C s" and "staking (ledger_at si s) h = Some p"
  shows "stake_valid si C h p \<and> (\<exists>ev\<in>set (queue s). announces_stake si h p ev)"
  using indexer_env.reachable_index_ok [OF indexer_env.intro [OF assms(1)] assms(2)] assms(3)
  by (simp add: index_ok_def)

text \<open>C15: every stored unbonding transaction, in every reachable state, is a transaction of the
  chain that is a valid unbonding of a stored staking transaction under the parameters of
  that one's height, and it was announced to the consumer.\<close>

theorem stored_unbondings_valid:
  assumes "store_backend (store si)" and "reachable si C s" and "unbonding (ledger_at si s) h = Some u"
  shows "unbonding_valid si C (ledger_at si s) h u \<and> (\<exists>ev\<in>set (queue s). announces_unbonding si h u ev)"
  using indexer_env.reachable_index_ok [OF indexer_env.intro [OF assms(1)] assms(2)] assms(3)
  by (simp add: index_ok_def)

text \<open>Reads of transactions, on a well-formed database that can be read.\<close>

context store_backend
begin

lemma GetStakingTransaction_total:
  assumes "store_ok B d" and "BeginRead B d = None"
  shows "\<exists>r. GetStakingTransaction B h d = Inr r \<and> (\<forall>st. r = Some st \<longrightarrow> TxHash B (Tx st) = h)"
proof (cases "staking (ledger_of B d) h")
  case None
  then show ?thesis using GetStakingTransaction_None [OF assms] by simp
next
  case (Some p)
  then show ?thesis by (rule GetStakingTransaction_Some [OF assms]) simp
qed

lemma GetUnbondingTransaction_total:
  assumes "store_ok B d" and "BeginRead B d = None"
  shows "\<exists>r. GetUnbondingTransaction B h d = Inr r \<and>
    (\<forall>ut. r = Some ut \<longrightarrow> TxHash B (unbonding_Tx ut) = h \<and>
      (\<exists>st. GetStakingTransaction B (StakingTxHash ut) d = Inr (Some st)))"
proof (cases "unbonding (ledger_of B d) h")
  case None
  then show ?thesis using GetUnbondingTransaction_None [OF assms] by simp
next
  case (Some u)
  then obtain p where p: "staking (ledger_of B d) (pu_StakingTxHash u) = Some p"
    using assms(1) by (fastforce simp: store_ok_def ledger_wf_def)
  obtain st where "GetStakingTransaction B (pu_StakingTxHash u) d = Inr (Some st)"
    by (rule GetStakingTransaction_Some [OF assms p])
  moreover obtain ut where "GetUnbondingTransaction B h d = Inr (Some ut)"
    "TxHash B (unbonding_Tx ut) = h" "StakingTxHash ut = pu_StakingTxHash u"
    by (rule GetUnbondingTransaction_Some [OF assms Some])
  ultimately show ?thesis by simp
qed

end

text \<open>C16: what is stored is well-typed. In every reachable state every read of the store succeeds, if the
  database can be read at all: an entry under a key decodes to a transaction with that hash, the
  staking transaction that a stored unbonding transaction refers to is found, so that the
  handler of withdrawals never reads through a nil pointer, the TVL is there, and the last
  processed height is missing only as long as none was saved.\<close>

theorem reachable_reads_succeed:
  assumes B: "store_backend (store si)" and reads: "reads_ok si" and reach: "reachable si C s"
  shows "(\<exists>r. GetStakingTransaction (store si) h (db s) = Inr r \<and>
      (\<forall>st. r = Some st \<longrightarrow> TxHash (store si) (Tx st) = h)) \<and>
    (\<exists>r. GetUnbondingTransaction (store si) h (db s) = Inr r \<and>
      (\<forall>ut. r = Some ut \<longrightarrow> TxHash (store si) (unbonding_Tx ut) = h \<and>
        (\<exists>st. GetStakingTransaction (store si) (StakingTxHash ut) (db s) = Inr (Some st)))) \<and>
    (\<exists>b. TxExists (store si) h (db s) = Inr b) \<and> (\<exists>t. GetConfirmedTvl (store si) (db s) = Inr t) \<and>
    (\<forall>e. GetLastProcessedHeight (store si) (db s) = Inl e \<longrightarrow>
      e = StoreErr ErrLastProcessedHeightNotFound \<and> height (ledger_at si s) = None)"
proof -
  have ok: "store_ok (store si) (db s)"
    using indexer_env.reachable_index_ok [OF indexer_env.intro [OF B] reach] by (simp add: index_ok_def db_ok_def)
  have read: "BeginRead (store si) (db s) = None" using reads by (simp add: reads_ok_def)
  have "\<exists>b. TxExists (store si) h (db s) = Inr b"
    unfolding store_backend.TxExists_ledger [OF B ok read] by blast
  moreover have "\<exists>t. GetConfirmedTvl (store si) (db s) = Inr t"
    unfolding store_backend.GetConfirmedTvl_ledger [OF B ok read] by blast
  moreover have "e = StoreErr ErrLastProcessedHeightNotFound \<and> height (ledger_at si s) = None"
    if "GetLastProcessedHeight (store si) (db s) = Inl e" for e
    using that by (simp add: store_backend.GetLastProcessedHeight_ledger [OF B ok read] ledger_at_def split: option.splits)
  ultimately show ?thesis
    using store_backend.GetStakingTransaction_total [OF B ok read]
      store_backend.GetUnbondingTransaction_total [OF B ok read] by blast
qed

text \<open>C21: an update, also one that fails or ends the process, never removes or changes a stored
  transaction and never retracts an event.\<close>

theorem handle_update_monotone:
  assumes "store_backend (store si)" and "reachable si C s"
    and "\<forall>b\<in>set (ConfirmedBlocks update). block_ok C b" and "handle_update si update s = (r, s')"
  shows "staking (ledger_at si s) \<subseteq>\<^sub>m staking (ledger_at si s') \<and>
    unbonding (ledger_at si s) \<subseteq>\<^sub>m unbonding (ledger_at si s') \<and> (\<exists>evs. queue s' = queue s @ evs)"
proof -
  have env: "indexer_env si" using assms(1) by (rule indexer_env.intro)
  have "progress si C s s'" by (rule run_inD [OF indexer_env.run_handle_update [OF env assms(3)] assms(4)])
  moreover have "db_ok si s" using indexer_env.reachable_index_ok [OF env assms(2)] by (simp add: index_ok_def)
  ultimately show ?thesis by (auto simp: progress_def ledger_le_def)
qed

text \<open>C19: the unbonding of a stored staking transaction that is not unbonded yet cannot fail for a
  reason of the store: the TVL never goes below zero and the TVL entry is there; only the
  database itself can refuse the write. The chain has no double spends, and its active stake is
  below \<open>2 ^ 64\<close>.\<close>

theorem first_unbonding_accepted:
  assumes B: "store_backend (store si)" and reach: "reachable si C s" and chain: "no_double_spend (store si) C"
    and bound: "active_stake (ledger_at si s) < 2 ^ 64" and ins: "TxIn tx \<noteq> []" and len: "length sh = 32"
    and stored: "staking (ledger_at si s) sh \<noteq> None" and fresh: "sh \<notin> unbonded_hashes (ledger_at si s)"
    and new: "unbonding (ledger_at si s) (TxHash (store si) tx) = None"
    and run: "AddUnbondingTransaction (store si) tx sh (db s) = (d', r)"
  shows "r = None \<or> (\<exists>m. r = Some (LibErr m))"
proof (cases "Serialize (store si) tx")
  case (Inl e)
  with run show ?thesis by (auto simp: AddUnbondingTransaction_def SerializeBtcTransaction_def lib_result_def)
next
  case (Inr ser)
  let ?u = "\<lparr>pu_TransactionBytes = ser, pu_StakingTxHash = sh\<rparr>"
  have idx: "index_ok si C s" by (rule indexer_env.reachable_index_ok [OF indexer_env.intro [OF B] reach])
  then have ok: "store_ok (store si) (db s)" and bal: "balanced (ledger_at si s)"
    by (simp_all add: index_ok_def db_ok_def)
  have wf: "ledger_wf (ledger_at si s)" using ok by (simp add: store_ok_def ledger_at_def)
  obtain p where p: "staking (ledger_at si s) (pu_StakingTxHash ?u) = Some p" using stored by auto
  have "\<exists>l'. apply_op (AddUnbonding (TxHash (store si) tx) ?u) (ledger_at si s) = Inr l'"
    by (rule apply_unbonding_active [OF wf bal index_ok_single_unbonding [OF idx chain] bound p]) (use fresh new in simp_all)
  moreover have "exec_op (store si) (AddUnbonding (TxHash (store si) tx) ?u) (db s) = (d', r)"
    using run Inr by (simp add: AddUnbondingTransaction_def SerializeBtcTransaction_def lib_result_def)
  moreover have "admissible_op (store si) (AddUnbonding (TxHash (store si) tx) ?u)"
    using store_backend.unbonding_msg_decodes(2) [OF B Inr ins len] by simp
  ultimately show ?thesis
    using store_backend.exec_op_refused [OF B ok, of "AddUnbonding (TxHash (store si) tx) ?u" d']
    by (cases r) (auto simp: lib_failure_def ledger_at_def simp del: apply_op.simps exec_op.simps)
qed

section \<open>Confirmed blocks\<close>

text \<open>C4: handling a confirmed block refines its specification. When it returns, the ledger is
  the result of all the steps of the block, the last of which saves its height; when it fails
  at any point, with an error, a panic or the end of the process, the ledger is the result of
  some first steps, and none of them is left half done. The database can be read throughout
  (\<open>reads_ok\<close>): a look-up that fails is skipped by the code.\<close>

theorem HandleConfirmedBlock_refines:
  assumes "store_backend (store si)" and "reads_ok si" and "block_ok C b"
    and "GetVersionedGlobalParamsByHeight si (u64_of_i32 (Height b)) = Some params"
    and "db_ok si s" and "HandleConfirmedBlock si b s = (r, s')"
  shows "case r of
      Inr _ \<Rightarrow> run_steps (block_steps si params b) (ledger_at si s) = Some (ledger_at si s')
    | Inl _ \<Rightarrow> \<exists>n. run_steps (take n (block_steps si params b)) (ledger_at si s) = Some (ledger_at si s')"
proof -
  note imp = indexer_env.implements_HandleConfirmedBlock [OF indexer_env.intro [OF assms(1)] assms(2-4)]
  show ?thesis
    using implements_Inr(2) [OF imp assms(5)] implements_Inl(2) [OF imp assms(5)] assms(6)
    by (cases r) auto
qed

text \<open>After a confirmed block the indexer resumes at the next height: that is what
  \<open>GetStartHeight\<close> returns.\<close>

lemma GetStartHeight_after_block:
  assumes B: "store_backend (store si)" and reads: "reads_ok si" and b: "block_ok C b" and ok: "db_ok si s"
    and run: "HandleConfirmedBlock si b s = (Inr (), s')"
  shows "GetStartHeight si (db s') = Inr (u64_of_i32 (Height b) + 1)"
proof -
  obtain params where par: "GetVersionedGlobalParamsByHeight si (u64_of_i32 (Height b)) = Some params"
    using run by (cases "GetVersionedGlobalParamsByHeight si (u64_of_i32 (Height b))")
      (auto simp: HandleConfirmedBlock_def getVersionedParams_def bind_eq lift_def)
  note imp = indexer_env.implements_HandleConfirmedBlock [OF indexer_env.intro [OF B] reads b par]
  have "height (ledger_at si s') = Some (u64_of_i32 (Height b))"
    using implements_Inr(2) [OF imp ok run]
    by (auto simp: block_steps_def Let_def run_steps_append save_step_def split: option.splits
        dest!: arg_cong [where f = height])
  moreover have "store_ok (store si) (db s')"
    using implements_Inr(1) [OF imp ok run] by (simp add: db_ok_def)
  ultimately show ?thesis
    using reads store_backend.GetLastProcessedHeight_ledger [OF B, of "db s'"]
    by (simp add: GetStartHeight_def reads_ok_def ledger_at_def)
qed

section \<open>Chains of blocks\<close>

text \<open>What a sequence of confirmed blocks does to the ledger.\<close>

fun chain_ledger :: "'db StakingIndexer \<Rightarrow> IndexedBlock list \<Rightarrow> ledger_step" where
  "chain_ledger si [] l = Some l"
| "chain_ledger si (b # bs) l =
     (case GetVersionedGlobalParamsByHeight si (u64_of_i32 (Height b)) of
        None \<Rightarrow> None
      | Some params \<Rightarrow>
          (case run_steps (block_steps si params b) l of None \<Rightarrow> None | Some l' \<Rightarrow> chain_ledger si bs l'))"

lemma chain_ledger_append:
  "chain_ledger si (bs @ cs) l = (case chain_ledger si bs l of None \<Rightarrow> None | Some l' \<Rightarrow> chain_ledger si cs l')"
  by (induction bs arbitrary: l) (auto split: option.split)

lemma keeps_db_unconfirmed_spend: "keeps_db (unconfirmed_spend si tx st amount)"
  unfolding unconfirmed_spend_def by (intro keeps_db_rules) (auto split: sum.split intro!: keeps_db_rules)

lemma keeps_db_unconfirmed_tx: "keeps_db (unconfirmed_tx si params b tx v)"
  by (cases v)
    (auto simp: unconfirmed_tx_def Let_def split: sum.split intro!: keeps_db_rules keeps_db_unconfirmed_spend)

lemma keeps_db_Calculate: "keeps_db (CalculateTvlInUnconfirmedBlocks si bs)"
  unfolding CalculateTvlInUnconfirmedBlocks_def unconfirmed_block_def
  by (intro keeps_db_rules keeps_db_unconfirmed_tx)

lemma keeps_db_processUnconfirmedInfo: "keeps_db (processUnconfirmedInfo si bs)"
  by (auto simp: processUnconfirmedInfo_def Let_def intro!: keeps_db_rules keeps_db_Calculate)

lemma on_error_fatal_Inr:
  assumes "on_error m (\<lambda>e. fatal msg) s = (Inr x, s')"
  shows "m s = (Inr x, s')"
  using assms by (auto elim!: on_error_Inr_cases simp: fatal_def)

lemma for_each_blocks:
  assumes B: "store_backend (store si)" and reads: "reads_ok si" and ok: "db_ok si s"
    and bs: "\<forall>b\<in>set bs. block_ok C b"
    and run: "for_each bs (\<lambda>b. on_error (HandleConfirmedBlock si b) (\<lambda>e. fatal msg)) s = (Inr (), s')"
  shows "db_ok si s' \<and> chain_ledger si bs (ledger_at si s) = Some (ledger_at si s')"
  using ok bs run
proof (induction bs arbitrary: s)
  case Nil
  then show ?case by (auto simp: ret_def)
next
  case (Cons b bs)
  from Cons.prems(3) obtain s1 where
    first: "on_error (HandleConfirmedBlock si b) (\<lambda>e. fatal msg) s = (Inr (), s1)"
    and rest: "for_each bs (\<lambda>b. on_error (HandleConfirmedBlock si b) (\<lambda>e. fatal msg)) s1 = (Inr (), s')"
    by (auto elim!: bind_Inr_cases)
  have h: "HandleConfirmedBlock si b s = (Inr (), s1)" by (rule on_error_fatal_Inr [OF first])
  then obtain params where par: "GetVersionedGlobalParamsByHeight si (u64_of_i32 (Height b)) = Some params"
    by (cases "GetVersionedGlobalParamsByHeight si (u64_of_i32 (Height b))")
      (auto simp: HandleConfirmedBlock_def getVersionedParams_def bind_eq lift_def)
  have "block_ok C b" using Cons.prems(2) by simp
  note imp = indexer_env.implements_HandleConfirmedBlock [OF indexer_env.intro [OF B] reads this par]
  from implements_Inr [OF imp Cons.prems(1) h] Cons.IH [OF _ _ rest] Cons.prems(2) par
  show ?case by simp
qed

lemma handle_update_ledger:
  assumes "store_backend (store si)" and "reads_ok si" and "db_ok si s"
    and "\<forall>b\<in>set (ConfirmedBlocks u). block_ok C b" and "handle_update si u s = (Inr (), s')"
  shows "db_ok si s' \<and> chain_ledger si (ConfirmedBlocks u) (ledger_at si s) = Some (ledger_at si s')"
proof -
  let ?rest = "on_error (processUnconfirmedInfo si (UnconfirmedBlocks u))
    (\<lambda>e. metric (failedProcessingUnconfirmedBlockCounter_update Suc))"
  from assms(5) obtain s1 where
    blocks: "for_each (ConfirmedBlocks u) (\<lambda>b. on_error (HandleConfirmedBlock si b)
      (\<lambda>e. fatal ''failed to handle block'')) s = (Inr (), s1)" and rest: "?rest s1 = (Inr (), s')"
    unfolding handle_update_def by (elim bind_Inr_cases) simp
  have "keeps_db ?rest" by (intro keeps_db_rules keeps_db_processUnconfirmedInfo)
  from run_inD [OF this rest] have "db s' = db s1" .
  with for_each_blocks [OF assms(1-4) blocks] same_db_ledger [of s' s1 si] show ?thesis by simp
qed

lemma blocksEventLoop_ledger:
  assumes B: "store_backend (store si)" and reads: "reads_ok si" and "db_ok si s"
    and "\<forall>u\<in>set updates. \<forall>b\<in>set (ConfirmedBlocks u). block_ok C b"
    and "blocksEventLoop si updates s = (Inr (), s')"
  shows "chain_ledger si (concat (map ConfirmedBlocks updates)) (ledger_at si s) = Some (ledger_at si s')"
  using assms(3-5)
proof (induction updates arbitrary: s)
  case Nil
  then show ?case by (simp add: blocksEventLoop_def ret_def)
next
  case (Cons u updates)
  from Cons.prems(3) obtain s1 where u: "handle_update si u s = (Inr (), s1)"
    and rest: "blocksEventLoop si updates s1 = (Inr (), s')"
    by (auto simp: blocksEventLoop_def elim!: bind_Inr_cases)
  have "\<forall>b\<in>set (ConfirmedBlocks u). block_ok C b" using Cons.prems(2) by simp
  from handle_update_ledger [OF B reads Cons.prems(1) this u] Cons.IH [OF _ _ rest] Cons.prems(2)
  show ?case by (simp add: chain_ledger_append)
qed

text \<open>C13: the index depends on the confirmed blocks only: after any sequence of updates the
  ledger is what the confirmed blocks, one after the other, make of it, however they were
  distributed over the updates and whatever the unconfirmed blocks beside them were. The
  database can be read throughout (\<open>reads_ok\<close>).\<close>

theorem index_of_chain:
  assumes B: "store_backend (store si)" and reads: "reads_ok si" and "db_ok si s"
    and "\<forall>u\<in>set updates. \<forall>b\<in>set (ConfirmedBlocks u). block_ok C b"
    and "blocksEventLoop si updates s = (Inr (), s')"
  shows "chain_ledger si (concat (map ConfirmedBlocks updates)) (ledger_at si s) = Some (ledger_at si s')"
  using assms by (rule blocksEventLoop_ledger)

section \<open>Unconfirmed blocks\<close>

abbreviation keeps_queue :: "('db state, 'a) prog \<Rightarrow> bool" where
  "keeps_queue \<equiv> run_in (\<lambda>s s'. queue s' = queue s)"

lemma keeps_queue_effects:
  "keeps_queue (store_read f)" "keeps_queue (metric g)" "keeps_queue (invalid_tx l)"
  by (auto simp: run_in_def store_read_def metric_def invalid_tx_def modify_def split: sum.split)

lemmas keeps_queue_rules = frame.run_rules [where obs = queue] keeps_queue_effects

lemma keeps_queue_Calculate: "keeps_queue (CalculateTvlInUnconfirmedBlocks si bs)"
proof -
  have spend: "keeps_queue (unconfirmed_spend si tx st amount)" for tx st amount
    unfolding unconfirmed_spend_def by (intro keeps_queue_rules) (auto split: sum.split intro!: keeps_queue_rules)
  have "keeps_queue (unconfirmed_tx si params b tx v)" for params b tx v
    by (cases v) (auto simp: unconfirmed_tx_def Let_def split: sum.split intro!: keeps_queue_rules spend)
  then show ?thesis
    unfolding CalculateTvlInUnconfirmedBlocks_def unconfirmed_block_def by (intro keeps_queue_rules)
qed

text \<open>C22: unconfirmed blocks change nothing in the store. When they are processed without an
  error, exactly one event is pushed, with the height of the last block, the confirmed TVL of
  the store and a total that is not negative; otherwise none is.\<close>

theorem processUnconfirmedInfo_effect:
  assumes run: "processUnconfirmedInfo si bs s = (r, s')"
  shows "db s' = db s \<and>
    (if bs \<noteq> [] \<and> r = Inr ()
     then \<exists>confirmed total. GetConfirmedTvl (store si) (db s) = Inr confirmed \<and> 0 \<le> sint total \<and>
       queue s' = queue s @ [BtcInfoEvent (u64_of_i32 (Height (last bs))) confirmed total]
     else queue s' = queue s)"
proof -
  have db: "db s' = db s" using run_inD [OF keeps_db_processUnconfirmedInfo run] .
  have calc: "db s1 = db s \<and> queue s1 = queue s" if "CalculateTvlInUnconfirmedBlocks si bs s = (r1, s1)" for r1 s1
    using run_inD [OF keeps_db_Calculate that] run_inD [OF keeps_queue_Calculate that] by simp
  show ?thesis
  proof (cases "CalculateTvlInUnconfirmedBlocks si bs s")
    case (Pair r1 s1)
    then show ?thesis
      using db run calc [OF Pair]
      by (auto simp: processUnconfirmedInfo_def Let_def bind_def wrap_error_def on_error_def attempt_def ret_def
          raise_def store_read_def si_GetConfirmedTvl_def push_event_def metric_def modify_def
          split: if_splits sum.splits fault.splits option.splits prod.splits)
  qed
qed

section \<open>Applications\<close>

interpretation sample_index: indexer_env sample_si
  by (rule indexer_env.intro) (simp add: sample.store_backend_axioms)

lemma sample_store: "store_backend (store sample_si)"
  by (simp add: sample.store_backend_axioms)

lemma reads_ok_sample: "reads_ok sample_si"
  by (simp add: reads_ok_def)

lemma db_ok_sample:
  "db_ok sample_si sample_start" "db_ok sample_si sample_state"
  using sample_index.reachable_index_ok reachable_sample_start reachable_sample_state
  by (simp_all add: index_ok_def)

definition sample_entry :: StakingTransaction where
  "sample_entry = the (staking (ledger_at sample_si sample_state) (sample_TxHash sample_stake))"

lemma sample_entry_stored:
  "staking (ledger_at sample_si sample_state) (sample_TxHash sample_stake) = Some sample_entry"
proof -
  have "staking (ledger_at sample_si sample_state) (sample_TxHash sample_stake) \<noteq> None" by code_simp
  then show ?thesis by (auto simp: sample_entry_def simp del: ledger_of_sel)
qed

theorem stored_stakes_valid_witness:
  "stake_valid sample_si sample_chain (sample_TxHash sample_stake) sample_entry \<and>
    (\<exists>ev\<in>set (queue sample_state). announces_stake sample_si (sample_TxHash sample_stake) sample_entry ev)"
  by (rule stored_stakes_valid [OF sample_store reachable_sample_state sample_entry_stored])

text \<open>The update that confirms the unbonding, too.\<close>

definition sample_update2 :: ChainUpdateInfo where
  "sample_update2 = \<lparr>ConfirmedBlocks = [sample_block 101 [sample_unbond]], UnconfirmedBlocks = []\<rparr>"

definition sample_state2 :: "mem_db state" where
  "sample_state2 = snd (handle_update sample_si sample_update2 sample_state)"

lemma sample_update2_ok: "\<forall>b\<in>set (ConfirmedBlocks sample_update2). block_ok sample_chain b"
  by (auto simp: sample_update2_def intro!: block_ok_sample_block) (simp add: sample_chain_def)

lemma reachable_sample_state2: "reachable sample_si sample_chain sample_state2"
  by (rule reachable.updated [OF reachable_sample_state sample_update2_ok,
      of "fst (handle_update sample_si sample_update2 sample_state)"]) (simp add: sample_state2_def)

definition sample_unbonding :: UnbondingTransaction where
  "sample_unbonding = the (unbonding (ledger_at sample_si sample_state2) (sample_TxHash sample_unbond))"

lemma sample_unbonding_stored:
  "unbonding (ledger_at sample_si sample_state2) (sample_TxHash sample_unbond) = Some sample_unbonding"
proof -
  have "unbonding (ledger_at sample_si sample_state2) (sample_TxHash sample_unbond) \<noteq> None" by code_simp
  then show ?thesis by (auto simp: sample_unbonding_def simp del: ledger_of_sel)
qed

theorem stored_unbondings_valid_witness:
  "unbonding_valid sample_si sample_chain (ledger_at sample_si sample_state2) (sample_TxHash sample_unbond)
      sample_unbonding \<and>
    (\<exists>ev\<in>set (queue sample_state2). announces_unbonding sample_si (sample_TxHash sample_unbond) sample_unbonding ev)"
  by (rule stored_unbondings_valid [OF sample_store reachable_sample_state2 sample_unbonding_stored])

theorem reachable_reads_succeed_witness:
  "(\<exists>st. GetStakingTransaction sample_backend (sample_TxHash sample_stake) (db sample_state) = Inr st) \<and>
   (\<exists>t. GetConfirmedTvl sample_backend (db sample_state) = Inr t)"
  using reachable_reads_succeed [OF sample_store reads_ok_sample reachable_sample_state, of "sample_TxHash sample_stake"]
  by auto

theorem handle_update_monotone_witness:
  "staking (ledger_at sample_si sample_state) \<subseteq>\<^sub>m staking (ledger_at sample_si sample_state2) \<and>
    unbonding (ledger_at sample_si sample_state) \<subseteq>\<^sub>m unbonding (ledger_at sample_si sample_state2) \<and>
    (\<exists>evs. queue sample_state2 = queue sample_state @ evs)"
  by (rule handle_update_monotone [OF sample_store reachable_sample_state sample_update2_ok,
      of "fst (handle_update sample_si sample_update2 sample_state)"]) (simp add: sample_state2_def)

text \<open>In the sample chain nothing is unbonded yet, and the active stake is small.\<close>

lemma sample_state_unbonding: "unbonding (ledger_at sample_si sample_state) h = None"
proof (rule ccontr)
  assume "unbonding (ledger_at sample_si sample_state) h \<noteq> None"
  then obtain u where u: "unbonding (ledger_at sample_si sample_state) h = Some u" by blast
  have "index_ok sample_si sample_chain sample_state"
    by (rule sample_index.reachable_index_ok [OF reachable_sample_state])
  with u have "unbonding_valid sample_si sample_chain (ledger_at sample_si sample_state) h u"
    by (simp add: index_ok_def)
  then have "h \<in> sample_TxHash ` sample_chain"
    by (auto simp: unbonding_valid_def sample_backend_def)
  moreover have "unbonding (ledger_at sample_si sample_state) (sample_TxHash sample_stake) = None" by code_simp
  moreover have "unbonding (ledger_at sample_si sample_state) (sample_TxHash sample_unbond) = None" by code_simp
  moreover have "unbonding (ledger_at sample_si sample_state) (sample_TxHash sample_withdraw) = None" by code_simp
  ultimately show False using u by (auto simp: sample_chain_def)
qed

lemma sample_stake_small:
  assumes "staking (ledger_at sample_si sample_state) h = Some p"
  shows "h \<in> sample_TxHash ` sample_chain" and "unat (p_StakingValue p) < 2 ^ 60"
proof -
  have "index_ok sample_si sample_chain sample_state"
    by (rule sample_index.reachable_index_ok [OF reachable_sample_state])
  with assms have "stake_valid sample_si sample_chain h p"
    by (simp add: index_ok_def)
  then obtain tx data ser where tx: "tx \<in> sample_chain" "h = sample_TxHash tx"
    and data: "tryParseStakingTx sample_si tx sample_params = Inr data"
    and p: "p = staking_msg sample_si data (p_InclusionHeight p) ser (p_IsOverflow p)"
    by (auto simp: stake_valid_def sample_backend_def sample_si_def split: if_splits)
  from tx(1) data have "StakingOutput data \<in> set (TxOut tx)"
    by (cases "TxOut tx") (auto simp: tryParseStakingTx_def sample_si_def sample_lib_def split: if_splits sum.splits)
  with tx(1) have "Value (StakingOutput data) \<in> {1000, 0, 900, 850}"
    by (auto simp: sample_chain_def sample_stake_def sample_unbond_def sample_withdraw_def)
  moreover have "p_StakingValue p = Value (StakingOutput data)" by (subst p) (simp add: staking_msg_def)
  ultimately show "unat (p_StakingValue p) < 2 ^ 60" by auto
  show "h \<in> sample_TxHash ` sample_chain" using tx by blast
qed

lemma sample_active_stake: "active_stake (ledger_at sample_si sample_state) < 2 ^ 64"
proof -
  let ?l = "ledger_at sample_si sample_state"
  have sub: "active ?l \<subseteq> sample_TxHash ` sample_chain"
    using sample_stake_small(1) by (auto simp: active_def simp del: ledger_of_sel)
  have "active_stake ?l \<le> of_nat (card (active ?l)) * 2 ^ 60"
    unfolding active_stake_def
  proof (rule sum_bounded_above)
    fix h
    assume "h \<in> active ?l"
    then obtain p where "staking ?l h = Some p" by (auto simp: active_def simp del: ledger_of_sel)
    with sample_stake_small(2) [OF this] show "unat (p_StakingValue (the (staking ?l h))) \<le> 2 ^ 60"
      by (simp del: ledger_of_sel)
  qed
  then have "active_stake ?l \<le> card (active ?l) * 2 ^ 60" by simp
  also have "card (active ?l) \<le> card (sample_TxHash ` sample_chain)"
    by (rule card_mono [OF _ sub]) (simp add: sample_chain_def)
  also have "card (sample_TxHash ` sample_chain) \<le> 3"
    unfolding sample_chain_def by (rule le_trans [OF card_image_le]) (simp_all add: card_insert_if)
  finally show ?thesis by simp
qed

theorem first_unbonding_accepted_witness:
  "snd (AddUnbondingTransaction sample_backend sample_unbond (sample_TxHash sample_stake) (db sample_state)) = None \<or>
   (\<exists>m. snd (AddUnbondingTransaction sample_backend sample_unbond (sample_TxHash sample_stake) (db sample_state)) =
     Some (LibErr m))"
proof (rule first_unbonding_accepted [OF sample_store reachable_sample_state, where tx = sample_unbond
      and sh = "sample_TxHash sample_stake"])
  show "no_double_spend (store sample_si) sample_chain" by (simp add: no_double_spend_sample)
  show "sample_TxHash sample_stake \<notin> unbonded_hashes (ledger_at sample_si sample_state)"
    by (simp add: unbonded_hashes_def sample_state_unbonding ran_def)
  show "active_stake (ledger_at sample_si sample_state) < 2 ^ 64" by (rule sample_active_stake)
  show "AddUnbondingTransaction (store sample_si) sample_unbond (sample_TxHash sample_stake) (db sample_state) =
      (fst (AddUnbondingTransaction sample_backend sample_unbond (sample_TxHash sample_stake) (db sample_state)),
       snd (AddUnbondingTransaction sample_backend sample_unbond (sample_TxHash sample_stake) (db sample_state)))"
    by simp
  show "TxIn sample_unbond \<noteq> []" by (simp add: sample_unbond_def)
qed (simp_all only: sample_state_unbonding sample_entry_stored length_sample_TxHash, simp_all)

text \<open>A block with the staking transaction and the one that unbonds it.\<close>

definition sample_both :: IndexedBlock where
  "sample_both = sample_block 100 [sample_stake, sample_unbond]"

definition sample_done :: "mem_db state" where
  "sample_done = snd (HandleConfirmedBlock sample_si sample_both sample_start)"

lemma block_ok_sample_both: "block_ok sample_chain sample_both"
  unfolding sample_both_def by (rule block_ok_sample_block) (simp add: sample_chain_def)

lemma sample_done_run: "HandleConfirmedBlock sample_si sample_both sample_start = (Inr (), sample_done)"
proof -
  have "fst (HandleConfirmedBlock sample_si sample_both sample_start) = Inr ()" by code_simp
  then show ?thesis by (simp add: sample_done_def prod_eq_iff)
qed

lemma sample_both_params:
  "GetVersionedGlobalParamsByHeight sample_si (u64_of_i32 (Height sample_both)) = Some sample_params"
  by (simp add: sample_si_def sample_both_def sample_block_def NewIndexedBlockFromMsgBlock_def u64_of_i32_def)

theorem HandleConfirmedBlock_refines_witness:
  "run_steps (block_steps sample_si sample_params sample_both) (ledger_at sample_si sample_start) =
    Some (ledger_at sample_si sample_done)"
  using HandleConfirmedBlock_refines [OF sample_store reads_ok_sample block_ok_sample_both sample_both_params
      db_ok_sample(1) sample_done_run] by simp

definition sample_one :: IndexedBlock where
  "sample_one = sample_block 100 [sample_stake]"

lemma block_ok_sample_one: "block_ok sample_chain sample_one"
  unfolding sample_one_def by (rule block_ok_sample_block) (simp add: sample_chain_def)

text \<open>Two updates, the second with an empty block.\<close>

definition sample_updates :: "ChainUpdateInfo list" where
  "sample_updates =
     [\<lparr>ConfirmedBlocks = [sample_one], UnconfirmedBlocks = []\<rparr>,
      \<lparr>ConfirmedBlocks = [sample_block 101 []], UnconfirmedBlocks = []\<rparr>]"

theorem index_of_chain_witness:
  "chain_ledger sample_si (concat (map ConfirmedBlocks sample_updates)) (ledger_at sample_si sample_start) =
    Some (ledger_at sample_si (snd (blocksEventLoop sample_si sample_updates sample_start)))"
proof (rule index_of_chain [OF sample_store reads_ok_sample db_ok_sample(1)])
  show "\<forall>u\<in>set sample_updates. \<forall>b\<in>set (ConfirmedBlocks u). block_ok sample_chain b"
    using block_ok_sample_one block_ok_sample_block [of "[]" 101] by (simp add: sample_updates_def)
  have "fst (blocksEventLoop sample_si sample_updates sample_start) = Inr ()" by code_simp
  then show "blocksEventLoop sample_si sample_updates sample_start =
      (Inr (), snd (blocksEventLoop sample_si sample_updates sample_start))"
    by (simp add: prod_eq_iff)
qed

theorem processUnconfirmedInfo_effect_witness:
  "\<exists>confirmed total. GetConfirmedTvl sample_backend (db sample_state) = Inr confirmed \<and> 0 \<le> sint total \<and>
     queue (snd (processUnconfirmedInfo sample_si [sample_block 101 [sample_unbond]] sample_state)) =
       queue sample_state @ [BtcInfoEvent (u64_of_i32 (Height (sample_block 101 [sample_unbond]))) confirmed total]"
proof -
  let ?run = "processUnconfirmedInfo sample_si [sample_block 101 [sample_unbond]] sample_state"
  have "fst ?run = Inr ()" by code_simp
  then have "?run = (Inr (), snd ?run)" by (simp add: prod_eq_iff)
  from processUnconfirmedInfo_effect [OF this] show ?thesis by simp
qed

end
