(* ===== verification/Forecast.thy ===== *)
theory Forecast
  imports Indexer_Correct
begin

text \<open>
  The TVL that \<open>CalculateTvlInUnconfirmedBlocks\<close> forecasts is the change of the confirmed TVL
  that the same blocks make when they are handled as confirmed blocks. The routine works on
  the database as it is and on the staking transactions it has met in the blocks; the
  relation \<open>forecast\<close> between these and the ledger after the blocks handled so far is kept by
  every transaction.
\<close>

section \<open>What the forecast relies on\<close>

text \<open>
  The staking library: a transfer has one input (and one output), a staking transaction is not
  a transfer, as it has a second output with its data, and the keys that were parsed are the
  ones that parsing their serialisation gives.
\<close>

locale forecast_env = indexer_env si for si :: "'db StakingIndexer" +
  assumes transfer_input: "IsTransferTx (lib si) tx = None \<Longrightarrow> length (TxIn tx) = 1"
    and staking_no_transfer: "ParseV0StakingTx (lib si) tx tag pks quorum net = Inr data \<Longrightarrow>
      IsTransferTx (lib si) tx \<noteq> None"
    and parsed_keys: "ParseV0StakingTx (lib si) tx tag pks quorum net = Inr data \<Longrightarrow>
      pk \<in> {StakerPublicKey (OpReturnData data), FinalityProviderPublicKey (OpReturnData data)} \<Longrightarrow>
      ParsePubKey (store si) (SerializePubKey (store si) pk) = Inr pk"

text \<open>The blocks are new: no two transactions have the same hash, and none is stored.\<close>

definition block_hashes :: "'db StakingIndexer \<Rightarrow> IndexedBlock list \<Rightarrow> hash list" where
  "block_hashes si bs = concat (map (\<lambda>b. map (\<lambda>tx. TxHash (store si) (MsgTx_of tx)) (Txs b)) bs)"

definition unseen :: "hash list \<Rightarrow> ledger \<Rightarrow> bool" where
  "unseen hs l \<longleftrightarrow> distinct hs \<and> (\<forall>h\<in>set hs. staking l h = None \<and> unbonding l h = None)"

text \<open>No staking transaction that one ledger has and the other has not is an overflow.\<close>

definition no_new_overflow :: "ledger \<Rightarrow> ledger \<Rightarrow> bool" where
  "no_new_overflow l l' \<longleftrightarrow>
     (\<forall>h p. staking l' h = Some p \<longrightarrow> staking l h = None \<longrightarrow> \<not> p_IsOverflow p)"

definition forecast ::
    "'db StakingIndexer \<Rightarrow> ledger \<Rightarrow> i64 \<times> (hash \<rightharpoonup> StoredStakingTransaction) \<Rightarrow> ledger \<Rightarrow> bool" where
  "forecast si l0 v l \<longleftrightarrow>
     current_tvl l = current_tvl l0 + fst v \<and> ledger_le l0 l \<and>
     (\<forall>h. stored_at si l h = (case snd v h of Some st \<Rightarrow> Some st | None \<Rightarrow> stored_at si l0 h)) \<and>
     (\<forall>h. snd v h \<noteq> None \<longrightarrow> stored_at si l0 h = None)"

section \<open>One transaction, confirmed\<close>

text \<open>The steps of a transaction touch the two maps at its own hash only.\<close>

lemma stake_step_unbonding: "stake_step si params h tx l = Some l' \<Longrightarrow> unbonding l' = unbonding l"
  by (auto simp: stake_step_def add_once_def split: sum.splits if_splits)

lemma unbond_step_frame:
  "unbond_step si tx txIn l = Some l' \<Longrightarrow> k \<noteq> TxHash (store si) tx \<Longrightarrow> unbonding l' k = unbonding l k"
  by (auto simp: unbond_step_def unbond_stored_def add_once_def split: sum.splits if_splits option.splits)

lemma unbond_steps_frame:
  assumes "run_steps (map (unbond_step si tx) ins) l = Some l'"
  shows "staking l' = staking l" and "k \<noteq> TxHash (store si) tx \<Longrightarrow> unbonding l' k = unbonding l k"
  using assms
  by (induction ins arbitrary: l)
    (auto split: option.splits dest: unbond_step_keeps(2) unbond_step_frame)

lemma tx_steps_frame:
  assumes "run_steps (tx_steps si params h tx) l = Some l'" and "k \<noteq> TxHash (store si) tx"
  shows "staking l' k = staking l k" and "unbonding l' k = unbonding l k"
proof -
  obtain l1 where l1: "stake_step si params h tx l = Some l1"
    "run_steps (map (unbond_step si tx) (TxIn tx)) l1 = Some l'"
    using assms(1) by (auto simp: tx_steps_def split: option.splits)
  show "staking l' k = staking l k"
    using unbond_steps_frame(1) [OF l1(2)] stake_step_keeps(2) [OF l1(1) assms(2)] by simp
  show "unbonding l' k = unbonding l k"
    using unbond_steps_frame(2) [OF l1(2) assms(2)] stake_step_unbonding [OF l1(1)] by simp
qed

lemma unseen_tx_steps:
  assumes "unseen (TxHash (store si) tx # hs) l" and "run_steps (tx_steps si params h tx) l = Some l'"
  shows "unseen hs l'"
proof -
  have "staking l' h = None \<and> unbonding l' h = None" if "h \<in> set hs" for h
  proof -
    have "h \<noteq> TxHash (store si) tx" and "staking l h = None" "unbonding l h = None"
      using assms(1) that by (auto simp: unseen_def)
    with tx_steps_frame [OF assms(2)] show ?thesis by simp
  qed
  with assms(1) show ?thesis by (simp add: unseen_def)
qed

lemma unseen_save: "unseen hs (l\<lparr>height := n\<rparr>) = unseen hs l"
  by (simp add: unseen_def)

lemma tx_steps_le: "run_steps (tx_steps si params h tx) l = Some l' \<Longrightarrow> ledger_le l l'"
  using run_steps_grow [of "tx_steps si params h tx" "{TxHash (store si) tx}" l l']
  by (auto simp: tx_steps_def stake_step_grows unbond_step_grows)

text \<open>A transaction that is not a transfer unbonds nothing.\<close>

lemma unbond_step_no_transfer:
  "IsTransferTx (lib si) tx \<noteq> None \<Longrightarrow> unbond_step si tx txIn l = Some l"
  by (auto simp: unbond_step_def unbond_stored_def IsValidUnbondingTx_def split: option.split)

lemma unbond_steps_no_transfer:
  "IsTransferTx (lib si) tx \<noteq> None \<Longrightarrow> run_steps (map (unbond_step si tx) ins) l = Some l"
  by (induction ins) (simp_all add: unbond_step_no_transfer)

text \<open>What the unbonding of a stored transaction does to the TVL.\<close>

lemma unbonding_spent_hash:
  assumes "IsValidUnbondingTx si tx st params = Inr True" and "TxIn tx = [txIn]"
  shows "Hash (PreviousOutPoint txIn) = TxHash (store si) (Tx st)"
  using IsValidUnbondingTx_spends [OF assms(1)] assms(2) by simp

lemma stored_at_flags:
  assumes "stored_at si l h = Some st"
  obtains p where "staking l h = Some p" and "p_IsOverflow p = IsOverflow st"
    and "p_StakingValue p = StakingValue st"
  using assms
  by (auto simp: stored_at_def protoStakingTxToStoredStakingTx_def split: option.splits sum.splits)

definition unbonds :: "'db StakingIndexer \<Rightarrow> MsgTx \<Rightarrow> StoredStakingTransaction \<Rightarrow> bool" where
  "unbonds si tx st \<longleftrightarrow>
     (case GetVersionedGlobalParamsByHeight si (InclusionHeight st) of
        None \<Rightarrow> False
      | Some params \<Rightarrow> IsValidUnbondingTx si tx st params = Inr True)"

definition released :: "'db StakingIndexer \<Rightarrow> MsgTx \<Rightarrow> StoredStakingTransaction \<Rightarrow> u64" where
  "released si tx st = (if unbonds si tx st \<and> \<not> IsOverflow st then StakingValue st else 0)"

lemma unbond_stored_tvl:
  assumes "unbond_stored si tx st l = Some l'" and "TxIn tx = [txIn]"
    and "stored_at si l (Hash (PreviousOutPoint txIn)) = Some st"
    and "unbonding l (TxHash (store si) tx) = None"
  shows "current_tvl l' = current_tvl l - released si tx st"
proof (cases "unbonds si tx st")
  case False
  with assms(1) show ?thesis
    by (auto simp: unbond_stored_def unbonds_def released_def split: option.splits if_splits)
next
  case True
  obtain p where p: "staking l (Hash (PreviousOutPoint txIn)) = Some p"
    "p_IsOverflow p = IsOverflow st" "p_StakingValue p = StakingValue st"
    by (rule stored_at_flags [OF assms(3)])
  from True obtain params where par: "GetVersionedGlobalParamsByHeight si (InclusionHeight st) = Some params"
    and valid: "IsValidUnbondingTx si tx st params = Inr True"
    by (auto simp: unbonds_def split: option.splits)
  note hash = unbonding_spent_hash [OF valid assms(2)]
  show ?thesis
    using assms(1,4) p(1) True
    by (auto simp: unbond_stored_def par valid released_def add_once_def hash p(2,3) current_tvl_def
        split: sum.splits if_splits option.splits)
qed

text \<open>The step that stores a staking transaction which is not stored yet.\<close>

lemma stake_step_fresh:
  assumes "stake_step si params h tx l = Some l'" and "staking l (TxHash (store si) tx) = None"
    and "tryParseStakingTx si tx params = Inr data" and "validateStakingTx params data = Inr ()"
  obtains ser ov where "Serialize (store si) tx = Inr ser"
    and "staking l' = (staking l)(TxHash (store si) tx \<mapsto> staking_msg si data h ser ov)"
    and "current_tvl l' = current_tvl l + (if ov then 0 else Value (StakingOutput data))"
proof -
  from assms obtain ser where ser: "Serialize (store si) tx = Inr ser"
    and add: "add_once (AddStaking (TxHash (store si) tx)
      (staking_msg si data h ser (spec_overflow params h l))) l = Some l'"
    by (auto simp: stake_step_def split: sum.splits)
  from add assms(2) have
    "staking l' = (staking l)(TxHash (store si) tx \<mapsto> staking_msg si data h ser (spec_overflow params h l))"
    "current_tvl l' = current_tvl l + (if spec_overflow params h l then 0 else Value (StakingOutput data))"
    by (auto simp: add_once_def current_tvl_def staking_msg_def)
  with that ser show ?thesis by blast
qed

section \<open>One transaction, unconfirmed\<close>

lemma unconfirmed_spend_result:
  assumes "unconfirmed_spend si tx st a s = (Inr a', s')"
  shows "a' = a - released si tx st"
  using assms
  by (auto simp: unconfirmed_spend_def released_def unbonds_def getVersionedParams_def attempt_def prog_simps
      split: option.splits sum.splits fault.splits if_splits)

lemma unconfirmed_spends_no_transfer:
  assumes "IsTransferTx (lib si) tx \<noteq> None" and "for_acc sts (unconfirmed_spend si tx) a s = (Inr a', s')"
  shows "a' = a"
  using assms(2)
proof (induction sts arbitrary: a s)
  case Nil
  then show ?case by (simp add: ret_def)
next
  case (Cons st sts)
  from Cons.prems obtain a1 s1 where "unconfirmed_spend si tx st a s = (Inr a1, s1)"
    and "for_acc sts (unconfirmed_spend si tx) a1 s1 = (Inr a', s')"
    by (auto elim: bind_Inr_cases)
  moreover have "released si tx st = 0"
    using assms(1) by (auto simp: released_def unbonds_def IsValidUnbondingTx_def split: option.splits)
  ultimately show ?case using Cons.IH unconfirmed_spend_result by fastforce
qed

text \<open>What the one input of a transfer spends.\<close>

definition spent_at :: "(hash \<rightharpoonup> StoredStakingTransaction) \<Rightarrow> TxIn \<Rightarrow> StoredStakingTransaction option" where
  "spent_at look txIn =
     (case look (Hash (PreviousOutPoint txIn)) of
        None \<Rightarrow> None
      | Some st \<Rightarrow> if spends_output txIn st then Some st else None)"

lemma spent_loop_single:
  "fst (spent_loop look spends_output i [txIn]) = (case spent_at look txIn of None \<Rightarrow> [] | Some st \<Rightarrow> [st])"
  by (simp add: spent_at_def split: option.split)

lemma unbond_step_tvl:
  assumes "unbond_step si tx txIn l = Some l'" and "TxIn tx = [txIn]"
    and "unbonding l (TxHash (store si) tx) = None"
  shows "current_tvl l' = current_tvl l -
    (case spent_at (stored_at si l) txIn of None \<Rightarrow> 0 | Some st \<Rightarrow> released si tx st)"
  using assms unbond_stored_tvl [OF _ assms(2) _ assms(3)]
  by (auto simp: unbond_step_def spent_at_def split: option.splits if_splits)

context forecast_env
begin

text \<open>The two look-ups of the forecast, first in the store and then in the unconfirmed
  transactions, find what is stored once the transactions before are confirmed.\<close>

lemma forecast_spent:
  assumes "forecast si l0 (a, U) l"
  shows "spent_at (stored_at si l) txIn =
    (case spent_at (stored_at si l0) txIn of Some st \<Rightarrow> Some st | None \<Rightarrow> spent_at U txIn)"
proof -
  let ?h = "Hash (PreviousOutPoint txIn)"
  have "stored_at si l ?h = (case U ?h of Some st \<Rightarrow> Some st | None \<Rightarrow> stored_at si l0 ?h)"
    and "U ?h \<noteq> None \<longrightarrow> stored_at si l0 ?h = None"
    using assms by (simp_all add: forecast_def)
  then show ?thesis by (auto simp: spent_at_def split: option.splits)
qed

text \<open>The record that the forecast builds is the one the look-up returns.\<close>

lemma stored_staking_msg:
  assumes "tryParseStakingTx si tx params = Inr data" and "Serialize (store si) tx = Inr ser"
    and "TxIn tx \<noteq> []"
  shows "protoStakingTxToStoredStakingTx (store si) (staking_msg si data h ser ov) =
    Inr \<lparr>Tx = tx, StakingOutputIdx = word_of_int (parsed_StakingOutputIdx data), InclusionHeight = h,
      StakerPk = StakerPublicKey (OpReturnData data), StakingTime = ucast (op_StakingTime (OpReturnData data)),
      FinalityProviderPk = FinalityProviderPublicKey (OpReturnData data), IsOverflow = ov,
      StakingValue = Value (StakingOutput data)\<rparr>"
proof -
  from assms(1) obtain tag pks quorum net where "ParseV0StakingTx (lib si) tx tag pks quorum net = Inr data"
    by (auto simp: tryParseStakingTx_def split: if_splits sum.splits)
  from parsed_keys [OF this] deserialize [OF assms(2,3)] show ?thesis
    by (simp add: protoStakingTxToStoredStakingTx_def staking_msg_def)
qed

lemma parsed_no_transfer: "tryParseStakingTx si tx params = Inr data \<Longrightarrow> IsTransferTx (lib si) tx \<noteq> None"
  by (auto simp: tryParseStakingTx_def split: if_splits sum.splits dest: staking_no_transfer)

text \<open>A staking transaction.\<close>

lemma forecast_staking:
  assumes "forecast si l0 (a, U) l" and "run_steps (tx_steps si params (u64_of_i32 (Height b)) tx) l = Some l'"
    and "unconfirmed_tx si params b tx (a, U) s = (Inr (a', U'), s')"
    and data: "tryParseStakingTx si tx params = Inr data" and "TxIn tx \<noteq> []"
    and "unseen (TxHash (store si) tx # hs) l" and "no_new_overflow l0 l'"
  shows "forecast si l0 (a', U') l'"
proof -
  let ?H = "TxHash (store si) tx"
  have step: "stake_step si params (u64_of_i32 (Height b)) tx l = Some l'"
    using assms(2) by (auto simp: tx_steps_def unbond_steps_no_transfer [OF parsed_no_transfer [OF data]]
        split: option.splits)
  have new: "staking l ?H = None" and "ledger_le l0 l"
    using assms(1,6) by (simp_all add: unseen_def forecast_def)
  then have new0: "staking l0 ?H = None"
    using ledger_le_staking [of l0 l ?H] by (cases "staking l0 ?H") auto
  show ?thesis
  proof (cases "validateStakingTx params data")
    case (Inl e)
    then have "l' = l" and "a' = a" "U' = U"
      using step assms(3) new by (auto simp: stake_step_def unconfirmed_tx_def data invalid_tx_def metric_def prog_simps)
    with assms(1) show ?thesis by simp
  next
    case (Inr x)
    then have valid: "validateStakingTx params data = Inr ()" by simp
    obtain ser ov where ser: "Serialize (store si) tx = Inr ser"
      and l': "staking l' = (staking l)(?H \<mapsto> staking_msg si data (u64_of_i32 (Height b)) ser ov)"
      and tvl: "current_tvl l' = current_tvl l + (if ov then 0 else Value (StakingOutput data))"
      by (rule stake_step_fresh [OF step new data valid])
    have "staking l' ?H = Some (staking_msg si data (u64_of_i32 (Height b)) ser ov)" by (simp add: l')
    with assms(7) new0 have "\<not> ov" by (fastforce simp: no_new_overflow_def staking_msg_def)
    moreover have "stored_at si l' h = (if h = ?H then Some \<lparr>Tx = tx,
        StakingOutputIdx = word_of_int (parsed_StakingOutputIdx data), InclusionHeight = u64_of_i32 (Height b),
        StakerPk = StakerPublicKey (OpReturnData data), StakingTime = ucast (op_StakingTime (OpReturnData data)),
        FinalityProviderPk = FinalityProviderPublicKey (OpReturnData data), IsOverflow = ov,
        StakingValue = Value (StakingOutput data)\<rparr> else stored_at si l h)" for h
      using stored_staking_msg [OF data ser assms(5)] l' by (simp add: stored_at_def)
    moreover have "stored_at si l0 ?H = None" using new0 by (simp add: stored_at_def)
    moreover have "ledger_le l0 l'"
      using assms(1) stake_step_keeps(1) [OF step] ledger_le_trans by (auto simp: forecast_def)
    ultimately show ?thesis
      using assms(1,3) tvl by (auto simp: forecast_def unconfirmed_tx_def data valid ret_def split: if_splits)
  qed
qed

text \<open>Any other transaction.\<close>

lemma forecast_spending:
  assumes reads: "reads_ok si" and ok: "db_ok si s" and l0: "l0 = ledger_at si s"
    and fc: "forecast si l0 (a, U) l"
    and steps: "run_steps (tx_steps si params (u64_of_i32 (Height b)) tx) l = Some l'"
    and run: "unconfirmed_tx si params b tx (a, U) s = (Inr (a', U'), s')"
    and data: "tryParseStakingTx si tx params = Inl e"
    and new: "unseen (TxHash (store si) tx # hs) l"
  shows "forecast si l0 (a', U') l'"
proof -
  let ?spent = "let stored = fst (getSpentStakingTxs si tx (db s)) in
    if stored = [] then fst (getSpentFromStakingTxs tx U) else stored"
  have unbond: "run_steps (map (unbond_step si tx) (TxIn tx)) l = Some l'"
    using steps by (simp add: tx_steps_def stake_step_def data)
  have acc: "for_acc ?spent (unconfirmed_spend si tx) a s = (Inr a', s')" and U: "U' = U"
    using run by (auto simp: unconfirmed_tx_def data Let_def gets_def ret_def bind_Inr elim!: bind_Inr_cases)
  have "current_tvl l' = current_tvl l + (a' - a)"
  proof (cases "IsTransferTx (lib si) tx")
    case (Some m)
    then show ?thesis
      using unconfirmed_spends_no_transfer [OF _ acc] unbond unbond_steps_no_transfer [of si tx "TxIn tx" l] by simp
  next
    case None
    then obtain txIn where ins: "TxIn tx = [txIn]"
      using transfer_input [of tx] by (cases "TxIn tx") auto
    have look: "(\<lambda>h. case GetStakingTxByHash si h (db s) of Inl _ \<Rightarrow> None | Inr r \<Rightarrow> r) = stored_at si l0"
      by (simp add: l0 GetStakingTxByHash_def read_staking [OF reads ok])
    have "?spent = (case spent_at (stored_at si l) txIn of None \<Rightarrow> [] | Some st \<Rightarrow> [st])"
      unfolding getSpentStakingTxs_def getSpentFromStakingTxs_def ins spent_loop_single look
      by (simp add: Let_def forecast_spent [OF fc] split: option.split)
    with acc have "a' = a - (case spent_at (stored_at si l) txIn of None \<Rightarrow> 0 | Some st \<Rightarrow> released si tx st)"
      by (auto simp: ret_def split: option.splits elim!: bind_Inr_cases dest: unconfirmed_spend_result)
    moreover have "unbond_step si tx txIn l = Some l'" using unbond ins by (simp split: option.splits)
    note unbond_step_tvl [OF this ins]
    ultimately show ?thesis using new by (simp add: unseen_def)
  qed
  moreover have "ledger_le l0 l'"
    using fc tx_steps_le [OF steps] ledger_le_trans by (auto simp: forecast_def)
  ultimately show ?thesis
    using fc U unbond_steps_frame(1) [OF unbond] by (simp add: forecast_def stored_at_def)
qed

lemma forecast_tx:
  assumes "reads_ok si" and "db_ok si s" and "l0 = ledger_at si s" and "forecast si l0 (a, U) l"
    and "run_steps (tx_steps si params (u64_of_i32 (Height b)) tx) l = Some l'"
    and "unconfirmed_tx si params b tx (a, U) s = (Inr (a', U'), s')"
    and "TxIn tx \<noteq> []" and "unseen (TxHash (store si) tx # hs) l" and "no_new_overflow l0 l'"
  shows "forecast si l0 (a', U') l'"
proof (cases "tryParseStakingTx si tx params")
  case (Inl e)
  then show ?thesis by (rule forecast_spending [OF assms(1-6) _ assms(8)])
next
  case (Inr data)
  then show ?thesis by (rule forecast_staking [OF assms(4-6) _ assms(7-9)])
qed

section \<open>Blocks\<close>

lemma no_new_overflow_le: "no_new_overflow l l'' \<Longrightarrow> ledger_le l' l'' \<Longrightarrow> no_new_overflow l l'"
  unfolding no_new_overflow_def by (blast intro: ledger_le_staking)

lemma txs_steps_le:
  "run_steps (concat (map (tx_steps si params h) txs)) l = Some l' \<Longrightarrow> ledger_le l l'"
  by (induction txs arbitrary: l)
    (auto simp: run_steps_append split: option.splits intro: ledger_le_trans dest: tx_steps_le)

lemma block_steps_run:
  assumes "run_steps (block_steps si params b) l = Some l'"
  obtains l1 where "run_steps (concat (map (tx_steps si params (u64_of_i32 (Height b))) (map MsgTx_of (Txs b)))) l = Some l1"
    and "l' = l1\<lparr>height := Some (u64_of_i32 (Height b))\<rparr>" and "ledger_le l l'"
proof -
  from assms obtain l1 where l1: "run_steps (concat (map (tx_steps si params (u64_of_i32 (Height b))) (map MsgTx_of (Txs b)))) l = Some l1"
    "l' = l1\<lparr>height := Some (u64_of_i32 (Height b))\<rparr>"
    by (auto simp: block_steps_def Let_def run_steps_append save_step_def comp_def split: option.splits)
  moreover have "ledger_le l l'" using txs_steps_le [OF l1(1)] l1(2) by (simp add: ledger_le_def)
  ultimately show ?thesis by (rule that)
qed

lemma chain_ledger_le: "chain_ledger si bs l = Some l' \<Longrightarrow> ledger_le l l'"
  by (induction bs arbitrary: l)
    (auto split: option.splits elim!: block_steps_run intro: ledger_le_trans)

lemma forecast_txs:
  assumes "reads_ok si" and "db_ok si s" and "forecast si (ledger_at si s) v l"
    and "run_steps (concat (map (tx_steps si params (u64_of_i32 (Height b))) txs)) l = Some l'"
    and "for_acc txs (unconfirmed_tx si params b) v s = (Inr v', s')"
    and "\<forall>tx\<in>set txs. TxIn tx \<noteq> []" and "unseen (map (TxHash (store si)) txs @ hs) l"
    and "no_new_overflow (ledger_at si s) l'"
  shows "forecast si (ledger_at si s) v' l' \<and> unseen hs l' \<and> db s' = db s"
  using assms(2-)
proof (induction txs arbitrary: v l s)
  case Nil
  then show ?case by (simp add: ret_def)
next
  case (Cons tx txs)
  obtain a U where v: "v = (a, U)" by fastforce
  from Cons.prems(3) obtain l1 where l1: "run_steps (tx_steps si params (u64_of_i32 (Height b)) tx) l = Some l1"
    and rest: "run_steps (concat (map (tx_steps si params (u64_of_i32 (Height b))) txs)) l1 = Some l'"
    by (auto simp: run_steps_append split: option.splits)
  from Cons.prems(4) obtain v1 s1 where v1: "unconfirmed_tx si params b tx v s = (Inr v1, s1)"
    and acc: "for_acc txs (unconfirmed_tx si params b) v1 s1 = (Inr v', s')"
    by (auto elim: bind_Inr_cases)
  have db: "db s1 = db s" by (rule run_inD [OF keeps_db_unconfirmed_tx v1])
  note same = same_db_ledger [OF db]
  have "no_new_overflow (ledger_at si s) l1"
    by (rule no_new_overflow_le [OF Cons.prems(7) txs_steps_le [OF rest]])
  then have "forecast si (ledger_at si s) v1 l1"
    using forecast_tx [OF assms(1) Cons.prems(1) refl _ l1, of a U "fst v1" "snd v1" s1] Cons.prems(2,5,6) v1
    by (simp add: v)
  moreover have "unseen (map (TxHash (store si)) txs @ hs) l1"
    using unseen_tx_steps [OF _ l1] Cons.prems(6) by simp
  ultimately show ?case
    using Cons.IH [of s1 v1 l1] Cons.prems(1,5,7) rest acc by (simp add: same db)
qed

lemma forecast_blocks:
  assumes "reads_ok si" and "db_ok si s" and "forecast si (ledger_at si s) v l"
    and "chain_ledger si bs l = Some l'" and "for_acc bs (unconfirmed_block si) v s = (Inr v', s')"
    and "\<forall>b\<in>set bs. block_ok C b" and "unseen (block_hashes si bs) l"
    and "no_new_overflow (ledger_at si s) l'"
  shows "forecast si (ledger_at si s) v' l'"
  using assms(2-)
proof (induction bs arbitrary: v l s)
  case Nil
  then show ?case by (simp add: ret_def)
next
  case (Cons b bs)
  from Cons.prems(3) obtain params l1 where par: "GetVersionedGlobalParamsByHeight si (u64_of_i32 (Height b)) = Some params"
    and b: "run_steps (block_steps si params b) l = Some l1" and rest: "chain_ledger si bs l1 = Some l'"
    by (auto split: option.splits)
  from b obtain l2 where l2: "run_steps (concat (map (tx_steps si params (u64_of_i32 (Height b))) (map MsgTx_of (Txs b)))) l = Some l2"
    and l1: "l1 = l2\<lparr>height := Some (u64_of_i32 (Height b))\<rparr>"
    by (rule block_steps_run)
  from Cons.prems(4) obtain v1 s1 where
    v1: "for_acc (map MsgTx_of (Txs b)) (unconfirmed_tx si params b) v s = (Inr v1, s1)"
    and acc: "for_acc bs (unconfirmed_block si) v1 s1 = (Inr v', s')"
    by (auto simp: unconfirmed_block_def [of si b] getVersionedParams_def par lift_def bind_Inr elim!: bind_Inr_cases)
  have "ledger_le l2 l1" by (simp add: l1 ledger_le_def)
  then have "no_new_overflow (ledger_at si s) l2"
    using no_new_overflow_le [OF Cons.prems(7)] ledger_le_trans chain_ledger_le [OF rest] by blast
  moreover have "unseen (map (TxHash (store si)) (map MsgTx_of (Txs b)) @ block_hashes si bs) l"
    using Cons.prems(6) by (simp add: block_hashes_def comp_def)
  ultimately have "forecast si (ledger_at si s) v1 l2 \<and> unseen (block_hashes si bs) l2 \<and> db s1 = db s"
    using Cons.prems(5) by (intro forecast_txs [OF assms(1) Cons.prems(1,2) l2 v1]) (auto simp: block_ok_def)
  then show ?case
    using Cons.IH [of s1 v1 l1] Cons.prems(1,5,7) rest acc
    by (simp add: same_db_ledger [of s1 s] l1 unseen_save forecast_def stored_at_def ledger_le_def)
qed

end

text \<open>The event that is pushed for unconfirmed blocks.\<close>

lemma processUnconfirmedInfo_event:
  assumes "processUnconfirmedInfo si bs s = (Inr (), s')" and "bs \<noteq> []"
  obtains t s1 confirmed where "CalculateTvlInUnconfirmedBlocks si bs s = (Inr t, s1)"
    and "GetConfirmedTvl (store si) (db s) = Inr confirmed"
    and "queue s' = queue s @ [BtcInfoEvent (u64_of_i32 (Height (last bs))) confirmed (confirmed + t)]"
proof -
  from assms obtain t s1 confirmed s2 where calc: "CalculateTvlInUnconfirmedBlocks si bs s = (Inr t, s1)"
    and read: "store_read (si_GetConfirmedTvl si) s1 = (Inr confirmed, s2)"
    and push: "(if sint (confirmed + t) < 0 then raise (Errorf ''total tvl is negative'')
        else bind (wrap_error ''failed to push the unconfirmed event''
            (push_event si (BtcInfoEvent (u64_of_i32 (Height (last bs))) confirmed (confirmed + t)))) (\<lambda>_.
          metric (lastCalculatedTvl_update (\<lambda>_. sint (confirmed + t))))) s2 = (Inr (), s')"
    unfolding processUnconfirmedInfo_def Let_def by (auto elim!: bind_Inr_cases)
  note db = run_inD [OF keeps_db_Calculate calc] and queue = run_inD [OF keeps_queue_Calculate calc]
  from push have "queue s' = queue s2 @ [BtcInfoEvent (u64_of_i32 (Height (last bs))) confirmed (confirmed + t)]"
    by (auto simp: metric_def modify_def raise_def elim!: bind_Inr_cases dest!: push_event_Inr split: if_splits)
  moreover from read have "GetConfirmedTvl (store si) (db s1) = Inr confirmed" and "s2 = s1"
    by (auto simp: store_read_def si_GetConfirmedTvl_def split: sum.splits)
  ultimately show ?thesis using that [OF calc] by (simp add: db queue)
qed


text \<open>C7: the unconfirmed TVL is the confirmed TVL to come. When the unconfirmed blocks are
  processed without an error and then, with nothing in between, handled as confirmed blocks, the
  total TVL of the pushed event is exactly the confirmed TVL that the store has afterwards,
  provided that the transactions of the blocks are new to the store, none of them is stored as
  an overflow, and the database can be read (\<open>reads_ok\<close>).\<close>

theorem unconfirmed_tvl_forecast:
  assumes "forecast_env si" and "reads_ok si" and "db_ok si s" and "bs \<noteq> []" and "\<forall>b\<in>set bs. block_ok C b"
    and "unseen (block_hashes si bs) (ledger_at si s)"
    and "processUnconfirmedInfo si bs s = (Inr (), s1)"
    and "handle_update si \<lparr>ConfirmedBlocks = bs, UnconfirmedBlocks = us\<rparr> s1 = (Inr (), s2)"
    and "no_new_overflow (ledger_at si s) (ledger_at si s2)"
  shows "\<exists>confirmed total. GetConfirmedTvl (store si) (db s) = Inr confirmed \<and>
    GetConfirmedTvl (store si) (db s2) = Inr total \<and>
    queue s1 = queue s @ [BtcInfoEvent (u64_of_i32 (Height (last bs))) confirmed total]"
proof -
  obtain t s3 confirmed where t: "CalculateTvlInUnconfirmedBlocks si bs s = (Inr t, s3)"
    and confirmed: "GetConfirmedTvl (store si) (db s) = Inr confirmed"
    and queue: "queue s1 = queue s @ [BtcInfoEvent (u64_of_i32 (Height (last bs))) confirmed (confirmed + t)]"
    by (rule processUnconfirmedInfo_event [OF assms(7,4)])
  have B: "store_backend (store si)"
    using assms(1) by (simp add: forecast_env_def indexer_env_def)
  have tvl: "GetConfirmedTvl (store si) (db s') = Inr (current_tvl (ledger_at si s'))" if "db_ok si s'" for s'
    using assms(2) that store_backend.GetConfirmedTvl_ledger [OF B, of "db s'"]
    by (simp add: reads_ok_def db_ok_def ledger_at_def)
  have db: "db s1 = db s" by (rule run_inD [OF keeps_db_processUnconfirmedInfo assms(7)])
  have s2: "db_ok si s2 \<and> chain_ledger si bs (ledger_at si s) = Some (ledger_at si s2)"
    using handle_update_ledger [OF B assms(2) _ _ assms(8)] assms(3,5) by (simp add: same_db_ledger [OF db])
  from t obtain U where "for_acc bs (unconfirmed_block si) (0, Map.empty) s = (Inr (t, U), s3)"
    by (auto simp: CalculateTvlInUnconfirmedBlocks_def ret_def elim!: bind_Inr_cases)
  with s2 have "forecast si (ledger_at si s) (t, U) (ledger_at si s2)"
    using assms(5) by (intro forecast_env.forecast_blocks [OF assms(1-3) _ _ _ _ assms(6,9)]) (auto simp: forecast_def)
  with tvl [of s] tvl [of s2] s2 confirmed queue assms(3) show ?thesis by (simp add: forecast_def)
qed

section \<open>Overflow\<close>

text \<open>The proviso is needed: the forecast counts a staking transaction whether or not it will be
  an overflow, and an overflow does not count once it is confirmed.\<close>

lemma forecast_counts_overflow:
  assumes "GetVersionedGlobalParamsByHeight si (u64_of_i32 (Height b)) = Some params"
    and "map MsgTx_of (Txs b) = [tx]" and "tryParseStakingTx si tx params = Inr data"
    and "validateStakingTx params data = Inr ()" and "IsTransferTx (lib si) tx \<noteq> None"
    and "spec_overflow params (u64_of_i32 (Height b)) l" and "chain_ledger si [b] l = Some l'"
  shows "CalculateTvlInUnconfirmedBlocks si [b] s = (Inr (Value (StakingOutput data)), s)"
    and "current_tvl l' = current_tvl l"
proof -
  show "CalculateTvlInUnconfirmedBlocks si [b] s = (Inr (Value (StakingOutput data)), s)"
    by (simp add: CalculateTvlInUnconfirmedBlocks_def unconfirmed_block_def getVersionedParams_def assms(1-4)
        unconfirmed_tx_def prog_simps)
  obtain t where b: "Txs b = [t]" "MsgTx_of t = tx" using assms(2) by auto
  from assms(7) show "current_tvl l' = current_tvl l"
    by (auto simp: assms(1) block_steps_def Let_def b tx_steps_def stake_step_def assms(3,4,6) save_step_def
        unbond_steps_no_transfer [OF assms(5)] run_steps_append add_once_def staking_msg_def current_tvl_def
        split: option.splits sum.splits if_splits)
qed

section \<open>An application\<close>

interpretation sample_forecast: forecast_env sample_si
proof (unfold_locales, goal_cases)
  case (1 tx)
  then show ?case by (simp add: sample_si_def sample_lib_def split: if_splits)
next
  case (2 tx tag pks quorum net data)
  then show ?case by (auto simp: sample_si_def sample_lib_def split: if_splits)
next
  case (3 tx tag pks quorum net data pk)
  then show ?case by (simp add: sample_backend_def nat_codec.get_put_fst)
qed

text \<open>A staking transaction and its unbonding, forecast and then confirmed.\<close>

definition sample_foreseen :: "mem_db state" where
  "sample_foreseen = snd (processUnconfirmedInfo sample_si [sample_both] sample_start)"

definition sample_confirming :: ChainUpdateInfo where
  "sample_confirming = \<lparr>ConfirmedBlocks = [sample_both], UnconfirmedBlocks = []\<rparr>"

definition sample_confirmed :: "mem_db state" where
  "sample_confirmed = snd (handle_update sample_si sample_confirming sample_foreseen)"

lemma sample_foreseen_run: "processUnconfirmedInfo sample_si [sample_both] sample_start = (Inr (), sample_foreseen)"
proof -
  have "fst (processUnconfirmedInfo sample_si [sample_both] sample_start) = Inr ()" by code_simp
  then show ?thesis by (simp add: sample_foreseen_def prod_eq_iff)
qed

lemma sample_confirmed_run: "handle_update sample_si sample_confirming sample_foreseen = (Inr (), sample_confirmed)"
proof -
  have "fst (handle_update sample_si sample_confirming sample_foreseen) = Inr ()" by code_simp
  then show ?thesis by (simp add: sample_confirmed_def prod_eq_iff)
qed

lemma sample_start_ledger: "ledger_at sample_si sample_start = empty_ledger"
  by (simp add: ledger_at_def ledger_of_def empty_ledger_def sample_start_def NewIndexerStore_def initBuckets_def
      sample_backend_def empty_db_def staking_of_def unbonding_of_def fun_eq_iff)

lemma sample_both_unseen: "unseen (block_hashes sample_si [sample_both]) (ledger_at sample_si sample_start)"
proof -
  have "distinct (block_hashes sample_si [sample_both])" by code_simp
  then show ?thesis by (simp add: unseen_def sample_start_ledger empty_ledger_def)
qed

lemma sample_both_counted:
  "case chain_ledger sample_si [sample_both] empty_ledger of
     None \<Rightarrow> False
   | Some l \<Rightarrow> (case staking l (sample_TxHash sample_stake) of None \<Rightarrow> True | Some p \<Rightarrow> \<not> p_IsOverflow p) \<and>
       staking l (sample_TxHash sample_unbond) = None \<and> staking l (sample_TxHash sample_withdraw) = None"
  by code_simp

lemma sample_no_overflow:
  "no_new_overflow (ledger_at sample_si sample_start) (ledger_at sample_si sample_confirmed)"
  unfolding no_new_overflow_def
proof (intro allI impI)
  fix h p
  assume p: "staking (ledger_at sample_si sample_confirmed) h = Some p"
  have b: "\<forall>b\<in>set (ConfirmedBlocks sample_confirming). block_ok sample_chain b"
    by (simp add: sample_confirming_def block_ok_sample_both)
  have foreseen: "reachable sample_si sample_chain sample_foreseen"
    by (rule reachable.updated [OF reachable_sample_start, of "\<lparr>ConfirmedBlocks = [], UnconfirmedBlocks = [sample_both]\<rparr>"])
      (simp_all add: handle_update_def prog_simps on_error_def attempt_def sample_foreseen_run)
  have "chain_ledger sample_si [sample_both] empty_ledger = Some (ledger_at sample_si sample_confirmed)"
    using handle_update_ledger [OF sample_store reads_ok_sample _ b sample_confirmed_run]
      sample_index.reachable_index_ok [OF foreseen] run_inD [OF keeps_db_processUnconfirmedInfo sample_foreseen_run]
    by (simp add: index_ok_def sample_start_ledger [symmetric] same_db_ledger [of sample_foreseen sample_start]
        sample_confirming_def)
  moreover have "stake_valid sample_si sample_chain h p"
    using p sample_index.reachable_index_ok [OF reachable.updated [OF foreseen b sample_confirmed_run]]
    by (simp add: index_ok_def)
  then have "h \<in> sample_TxHash ` sample_chain"
    by (auto simp: stake_valid_def sample_backend_def)
  ultimately show "\<not> p_IsOverflow p"
    using p sample_both_counted by (auto simp: sample_chain_def simp del: ledger_of_sel)
qed

theorem unconfirmed_tvl_forecast_witness:
  "\<exists>confirmed total. GetConfirmedTvl sample_backend (db sample_start) = Inr confirmed \<and>
    GetConfirmedTvl sample_backend (db sample_confirmed) = Inr total \<and>
    queue sample_foreseen = queue sample_start @ [BtcInfoEvent (u64_of_i32 (Height sample_both)) confirmed total]"
proof -
  have "\<forall>b\<in>set [sample_both]. block_ok sample_chain b" by (simp add: block_ok_sample_both)
  from unconfirmed_tvl_forecast [OF sample_forecast.forecast_env_axioms reads_ok_sample db_ok_sample(1) _ this
      sample_both_unseen sample_foreseen_run sample_confirmed_run [unfolded sample_confirming_def] sample_no_overflow]
  show ?thesis by simp
qed

end
