(* ===== verification/Event_Order.thy ===== *)
theory Event_Order
  imports Indexer_Correct
begin

text \<open>
  The order of the events. The consumer learns of a staking transaction before it learns of its
  unbonding or its withdrawal: in the sequence of all events, over failures and restarts, every
  unbonding and every withdrawal event comes after an active staking event for the same staking
  transaction.
\<close>

section \<open>Events and what they are about\<close>

text \<open>The staking transaction that an event opens, and the one that it says is being spent.\<close>

fun opens_hash :: "event \<Rightarrow> string option" where
  "opens_hash (ActiveStakingEvent txHash _ _ _ _ _ _ _ _ _) = Some txHash"
| "opens_hash _ = None"

fun spends_hash :: "event \<Rightarrow> string option" where
  "spends_hash (UnbondingStakingEvent stakingHash _ _ _ _ _ _) = Some stakingHash"
| "spends_hash (WithdrawStakingEvent stakingHash) = Some stakingHash"
| "spends_hash _ = None"

definition opened :: "event list \<Rightarrow> string set" where
  "opened q = {h. \<exists>ev\<in>set q. opens_hash ev = Some h}"

definition in_order :: "event list \<Rightarrow> bool" where
  "in_order q \<longleftrightarrow> (\<forall>i<length q. \<forall>h. spends_hash (q ! i) = Some h \<longrightarrow> h \<in> opened (take i q))"

lemma opened_append [simp]: "opened (q @ q') = opened q \<union> opened q'"
  by (auto simp: opened_def)

text \<open>Events that may follow a queue: they spend nothing, or what the queue has opened.\<close>

definition may_follow :: "string set \<Rightarrow> event \<Rightarrow> bool" where
  "may_follow H ev \<longleftrightarrow> (\<forall>h. spends_hash ev = Some h \<longrightarrow> h \<in> H)"

lemma may_follow_opens [simp]:
  "may_follow H (ActiveStakingEvent a b c d e f g h i j)" "may_follow H (BtcInfoEvent x y z)"
  "may_follow H (ConfirmedInfoEvent x y)"
  by (simp_all add: may_follow_def)

lemma in_order_append:
  assumes "in_order q" and "\<forall>ev\<in>set evs. may_follow (opened q) ev"
  shows "in_order (q @ evs)"
  unfolding in_order_def
proof (intro allI impI)
  fix i h
  assume i: "i < length (q @ evs)" and h: "spends_hash ((q @ evs) ! i) = Some h"
  show "h \<in> opened (take i (q @ evs))"
  proof (cases "i < length q")
    case True
    then show ?thesis using assms(1) h by (simp add: in_order_def nth_append)
  next
    case False
    then have "evs ! (i - length q) \<in> set evs" using i by simp
    with assms(2) h False show ?thesis by (auto simp: may_follow_def nth_append)
  qed
qed

section \<open>What the handlers push\<close>

definition pushes :: "string set \<Rightarrow> 'db state \<Rightarrow> 'db state \<Rightarrow> bool" where
  "pushes H s s' \<longleftrightarrow> (\<exists>evs. queue s' = queue s @ evs \<and> (\<forall>ev\<in>set evs. may_follow H ev))"

interpretation pushes: state_preorder "pushes H" for H
proof
  fix s t u :: "'a state"
  show "pushes H s s" by (simp add: pushes_def)
  assume "pushes H s t" and "pushes H t u"
  then show "pushes H s u" by (auto simp: pushes_def)
qed

lemma pushes_same_queue: "queue s' = queue s \<Longrightarrow> pushes H s s'"
  by (simp add: pushes_def)

lemma pushes_event: "may_follow H ev \<Longrightarrow> run_in (pushes H) (push_event si ev)"
  by (rule run_inI) (auto simp: push_event_def pushes_def split: option.split)

lemma pushes_effects:
  "run_in (pushes H) (store_read f)" "run_in (pushes H) (store_write w)" "run_in (pushes H) (metric g)"
  "run_in (pushes H) (invalid_tx l)"
  by (auto simp: run_in_def store_read_def store_write_def metric_def invalid_tx_def modify_def
      intro!: pushes_same_queue split: sum.split prod.split option.split)

lemma pushes_wrap: "run_in (pushes H) m \<Longrightarrow> run_in (pushes H) (wrap_error msg m)"
  unfolding wrap_error_def by (intro pushes.run_rules)

lemma pushes_count: "run_in (pushes H) m \<Longrightarrow> run_in (pushes H) (count_error c m)"
  unfolding count_error_def by (intro pushes.run_rules pushes_effects)

lemmas pushes_rules = pushes.run_ret pushes.run_raise pushes.run_panic pushes.run_fatal pushes.run_lift
  pushes.run_gets pushes.run_bind pushes.run_attempt pushes.run_on_error pushes.run_for_each
  pushes.run_for_acc pushes_event pushes_effects pushes_wrap pushes_count

lemma pushes_ProcessStakingTx: "run_in (pushes H) (ProcessStakingTx si tx stakingData h ts params)"
  unfolding ProcessStakingTx_def si_addStakingTransaction_def Let_def
  by (auto split: option.split sum.split intro!: pushes_rules)

lemma pushes_ProcessUnbondingTx:
  "hash_String si sh \<in> H \<Longrightarrow> run_in (pushes H) (ProcessUnbondingTx si tx sh h ts params)"
  unfolding ProcessUnbondingTx_def by (auto simp: may_follow_def intro!: pushes_rules)

lemma pushes_processWithdrawTx:
  "hash_String si sh \<in> H \<Longrightarrow> run_in (pushes H) (processWithdrawTx si tx sh uh h)"
  unfolding processWithdrawTx_def by (auto simp: may_follow_def intro!: pushes_rules)

lemma pushes_handleSpendingStaking:
  assumes "hash_String si (TxHash (store si) (Tx stakingTx)) \<in> H"
  shows "run_in (pushes H) (handleSpendingStakingTransaction si tx stakingTx i h ts)"
  unfolding handleSpendingStakingTransaction_def Let_def
  by (intro pushes_rules)
    (auto split: sum.split intro!: pushes_rules pushes_ProcessUnbondingTx pushes_processWithdrawTx assms)

lemma pushes_handleSpendingUnbonding:
  assumes "hash_String si (StakingTxHash unbondingTx) \<in> H"
  shows "run_in (pushes H) (handleSpendingUnbondingTransaction si tx unbondingTx i h)"
  unfolding handleSpendingUnbondingTransaction_def
  by (intro pushes_rules)
    (auto split: option.split sum.split intro!: pushes_rules pushes_processWithdrawTx assms)

lemma pushes_finish_block: "run_in (pushes H) (finish_block si b)"
  unfolding finish_block_def Let_def by (auto intro!: pushes_rules)

text \<open>Unconfirmed blocks push at most one event, and that is about no staking transaction.\<close>

lemma pushes_processUnconfirmedInfo: "run_in (pushes H) (processUnconfirmedInfo si bs)"
proof -
  have calc: "run_in (pushes H) (CalculateTvlInUnconfirmedBlocks si bs)"
    using keeps_queue_Calculate by (auto simp: run_in_def intro: pushes_same_queue)
  show ?thesis
    unfolding processUnconfirmedInfo_def Let_def by (auto intro!: pushes_rules calc)
qed

section \<open>The order is kept\<close>

text \<open>The relation of a run that keeps the invariant of the indexer and the order of its events.\<close>

definition ordered_run :: "'db StakingIndexer \<Rightarrow> MsgTx set \<Rightarrow> 'db state \<Rightarrow> bool" where
  "ordered_run si C s \<longleftrightarrow> index_ok si C s \<and> in_order (queue s)"

lemma ordered_runI:
  assumes "ordered_run si C s" and "progress si C s s'" and "pushes (opened (queue s)) s s'"
  shows "ordered_run si C s'"
  using assms in_order_append by (auto simp: ordered_run_def pushes_def intro: progress_index_ok)

abbreviation keeps_order :: "'db StakingIndexer \<Rightarrow> MsgTx set \<Rightarrow> ('db state, 'a) prog \<Rightarrow> bool" where
  "keeps_order si C \<equiv> run_in (\<lambda>s s'. ordered_run si C s \<longrightarrow> ordered_run si C s')"

lemma keeps_orderI:
  assumes "run_in (progress si C) m" and "\<And>H. run_in (pushes H) m"
  shows "keeps_order si C m"
  unfolding run_in_def using assms by (intro allI impI) (erule ordered_runI, simp_all add: run_in_def)

lemma announces_stake_opens: "announces_stake si h p ev \<Longrightarrow> opens_hash ev = Some (hash_String si h)"
  by (cases ev) simp_all

context indexer_env
begin

lemma stored_opened:
  assumes "ordered_run si C s" and "staking (ledger_at si s) h = Some p"
  shows "hash_String si h \<in> opened (queue s)"
proof -
  from assms obtain ev where "ev \<in> set (queue s)" "announces_stake si h p ev"
    unfolding ordered_run_def index_ok_def by blast
  then show ?thesis unfolding opened_def by (blast dest: announces_stake_opens)
qed

lemma ordered_db_ok: "ordered_run si C s \<Longrightarrow> db_ok si s"
  by (simp add: ordered_run_def index_ok_def)

lemma spent_unbonding_stored:
  assumes "db_ok si s" and "getSpentUnbondingTxs si tx (db s) = (uts, is)" and "(ut, i) \<in> set (zip uts is)"
  obtains p where "staking (ledger_at si s) (StakingTxHash ut) = Some p"
proof (rule spent_loop_stored [OF assms(2) [unfolded getSpentUnbondingTxs_def] assms(3)])
  fix txIn
  assume "(case GetUnbondingTxByHash si (Hash (PreviousOutPoint txIn)) (db s) of Inl _ \<Rightarrow> None | Inr r \<Rightarrow> r) = Some ut"
  then have "GetUnbondingTransaction (store si) (Hash (PreviousOutPoint txIn)) (db s) = Inr (Some ut)"
    by (cases "GetUnbondingTransaction (store si) (Hash (PreviousOutPoint txIn)) (db s)")
      (simp_all add: GetUnbondingTxByHash_def)
  moreover have "store_ok (store si) (db s)" "BeginRead (store si) (db s) = None"
    using assms(1) calculation
    by (auto simp: db_ok_def GetUnbondingTransaction_def View_def split: option.splits)
  ultimately obtain st where "GetStakingTransaction (store si) (StakingTxHash ut) (db s) = Inr (Some st)"
    using GetUnbondingTransaction_total [of "db s" "Hash (PreviousOutPoint txIn)"] by auto
  then show ?thesis by (rule GetStakingTransaction_stored [OF assms(1)]) (rule that)
qed

text \<open>The two loops, each with the look-up that it follows.\<close>

lemma keeps_order_stakings:
  assumes ins: "TxIn tx \<noteq> []" "tx \<in> C" and "keeps_order si C k"
  shows "keeps_order si C (bind (gets (\<lambda>s. getSpentStakingTxs si tx (db s))) (\<lambda>(stakingTxs, is).
    bind (for_each (zip stakingTxs is) (\<lambda>(stakingTx, i).
      handleSpendingStakingTransaction si tx stakingTx i h ts)) (\<lambda>_. k)))"
proof (rule run_inI)
  fix s :: "'db state"
  obtain stakingTxs "is" where spent: "getSpentStakingTxs si tx (db s) = (stakingTxs, is)" by fastforce
  let ?loop = "for_each (zip stakingTxs is) (\<lambda>(stakingTx, i). handleSpendingStakingTransaction si tx stakingTx i h ts)"
  have "ordered_run si C (snd (?loop s))" if ord: "ordered_run si C s"
  proof (rule ordered_runI [OF ord progress_spending_loop [OF ins spent]])
    have "hash_String si (TxHash (store si) (Tx st)) \<in> opened (queue s)" if "(st, i) \<in> set (zip stakingTxs is)" for st i
      using getSpentStakingTxs_stored [OF ordered_db_ok [OF ord] that spent] stored_opened [OF ord]
      by (auto simp: stored_in_def)
    then have "run_in (pushes (opened (queue s))) ?loop"
      by (intro pushes_rules) (auto intro!: pushes_handleSpendingStaking)
    then show "pushes (opened (queue s)) s (snd (?loop s))" by (simp add: run_in_def)
  qed
  then have "ordered_run si C s \<longrightarrow> ordered_run si C (snd (bind ?loop (\<lambda>_. k) s))"
    using assms(3) by (intro keeps.bind_at) (auto simp: run_in_def)
  then show "ordered_run si C s \<longrightarrow> ordered_run si C (snd (bind (gets (\<lambda>s. getSpentStakingTxs si tx (db s)))
      (\<lambda>(stakingTxs, is). bind (for_each (zip stakingTxs is) (\<lambda>(stakingTx, i).
        handleSpendingStakingTransaction si tx stakingTx i h ts)) (\<lambda>_. k)) s))"
    by (simp add: bind_eq [of "gets _"] gets_def spent)
qed

lemma keeps_order_unbondings:
  "keeps_order si C (bind (gets (\<lambda>s. getSpentUnbondingTxs si tx (db s))) (\<lambda>(unbondingTxs, is).
    for_each (zip unbondingTxs is) (\<lambda>(unbondingTx, i). handleSpendingUnbondingTransaction si tx unbondingTx i h)))"
proof (rule run_inI)
  fix s :: "'db state"
  obtain uts "is" where spent: "getSpentUnbondingTxs si tx (db s) = (uts, is)" by fastforce
  let ?loop = "for_each (zip uts is) (\<lambda>(ut, i). handleSpendingUnbondingTransaction si tx ut i h)"
  have loop: "run_in (progress si C) ?loop"
    by (intro run_effects) (auto intro!: run_handleSpendingUnbondingTransaction)
  have "ordered_run si C (snd (?loop s))" if ord: "ordered_run si C s"
  proof (rule ordered_runI [OF ord])
    have "hash_String si (StakingTxHash ut) \<in> opened (queue s)" if "(ut, i) \<in> set (zip uts is)" for ut i
      by (rule spent_unbonding_stored [OF ordered_db_ok [OF ord] spent that]) (rule stored_opened [OF ord])
    then have "run_in (pushes (opened (queue s))) ?loop"
      by (intro pushes_rules) (auto intro!: pushes_handleSpendingUnbonding)
    with loop show "progress si C s (snd (?loop s))" "pushes (opened (queue s)) s (snd (?loop s))"
      by (simp_all add: run_in_def)
  qed
  then show "ordered_run si C s \<longrightarrow> ordered_run si C (snd (bind (gets (\<lambda>s. getSpentUnbondingTxs si tx (db s)))
      (\<lambda>(unbondingTxs, is). for_each (zip unbondingTxs is) (\<lambda>(unbondingTx, i).
        handleSpendingUnbondingTransaction si tx unbondingTx i h)) s))"
    by (simp add: bind_eq [of "gets _"] gets_def spent)
qed

lemma keeps_order_confirmed_tx:
  assumes ins: "TxIn tx \<noteq> []" "tx \<in> C"
    and par: "GetVersionedGlobalParamsByHeight si (u64_of_i32 (Height b)) = Some params"
  shows "keeps_order si C (confirmed_tx si params b tx)"
proof -
  have "keeps_order si C (case tryParseStakingTx si tx params of Inl _ \<Rightarrow> ret ()
      | Inr stakingData \<Rightarrow> wrap_error m (count_error f
          (ProcessStakingTx si tx stakingData (u64_of_i32 (Height b)) ts params)))" for m f ts
    using ins par
    by (intro keeps_orderI)
      (auto split: sum.split intro!: run_effects run_process_staking pushes_rules pushes_ProcessStakingTx)
  then show ?thesis
    unfolding confirmed_tx_def Let_def
    by (intro keeps.run_bind keeps_order_stakings [OF ins] keeps_order_unbondings)
qed

lemma keeps_order_HandleConfirmedBlock:
  assumes "block_ok C b"
  shows "keeps_order si C (HandleConfirmedBlock si b)"
proof (cases "GetVersionedGlobalParamsByHeight si (u64_of_i32 (Height b))")
  case None
  then show ?thesis
    by (simp add: run_in_def HandleConfirmedBlock_def getVersionedParams_def bind_eq lift_def)
next
  case (Some params)
  have "keeps_order si C (confirmed_tx si params b (MsgTx_of tx))" if "tx \<in> set (Txs b)" for tx
    using assms that keeps_order_confirmed_tx [OF _ _ Some] by (simp add: block_ok_def)
  then show ?thesis
    unfolding HandleConfirmedBlock_params [OF Some]
    by (intro keeps.run_rules keeps_orderI [OF run_finish_block pushes_finish_block])
qed

lemma keeps_order_handle_update:
  assumes "\<forall>b\<in>set (ConfirmedBlocks update). block_ok C b"
  shows "keeps_order si C (handle_update si update)"
proof -
  have "keeps_order si C (processUnconfirmedInfo si (UnconfirmedBlocks update))"
    by (intro keeps_orderI run_processUnconfirmedInfo pushes_processUnconfirmedInfo)
  moreover have "keeps_order si C (metric f)" for f
    by (intro keeps_orderI run_metric pushes_effects)
  ultimately show ?thesis
    unfolding handle_update_def
    using assms by (intro keeps.run_rules keeps_order_HandleConfirmedBlock) blast
qed

lemma reachable_ordered: "reachable si C s \<Longrightarrow> ordered_run si C s"
proof (induction rule: reachable.induct)
  case (opened d d')
  then show ?case by (simp add: ordered_run_def index_ok_opened in_order_def)
next
  case (updated s update r s')
  then show ?case using run_inD [OF keeps_order_handle_update] by blast
next
  case (reopened s d')
  then show ?case by (simp add: ordered_run_def index_ok_reopened)
qed

end

text \<open>C9: the consumer learns of a staking transaction before it learns of its end. In the sequence
  of all events that any reachable state has pushed, over failed updates and restarts, every
  unbonding event and every withdrawal event comes after an active staking event for the
  staking transaction that it names.\<close>

theorem events_in_order:
  assumes "store_backend (store si)" and "reachable si C s" and "i < length (queue s)"
    and "spends_hash (queue s ! i) = Some h"
  shows "\<exists>j<i. opens_hash (queue s ! j) = Some h"
proof -
  have "ordered_run si C s" by (rule indexer_env.reachable_ordered [OF indexer_env.intro [OF assms(1)] assms(2)])
  with assms(3,4) have "h \<in> opened (take i (queue s))" by (simp add: ordered_run_def in_order_def)
  then obtain ev where "ev \<in> set (take i (queue s))" "opens_hash ev = Some h" by (auto simp: opened_def)
  with assms(3) show ?thesis unfolding in_set_conv_nth by auto
qed

section \<open>Application\<close>

text \<open>In the sample run the fourth event is the unbonding of the staking transaction.\<close>

lemma sample_fourth_event:
  obtains h where "3 < length (queue sample_state2)" and "spends_hash (queue sample_state2 ! 3) = Some h"
proof -
  have "case drop 3 (queue sample_state2) of [] \<Rightarrow> False | ev # _ \<Rightarrow> spends_hash ev \<noteq> None" by code_simp
  then obtain ev evs where ev: "drop 3 (queue sample_state2) = ev # evs" "spends_hash ev \<noteq> None"
    by (auto split: list.splits)
  then have "3 < length (queue sample_state2)" by (cases "3 < length (queue sample_state2)") simp_all
  moreover have "queue sample_state2 ! 3 = ev" using ev(1) by (metis nth_via_drop)
  ultimately show ?thesis using ev(2) that by blast
qed

theorem events_in_order_witness:
  "\<exists>h. spends_hash (queue sample_state2 ! 3) = Some h \<and> (\<exists>j<3. opens_hash (queue sample_state2 ! j) = Some h)"
  by (rule sample_fourth_event) (use events_in_order [OF sample_store reachable_sample_state2, of 3] in blast)

end
