(* ===== verification/Cap.thy ===== *)
theory Cap
  imports Indexer_Correct
begin

text \<open>
  The staking cap over whole runs. A staking transaction counts when the confirmed TVL is below
  the cap at the time it is stored, whatever its own value is: the cap can be exceeded by the
  last transaction that counts, and by no more. With caps based on the value, the active stake
  stays below the largest cap plus the largest staking amount, and the TVL that the store keeps
  is the active stake as a number, without wrap-around.
\<close>

section \<open>The steps of a block\<close>

definition caps_within :: "'db StakingIndexer \<Rightarrow> nat \<Rightarrow> nat \<Rightarrow> bool" where
  "caps_within si K M \<longleftrightarrow>
     (\<forall>h params. GetVersionedGlobalParamsByHeight si h = Some params \<longrightarrow>
        CapHeight params = 0 \<and> unat (StakingCap params) \<le> K \<and>
        0 \<le> sint (MinStakingAmount params) \<and> sint (MaxStakingAmount params) \<le> int M)"

text \<open>Ledgers whose active stake is below a bound, and the steps that keep it there.\<close>

definition bounded_ledger :: "nat \<Rightarrow> ledger \<Rightarrow> bool" where
  "bounded_ledger n l \<longleftrightarrow> ledger_wf l \<and> balanced l \<and> active_stake l < n"

definition keeps_bound :: "nat \<Rightarrow> ledger_step \<Rightarrow> bool" where
  "keeps_bound n f \<longleftrightarrow>
     (\<forall>l l'. f l = Some l' \<longrightarrow> ledger_le l l' \<and>
        (bounded_ledger n l \<longrightarrow> single_unbonding l' \<longrightarrow> bounded_ledger n l'))"

lemma single_unbonding_le: "ledger_le l l' \<Longrightarrow> single_unbonding l' \<Longrightarrow> single_unbonding l"
  unfolding single_unbonding_def by (blast dest: ledger_le_unbonding)

lemma unbonded_hashes_le: "ledger_le l l' \<Longrightarrow> unbonded_hashes l \<subseteq> unbonded_hashes l'"
  unfolding unbonded_hashes_def by (blast dest: ledger_le_unbonding)

lemma keeps_bound_run:
  assumes "\<forall>f\<in>set fs. keeps_bound n f"
  shows "keeps_bound n (run_steps fs)"
  using assms
proof (induction fs)
  case Nil
  then show ?case by (simp add: keeps_bound_def)
next
  case (Cons f fs)
  show ?case
    unfolding keeps_bound_def
  proof (intro allI impI)
    fix l l'
    assume "run_steps (f # fs) l = Some l'"
    then obtain l1 where l1: "f l = Some l1" "run_steps fs l1 = Some l'" by (auto split: option.splits)
    have f: "keeps_bound n f" and fs: "keeps_bound n (run_steps fs)" using Cons by simp_all
    have "ledger_le l l1" and le: "ledger_le l1 l'" using f fs l1 by (auto simp: keeps_bound_def)
    then show "ledger_le l l' \<and> (bounded_ledger n l \<longrightarrow> single_unbonding l' \<longrightarrow> bounded_ledger n l')"
      using f fs l1 single_unbonding_le [OF le] ledger_le_trans unfolding keeps_bound_def by blast
  qed
qed

text \<open>What the ledger operations do to the active stake.\<close>

lemma active_stake_mono:
  assumes "ledger_wf l" and "active l' \<subseteq> active l" and "staking l' = staking l"
  shows "active_stake l' \<le> active_stake l"
  unfolding active_stake_def assms(3) by (rule sum_mono2 [OF finite_active [OF assms(1)] assms(2)]) simp

lemma active_stake_unbonding:
  assumes "ledger_wf l" and "apply_op (AddUnbonding h u) l = Inr l'"
  shows "active_stake l' \<le> active_stake l"
proof (rule active_stake_mono [OF assms(1)])
  show st: "staking l' = staking l" using assms(2) by (auto split: option.splits if_splits)
  show "active l' \<subseteq> active l"
    using unbonded_hashes_le [OF apply_op_le [OF assms(2)]] by (auto simp: active_def st)
qed

lemma active_stake_staking:
  assumes "ledger_wf l" and "apply_op (AddStaking h p) l = Inr l'"
  shows "active_stake l' = active_stake l + (if p_IsOverflow p then 0 else unat (p_StakingValue p))"
proof -
  from assms(2) have fresh: "staking l h = None" and maps: "staking l' = (staking l)(h \<mapsto> p)" "unbonding l' = unbonding l"
    by (auto split: if_splits)
  have h: "h \<notin> unbonded_hashes l" "h \<notin> active l"
    using unbonded_hashes_subset [OF assms(1)] fresh by (auto simp: active_def)
  have same: "unbonded_hashes l' = unbonded_hashes l" by (simp add: unbonded_hashes_def maps)
  have act: "active l' = (if p_IsOverflow p then active l else insert h (active l))"
    using h fresh by (auto simp: active_def same maps)
  have "(\<Sum>k\<in>active l. unat (p_StakingValue (the (staking l' k)))) = active_stake l"
    unfolding active_stake_def using h(2) by (intro sum.cong) (auto simp: maps)
  with h(2) finite_active [OF assms(1)] show ?thesis
    unfolding active_stake_def act by (simp add: maps)
qed

lemma add_once_op:
  "add_once op l = Some l' \<Longrightarrow> l' = l \<or> apply_op op l = Inr l'"
  by (auto simp: add_once_def split: sum.splits if_splits)

lemma bounded_op:
  assumes "bounded_ledger n l" and "apply_op op l = Inr l'" and "active_stake l' < n"
  shows "bounded_ledger n l'"
  using assms apply_op_wf [OF assms(2)] apply_op_balanced [OF assms(2)] by (simp add: bounded_ledger_def)

lemma bounded_tvl:
  assumes "bounded_ledger n l" and "single_unbonding l" and "n \<le> 2 ^ 64"
  shows "unat (current_tvl l) = active_stake l"
proof -
  have "active_stake l < 2 ^ 64" using assms(1,3) by (simp add: bounded_ledger_def)
  moreover have "current_tvl l = word_of_nat (active_stake l)"
    using balanced_active_stake [OF _ _ assms(2)] assms(1) by (simp add: bounded_ledger_def)
  ultimately show ?thesis by (simp add: unat_of_nat take_bit_nat_eq_self)
qed

lemma keeps_bound_save: "keeps_bound n (save_step h)"
proof -
  have "apply_op (SaveHeight h) l = Inr l'" if "save_step h l = Some l'" for l l'
    using that by (simp add: save_step_def)
  moreover have "active_stake l' = active_stake l" if "save_step h l = Some l'" for l l'
    using that by (auto simp: save_step_def active_stake_def active_def unbonded_hashes_def)
  ultimately show ?thesis
    unfolding keeps_bound_def by (metis apply_op_le bounded_op bounded_ledger_def)
qed

lemma keeps_bound_unbond_stored: "keeps_bound n (unbond_stored si tx stakingTx)"
proof -
  have "l' = l \<or> (\<exists>h u. apply_op (AddUnbonding h u) l = Inr l')" if "unbond_stored si tx stakingTx l = Some l'" for l l'
    using that
    by (auto simp: unbond_stored_def simp del: apply_op.simps
        split: option.splits if_splits sum.splits dest!: add_once_op)
  moreover have "bounded_ledger n l'" if "apply_op (AddUnbonding h u) l = Inr l'" "bounded_ledger n l" for h u l l'
    using bounded_op [OF that(2,1)] active_stake_unbonding [OF _ that(1)] that(2) by (simp add: bounded_ledger_def)
  ultimately show ?thesis
    unfolding keeps_bound_def by (metis apply_op_le ledger_le_refl)
qed

lemma keeps_bound_unbond_step: "keeps_bound n (unbond_step si tx txIn)"
  unfolding keeps_bound_def
proof (intro allI impI)
  fix l l'
  assume "unbond_step si tx txIn l = Some l'"
  then have "l' = l \<or> (\<exists>stakingTx. unbond_stored si tx stakingTx l = Some l')"
    by (auto simp: unbond_step_def split: option.splits if_splits)
  then show "ledger_le l l' \<and> (bounded_ledger n l \<longrightarrow> single_unbonding l' \<longrightarrow> bounded_ledger n l')"
    using keeps_bound_unbond_stored [of n si tx] unfolding keeps_bound_def by auto
qed

text \<open>A staking transaction that counts was stored while the TVL was below the cap.\<close>

lemma staking_value_bound:
  assumes "validateStakingTx params stakingData = Inr ()" and "0 \<le> sint (MinStakingAmount params)"
    and "sint (MaxStakingAmount params) \<le> int M"
  shows "unat (Value (StakingOutput stakingData)) \<le> M"
proof -
  let ?v = "Value (StakingOutput stakingData)"
  from assms have v: "0 \<le> sint ?v" "sint ?v \<le> int M"
    by (auto simp: validateStakingTx_def Let_def split: if_splits)
  from v(1) have "sint ?v = uint ?v" using sint_lt [of ?v] by (simp add: uint_sint take_bit_int_eq_self)
  with v(2) show ?thesis by (simp add: nat_le_iff flip: nat_uint_eq)
qed

lemma keeps_bound_stake_step:
  assumes "caps_within si K M" and "K + M \<le> 2 ^ 64"
    and par: "GetVersionedGlobalParamsByHeight si h = Some params"
  shows "keeps_bound (K + M) (stake_step si params h tx)"
  unfolding keeps_bound_def
proof (intro allI impI)
  fix l l'
  assume step: "stake_step si params h tx l = Some l'"
  have caps: "CapHeight params = 0" "unat (StakingCap params) \<le> K" "0 \<le> sint (MinStakingAmount params)"
    "sint (MaxStakingAmount params) \<le> int M"
    using assms(1) par unfolding caps_within_def by blast+
  from step consider "l' = l" | stakingData ser where "validateStakingTx params stakingData = Inr ()"
    "apply_op (AddStaking (TxHash (store si) tx) (staking_msg si stakingData h ser (spec_overflow params h l))) l = Inr l'"
    by (auto simp: stake_step_def simp del: apply_op.simps split: sum.splits if_splits dest!: add_once_op)
  then show "ledger_le l l' \<and> (bounded_ledger (K + M) l \<longrightarrow> single_unbonding l' \<longrightarrow> bounded_ledger (K + M) l')"
  proof cases
    case 2
    note le = apply_op_le [OF 2(2)]
    have "bounded_ledger (K + M) l'" if b: "bounded_ledger (K + M) l" and "single_unbonding l'"
    proof (rule bounded_op [OF b 2(2)])
      have wf: "ledger_wf l" using b by (simp add: bounded_ledger_def)
      have tvl: "unat (current_tvl l) = active_stake l"
        by (rule bounded_tvl [OF b single_unbonding_le [OF le that(2)] assms(2)])
      show "active_stake l' < K + M"
      proof (cases "spec_overflow params h l")
        case True
        then show ?thesis
          using active_stake_staking [OF wf 2(2)] b by (simp add: staking_msg_def bounded_ledger_def)
      next
        case False
        then have "active_stake l < K"
          using caps(1,2) tvl by (simp add: spec_overflow_def not_le word_less_nat_alt)
        with active_stake_staking [OF wf 2(2)] staking_value_bound [OF 2(1) caps(3,4)] False show ?thesis
          by (simp add: staking_msg_def)
      qed
    qed
    with le show ?thesis by blast
  qed simp
qed

text \<open>A run that implements such steps keeps the bound, whatever its outcome.\<close>

lemma implements_bounded:
  assumes imp: "implements si m fs s" and fs: "\<forall>f\<in>set fs. keeps_bound n f" and run: "m s = (r, s')"
    and ok: "db_ok si s" and "bounded_ledger n (ledger_at si s)" and "single_unbonding (ledger_at si s')"
  shows "bounded_ledger n (ledger_at si s')"
proof -
  obtain k where k: "run_steps (take k fs) (ledger_at si s) = Some (ledger_at si s')"
  proof (cases r)
    case (Inl f)
    with that implements_Inl(2) [OF imp ok] run show ?thesis by blast
  next
    case (Inr x)
    with that [of "length fs"] implements_Inr(2) [OF imp ok] run show ?thesis by simp
  qed
  have "keeps_bound n (run_steps (take k fs))" by (rule keeps_bound_run) (use fs in \<open>auto dest: in_set_takeD\<close>)
  with k assms(5,6) show ?thesis unfolding keeps_bound_def by blast
qed

section \<open>Updates\<close>

lemma keeps_bound_block_steps:
  assumes "caps_within si K M" and "K + M \<le> 2 ^ 64"
    and "GetVersionedGlobalParamsByHeight si (u64_of_i32 (Height b)) = Some params"
    and "f \<in> set (block_steps si params b)"
  shows "keeps_bound (K + M) f"
  using assms(4) keeps_bound_stake_step [OF assms(1-3)] keeps_bound_unbond_step keeps_bound_save
  by (auto simp: block_steps_def tx_steps_def Let_def)

text \<open>The steps of an update are those of its confirmed blocks, up to the first one without
  parameters, at which the process ends.\<close>

definition confirmed_steps :: "'db StakingIndexer \<Rightarrow> IndexedBlock \<Rightarrow> ledger_step list" where
  "confirmed_steps si b =
     (case GetVersionedGlobalParamsByHeight si (u64_of_i32 (Height b)) of
        None \<Rightarrow> []
      | Some params \<Rightarrow> block_steps si params b)"

context indexer_env
begin

lemma implements_confirmed_block:
  assumes "reads_ok si" and "block_ok C b"
  shows "implements si (HandleConfirmedBlock si b) (confirmed_steps si b) s"
proof (cases "GetVersionedGlobalParamsByHeight si (u64_of_i32 (Height b))")
  case None
  then have "db (snd (HandleConfirmedBlock si b s)) = db s"
    by (simp add: HandleConfirmedBlock_def getVersionedParams_def bind_eq lift_def)
  then show ?thesis by (simp add: confirmed_steps_def None implements_nothing)
next
  case (Some params)
  then show ?thesis
    using implements_HandleConfirmedBlock [OF assms Some] by (simp add: confirmed_steps_def)
qed

lemma implements_handle_update:
  assumes "reads_ok si" and "\<forall>b\<in>set (ConfirmedBlocks u). block_ok C b"
  shows "implements si (handle_update si u) (concat (map (confirmed_steps si) (ConfirmedBlocks u))) s"
proof -
  have "implements si (on_error (HandleConfirmedBlock si b) (\<lambda>e. fatal msg)) (confirmed_steps si b) s"
    if "b \<in> set (ConfirmedBlocks u)" for b msg s
    using implements_confirmed_block [OF assms(1)] assms(2) that
    by (intro implements_on_error_raise) (auto simp: fatal_def)
  then have "implements si (handle_update si u)
      (concat (map (confirmed_steps si) (ConfirmedBlocks u)) @ []) s"
    unfolding handle_update_def
    by (intro implements_bind implements_for_each implements_keeps_db keeps_db_rules
        keeps_db_processUnconfirmedInfo)
  then show ?thesis by simp
qed

lemma reachable_bounded:
  assumes "reads_ok si" and "no_double_spend (store si) C" and "caps_within si K M"
    and "K + M \<le> 2 ^ 64" and "0 < K + M" and "reachable si C s"
  shows "bounded_ledger (K + M) (ledger_at si s)"
  using assms(6)
proof (induction rule: reachable.induct)
  case (opened d d')
  note f = fresh_db_ledger [OF opened(1)]
  have wf: "ledger_wf (ledger_of (store si) d)" by (simp add: f(2))
  have "ledger_of (store si) d' = empty_ledger"
    using store_ok_NewIndexerStore(2) [OF opened(2) f(1) wf] f(2) by simp
  then show ?case
    using assms(5) wf f(2)
    by (simp add: ledger_at_def bounded_ledger_def active_stake_def active_def del: ledger_of_sel)
      (simp add: empty_ledger_def)
next
  case (updated s u r s')
  have s': "reachable si C s'" by (rule reachable.updated [OF updated(1-3)])
  have "db_ok si s" using reachable_index_ok [OF updated(1)] by (simp add: index_ok_def)
  moreover have "keeps_bound (K + M) f" if "f \<in> set (confirmed_steps si b)" for b f
    using that keeps_bound_block_steps [OF assms(3,4)]
    by (cases "GetVersionedGlobalParamsByHeight si (u64_of_i32 (Height b))") (auto simp: confirmed_steps_def)
  moreover have "single_unbonding (ledger_at si s')"
    by (rule index_ok_single_unbonding [OF reachable_index_ok [OF s'] assms(2)])
  ultimately show ?case
    using updated.IH
    by (intro implements_bounded [OF implements_handle_update [OF assms(1) updated(2)] _ updated(3)]) auto
next
  case (reopened s d')
  have "store_ok (store si) (db s)" using reachable_index_ok [OF reopened(1)] by (simp add: index_ok_def db_ok_def)
  then have "ledger_of (store si) d' = ledger_of (store si) (db s)"
    using store_ok_NewIndexerStore(2) [OF reopened(2)] by (simp add: store_ok_def)
  then show ?case using reopened.IH by (simp add: ledger_at_def)
qed

end

text \<open>C6: the active stake never reaches the largest cap plus the largest staking amount. In every
  reachable state of an indexer whose parameters have caps on the value of at most \<open>K\<close> and
  staking amounts between zero and \<open>M\<close>, the active stake is below \<open>K + M\<close>, and the confirmed
  TVL that the store reports is the active stake itself: it never wrapped around. The chain
  has no double spends, and the database can be read (\<open>reads_ok\<close>).\<close>

theorem stake_within_cap:
  assumes B: "store_backend (store si)" and reads: "reads_ok si" and chain: "no_double_spend (store si) C"
    and caps: "caps_within si K M" "0 < K + M" "K + M \<le> 2 ^ 64" and reach: "reachable si C s"
  shows "active_stake (ledger_at si s) < K + M \<and>
    (\<exists>t. GetConfirmedTvl (store si) (db s) = Inr t \<and> unat t = active_stake (ledger_at si s))"
proof -
  have env: "indexer_env si" using B by (rule indexer_env.intro)
  have b: "bounded_ledger (K + M) (ledger_at si s)"
    by (rule indexer_env.reachable_bounded [OF env reads chain caps(1,3,2) reach])
  have idx: "index_ok si C s" by (rule indexer_env.reachable_index_ok [OF env reach])
  have "store_ok (store si) (db s)" using idx by (simp add: index_ok_def db_ok_def)
  then have "GetConfirmedTvl (store si) (db s) = Inr (current_tvl (ledger_at si s))"
    using store_backend.GetConfirmedTvl_ledger [OF B] reads by (simp add: reads_ok_def ledger_at_def)
  with bounded_tvl [OF b index_ok_single_unbonding [OF idx chain] caps(3)] b show ?thesis
    by (simp add: bounded_ledger_def)
qed

lemma caps_within_sample: "caps_within sample_si 5000 3000"
  by (auto simp: caps_within_def sample_si_def sample_params_def)

theorem stake_within_cap_witness:
  "active_stake (ledger_at sample_si sample_state2) < 8000 \<and>
    (\<exists>t. GetConfirmedTvl sample_backend (db sample_state2) = Inr t \<and>
       unat t = active_stake (ledger_at sample_si sample_state2))"
proof -
  have "no_double_spend (store sample_si) sample_chain" by (simp add: no_double_spend_sample)
  from stake_within_cap [OF sample_store reads_ok_sample this caps_within_sample _ _ reachable_sample_state2]
  show ?thesis by (simp del: ledger_of_sel)
qed

end
