(* ===== verification/Returns.thy ===== *)
theory Returns
  imports Indexer
begin

text \<open>
  Rules for programs that return: a program returns when its parts do, a loop returns when every
  round does and keeps an invariant; and for programs that may end in an error but raise no
  panic. With them the total correctness of the handlers is proved.
\<close>

section \<open>Programs that return\<close>

definition completes :: "('s, 'a) prog \<Rightarrow> 's \<Rightarrow> bool" where
  "completes m s \<longleftrightarrow> (\<exists>x s'. m s = (Inr x, s'))"

lemma completesI: "m s = (Inr x, s') \<Longrightarrow> completes m s"
  by (simp add: completes_def)

lemma completes_basic [simp]:
  "completes (ret x) s" "completes (gets f) s" "completes (metric g) s'" "completes (invalid_tx l) s'"
  by (simp_all add: completes_def ret_def gets_def metric_def invalid_tx_def modify_def)

lemma completes_lift: "r = Inr x \<Longrightarrow> completes (lift r) s"
  by (simp add: completes_def lift_def)

lemma completes_store_read: "f (db s) = Inr x \<Longrightarrow> completes (store_read f) s"
  by (simp add: completes_def store_read_def)

lemma completes_push_event: "consumer si (queue s) ev = None \<Longrightarrow> completes (push_event si ev) s"
  by (simp add: completes_def push_event_def)

lemma completes_bind:
  assumes "completes m s" and "\<And>x s'. m s = (Inr x, s') \<Longrightarrow> completes (k x) s'"
  shows "completes (bind m k) s"
  using assms by (auto simp: completes_def bind_eq)

lemma completes_run: "m s = (Inr x, s') \<Longrightarrow> completes (k x) s' \<Longrightarrow> completes (bind m k) s"
  by (auto simp: completes_def bind_eq)

text \<open>What a program returns after a first call whose result is known.\<close>

lemma completes_after [simp]:
  "completes (bind (lift (Inr x)) k) s = completes (k x) s"
  "completes (bind (attempt (lift (Inr x))) k2) s = completes (k2 (Inr x)) s"
  "completes (bind (attempt (lift (Inl (Error e)))) k2) s = completes (k2 (Inl e)) s"
  "completes (bind (gets g) k3) s = completes (k3 (g s)) s"
  by (simp_all add: completes_def bind_eq lift_def attempt_def gets_def)

lemma completes_after_read: "f (db s) = Inr x \<Longrightarrow> completes (bind (store_read f) k) s = completes (k x) s"
  by (simp add: completes_def bind_eq store_read_def)

lemma completes_after_wrapped: "m s = (Inr x, s') \<Longrightarrow> completes (bind (wrap_error msg m) k) s = completes (k x) s'"
  by (simp add: completes_def bind_eq wrap_error_def on_error_def attempt_def ret_def)

lemma completes_on_error: "completes m s \<Longrightarrow> completes (on_error m handler) s"
  by (auto simp: completes_def on_error_def bind_eq attempt_def ret_def)

lemma completes_wrap_error: "completes m s \<Longrightarrow> completes (wrap_error msg m) s"
  by (simp add: wrap_error_def completes_on_error)

lemma completes_count_error: "completes m s \<Longrightarrow> completes (count_error c m) s"
  by (simp add: count_error_def completes_on_error)

text \<open>A loop whose invariant every round keeps.\<close>

lemma completes_for_each:
  assumes "\<And>x s. x \<in> set xs \<Longrightarrow> I s \<Longrightarrow> completes (body x) s"
    and "\<And>x s y s'. x \<in> set xs \<Longrightarrow> I s \<Longrightarrow> body x s = (Inr y, s') \<Longrightarrow> I s'" and "I s"
  shows "\<exists>s'. for_each xs body s = (Inr (), s') \<and> I s'"
  using assms
proof (induction xs arbitrary: s)
  case Nil
  then show ?case by (simp add: ret_def)
next
  case (Cons x xs)
  from Cons.prems(1) [of x s] Cons.prems(3) obtain y s1 where x: "body x s = (Inr y, s1)"
    by (auto simp: completes_def)
  have "I s1" using Cons.prems(2) [OF _ Cons.prems(3) x] by simp
  have "\<exists>s'. for_each xs body s1 = (Inr (), s') \<and> I s'"
  proof (rule Cons.IH [OF _ _ \<open>I s1\<close>])
    show "completes (body z) t" if "z \<in> set xs" "I t" for z t using Cons.prems(1) that by simp
    show "I t'" if "z \<in> set xs" "I t" "body z t = (Inr y, t')" for z t y t'
      using Cons.prems(2) [OF _ that(2,3)] that(1) by simp
  qed
  with x show ?case by (simp add: bind_eq)
qed

text \<open>Programs that may return an error but raise no panic, with what holds when they return.\<close>

definition no_panic :: "('s, 'a) prog \<Rightarrow> 's \<Rightarrow> ('a \<Rightarrow> 's \<Rightarrow> bool) \<Rightarrow> bool" where
  "no_panic m s Q \<longleftrightarrow> (case m s of (Inr x, s') \<Rightarrow> Q x s' | (Inl f, _) \<Rightarrow> \<exists>e. f = Error e)"

lemma no_panic_mono:
  assumes "no_panic m s P" and "\<And>x s'. P x s' \<Longrightarrow> Q x s'"
  shows "no_panic m s Q"
  using assms by (auto simp: no_panic_def split: prod.splits sum.splits)

lemma no_panic_bind:
  assumes "no_panic m s P" and "\<And>x s'. P x s' \<Longrightarrow> no_panic (k x) s' Q"
  shows "no_panic (bind m k) s Q"
proof (cases "m s")
  case (Pair r s')
  show ?thesis
  proof (cases r)
    case (Inl f)
    with Pair assms(1) show ?thesis by (simp add: no_panic_def bind_eq)
  next
    case (Inr x)
    with Pair assms(1) have "no_panic (k x) s' Q" by (intro assms(2)) (simp add: no_panic_def)
    with Pair Inr show ?thesis by (simp add: no_panic_def bind_eq)
  qed
qed

lemma no_panic_for_acc:
  assumes "\<And>x v s. x \<in> set xs \<Longrightarrow> J v s \<Longrightarrow> no_panic (body x v) s J" and "J v s"
  shows "no_panic (for_acc xs body v) s J"
  using assms
proof (induction xs arbitrary: v s)
  case Nil
  then show ?case by (simp add: no_panic_def ret_def)
next
  case (Cons x xs)
  have "no_panic (body x v) s J" using Cons.prems by simp
  moreover have "no_panic (for_acc xs body v') s' J" if "J v' s'" for v' s'
    using Cons.prems(1) that by (intro Cons.IH) simp_all
  ultimately show ?case unfolding for_acc.simps by (rule no_panic_bind)
qed

lemma no_panic_wrap_error: "no_panic m s Q \<Longrightarrow> no_panic (wrap_error msg m) s Q"
  by (auto simp: no_panic_def wrap_error_def on_error_def bind_eq attempt_def raise_def ret_def
      split: prod.splits sum.splits fault.splits)

lemma no_panic_effects:
  "no_panic (store_read f) s (\<lambda>_ s'. s' = s)" "no_panic (push_event si ev) s (\<lambda>_ _. True)"
  "no_panic (metric g) s (\<lambda>_ _. True)" "no_panic (raise e) s Q"
  by (auto simp: no_panic_def store_read_def push_event_def metric_def modify_def raise_def
      split: sum.split option.split)

text \<open>A program whose errors are all handled.\<close>

lemma no_panic_on_error:
  assumes "no_panic m s Q" and "\<And>e s. completes (handler e) s"
  shows "completes (on_error m handler) s"
  using assms
  by (auto simp: completes_def no_panic_def on_error_def bind_eq attempt_def ret_def
      split: prod.splits sum.splits fault.splits)

text \<open>A call on which only an error of some kind may be returned.\<close>

definition only_error :: "go_error \<Rightarrow> 'a outcome \<Rightarrow> bool" where
  "only_error t r \<longleftrightarrow> (case r of Inr _ \<Rightarrow> True | Inl f \<Rightarrow> \<exists>e. f = Error e \<and> errors_Is e t)"

lemma only_error_cases:
  assumes "only_error t r"
  obtains x where "r = Inr x" | e where "r = Inl (Error e)" and "errors_Is e t"
  using assms by (cases r) (auto simp: only_error_def)

end
