(* ===== verification/Healthy.thy ===== *)
theory Healthy
  imports Cap Returns
begin

text \<open>
  Total correctness of the indexer. In an environment in which the database and the consumer
  accept what they are given, the parameters are those of their heights, and the transactions
  are those of a chain that the network accepted, the indexer never stops: every update with
  parameters for its confirmed blocks is handled, no panic is raised and no error ends the
  process, and the index is what the confirmed blocks make of it.
\<close>

section \<open>Writes\<close>

text \<open>A database that accepts every write to a bucket that exists.\<close>

definition writes_ok :: "'db StakingIndexer \<Rightarrow> bool" where
  "writes_ok si \<longleftrightarrow>
     (\<forall>f d d'. f d = Inr d' \<longrightarrow> Batch (store si) f d = (d', None)) \<and>
     (\<forall>d b k v. HasBucket (store si) d b \<longrightarrow> (\<exists>d'. Put (store si) d b k v = Inr d')) \<and>
     (\<forall>p. \<exists>v. MarshalStaking (store si) p = Inr v) \<and> (\<forall>u. \<exists>v. MarshalUnbonding (store si) u = Inr v)"

context indexer_env
begin

lemma batch_refuses:
  assumes "writes_ok si" and "Batch (store si) f d = (d', Some e)"
  shows "f d = Inl e"
proof (cases "f d")
  case (Inl e')
  then show ?thesis using assms(2) batch_err [of f d] by simp
next
  case (Inr d1)
  then have "Batch (store si) f d = (d1, None)" using assms(1) unfolding writes_ok_def by blast
  then show ?thesis using assms(2) by simp
qed

lemma put_accepted:
  assumes "writes_ok si" and "HasBucket (store si) d b"
  shows "Put (store si) d b k v \<noteq> Inl m"
proof -
  obtain d' where "Put (store si) d b k v = Inr d'" using assms unfolding writes_ok_def by blast
  then show ?thesis by simp
qed

lemma tvl_writes_accepted:
  assumes "writes_ok si"
  shows "incrementConfirmedTvl (store si) x d \<noteq> Inl (LibErr m)" "subtractConfirmedTvl (store si) x d \<noteq> Inl (LibErr m)"
  using put_accepted [OF assms]
  by (auto simp: incrementConfirmedTvl_def subtractConfirmedTvl_def lib_result_def uint64FromBytes_def
      split: option.splits sum.splits)

lemma exec_op_accepted:
  assumes w: "writes_ok si" and run: "exec_op (store si) op d = (d', Some e)"
  shows "\<not> lib_failure e"
proof
  assume "lib_failure e"
  then obtain m where e: "e = LibErr m" by (auto simp: lib_failure_def)
  have marshals: "MarshalStaking (store si) p \<noteq> Inl m" "MarshalUnbonding (store si) u \<noteq> Inl m" for p u
    using w unfolding writes_ok_def by (metis sum.distinct(1))+
  note facts = put_accepted [OF w] tvl_writes_accepted [OF w] marshals
  show False
  proof (cases op)
    case (AddStaking h p)
    then show False
      using run facts
      by (auto simp: e addStakingTransaction_def split: if_splits option.splits sum.splits dest!: batch_refuses [OF w])
  next
    case (AddUnbonding h u)
    then show False
      using run facts
      by (auto simp: e addUnbondingTransaction_def split: if_splits option.splits sum.splits dest!: batch_refuses [OF w])
  next
    case (SaveHeight n)
    then show False
      using run facts
      by (auto simp: e SaveLastProcessedHeight_def lib_result_def split: if_splits sum.splits dest!: batch_refuses [OF w])
  qed
qed

text \<open>A write that the ledger accepts, or that is a duplicate, returns.\<close>

lemma completes_write:
  assumes w: "writes_ok si" and ok: "db_ok si s" and adm: "admissible_op (store si) op"
    and add: "add_once op (ledger_at si s) \<noteq> None"
  shows "completes (on_error (store_write (exec_op (store si) op))
    (\<lambda>e. if errors_Is e (StoreErr ErrDuplicateTransaction) then ret () else raise (Wrap msg e))) s"
proof (cases "exec_op (store si) op (db s)")
  case (Pair d' r)
  show ?thesis
  proof (cases r)
    case None
    then show ?thesis by (intro completes_on_error) (simp add: completes_def store_write_def Pair)
  next
    case (Some e)
    have "store_ok (store si) (db s)" using ok by (simp add: db_ok_def)
    from exec_op_refused [OF this adm] Pair Some exec_op_accepted [OF w]
    obtain se where se: "e = StoreErr se" "apply_op op (ledger_at si s) = Inl se" by (auto simp: ledger_at_def)
    with add have "se = ErrDuplicateTransaction" by (auto simp: add_once_def split: if_splits)
    with se(1) show ?thesis
      by (simp add: completes_def on_error_def bind_eq attempt_def store_write_def Pair Some ret_def)
  qed
qed

lemma completes_announced_write:
  assumes "writes_ok si" and "\<And>q ev. consumer si q ev = None" and "db_ok si s"
    and "getTxHex si tx = Inr txHex" and "admissible_op (store si) op"
    and "add_once op (ledger_at si s) \<noteq> None" and "\<And>s. completes k s"
  shows "completes (bind (lift (getTxHex si tx)) (\<lambda>txHex.
    bind (wrap_error m1 (push_event si (ev txHex))) (\<lambda>_.
    bind (on_error (store_write (exec_op (store si) op))
      (\<lambda>e. if errors_Is e (StoreErr ErrDuplicateTransaction) then ret () else raise (Wrap m2 e)))
      (\<lambda>_. k)))) s"
proof -
  have "completes (on_error (store_write (exec_op (store si) op))
      (\<lambda>e. if errors_Is e (StoreErr ErrDuplicateTransaction) then ret () else raise (Wrap m2 e))) (s\<lparr>queue := q\<rparr>)" for q
    by (rule completes_write) (use assms in \<open>simp_all add: db_ok_def ledger_at_def\<close>)
  with assms(2,4,7) show ?thesis
    by (intro completes_bind completes_wrap_error completes_push_event)
      (auto simp: lift_def dest!: push_event_Inr intro: completes_lift)
qed

end

text \<open>The invariant of the states in which a handler runs: the index is valid, and the active stake
  is bounded.\<close>

definition good :: "'db StakingIndexer \<Rightarrow> MsgTx set \<Rightarrow> nat \<Rightarrow> 'db state \<Rightarrow> bool" where
  "good si C n s \<longleftrightarrow> index_ok si C s \<and> bounded_ledger n (ledger_at si s)"

lemma good_db_ok: "good si C n s \<Longrightarrow> db_ok si s"
  by (simp add: good_def index_ok_def)

lemma good_step:
  assumes "good si C n s" and "no_double_spend (store si) C" and "progress si C s s'" and "implements si m fs s"
    and "m s = (r, s')" and "\<forall>f\<in>set fs. keeps_bound n f"
  shows "good si C n s'"
proof -
  have idx: "index_ok si C s'" using assms(1,3) by (auto simp: good_def intro: progress_index_ok)
  with implements_bounded [OF assms(4,6,5) good_db_ok [OF assms(1)] _ index_ok_single_unbonding [OF idx assms(2)]]
    assms(1) show ?thesis by (simp add: good_def)
qed

text \<open>The pairs that the loops over the inputs return.\<close>

lemma spent_pair:
  assumes "(x, i) \<in> set (List.map_filter (spent_by look test) (enumerate 0 ins))"
  shows "i < length ins" and "look (Hash (PreviousOutPoint (ins ! i))) = Some x" and "test (ins ! i) x"
  using assms
  by (auto simp: map_filter_member spent_by_def in_set_enumerate_eq split: option.splits if_splits)

section \<open>The environment\<close>

text \<open>A staking transaction of the chain as the indexer records it: parsed and validated under the
  parameters of its height. A stored key is known up to its serialisation.\<close>

definition valid_stake :: "'db StakingIndexer \<Rightarrow> MsgTx set \<Rightarrow> StoredStakingTransaction \<Rightarrow> bool" where
  "valid_stake si C st \<longleftrightarrow>
     (\<exists>params stakingData.
        GetVersionedGlobalParamsByHeight si (InclusionHeight st) = Some params \<and> Tx st \<in> C \<and>
        tryParseStakingTx si (Tx st) params = Inr stakingData \<and>
        validateStakingTx params stakingData = Inr () \<and>
        StakingOutputIdx st = word_of_int (parsed_StakingOutputIdx stakingData) \<and>
        SerializePubKey (store si) (StakerPk st) =
          SerializePubKey (store si) (StakerPublicKey (OpReturnData stakingData)) \<and>
        SerializePubKey (store si) (FinalityProviderPk st) =
          SerializePubKey (store si) (FinalityProviderPublicKey (OpReturnData stakingData)) \<and>
        StakingTime st = ucast (op_StakingTime (OpReturnData stakingData)) \<and>
        StakingValue st = Value (StakingOutput stakingData))"

text \<open>The variables of the loops over unconfirmed blocks: the staking transactions found in the blocks
  are valid, and the database stays as it is.\<close>

definition unconfirmed_ok ::
    "'db StakingIndexer \<Rightarrow> MsgTx set \<Rightarrow> 'db \<Rightarrow> i64 \<times> (hash \<rightharpoonup> StoredStakingTransaction) \<Rightarrow> 'db state \<Rightarrow> bool" where
  "unconfirmed_ok si C d v s \<longleftrightarrow> db s = d \<and> (\<forall>h st. snd v h = Some st \<longrightarrow> valid_stake si C st)"

text \<open>An input that spends the output of a staking transaction.\<close>

definition spends_stake :: "'db StakingIndexer \<Rightarrow> TxIn \<Rightarrow> StoredStakingTransaction \<Rightarrow> bool" where
  "spends_stake si txIn st \<longleftrightarrow>
     PreviousOutPoint txIn = \<lparr>Hash = TxHash (store si) (Tx st), Index = StakingOutputIdx st\<rparr>"

text \<open>
  What a run that never stops relies on.
  \<^item> The database reads and writes, and the consumer takes every event.
  \<^item> The parameters of a height are active at it; their caps are on the value and small enough.
  \<^item> The transactions of the chain have inputs, can be serialised, and spend no output twice.
  \<^item> The staking library accepts again what it parsed: the output index that it reports is that of an
    output, and the scripts of a parsed stake can be rebuilt. A transfer has an output.
  \<^item> The network accepts a spend of a staking output or of an unbonding output only along a script
    path, whose witness ends in the script and its control block.
\<close>

locale healthy_env = indexer_env si for si :: "'db StakingIndexer" +
  fixes C :: "MsgTx set" and K M :: nat
  assumes reads: "reads_ok si" and writes: "writes_ok si" and accepts: "consumer si q ev = None"
    and active_params: "GetVersionedGlobalParamsByHeight si h = Some params \<Longrightarrow> ActivationHeight params \<le> h"
    and caps: "caps_within si K M" "0 < K + M" "K + M \<le> 2 ^ 64"
    and inputs: "tx \<in> C \<Longrightarrow> TxIn tx \<noteq> []"
    and serializes: "tx \<in> C \<Longrightarrow> \<exists>ser. Serialize (store si) tx = Inr ser"
    and one_spender: "no_double_spend (store si) C"
    and transfer_output: "IsTransferTx (lib si) tx = None \<Longrightarrow> TxOut tx \<noteq> []"
    and output_index: "valid_stake si C st \<Longrightarrow> unat (StakingOutputIdx st) < length (TxOut (Tx st))"
    and rebuild_staking: "valid_stake si C st \<Longrightarrow>
      GetVersionedGlobalParamsByHeight si (InclusionHeight st) = Some params \<Longrightarrow>
      \<exists>info t u. rebuildStakingInfo si st params = Inr info \<and> TimeLockPathSpendInfo info = Inr t \<and>
        UnbondingPathSpendInfo info = Inr u"
    and rebuild_unbonding: "valid_stake si C st \<Longrightarrow>
      GetVersionedGlobalParamsByHeight si (InclusionHeight st) = Some params \<Longrightarrow>
      \<exists>info t. rebuildUnbondingInfo si st params v = Inr info \<and> unbonding_TimeLockPathSpendInfo info = Inr t"
    and staking_witness: "tx \<in> C \<Longrightarrow> txIn \<in> set (TxIn tx) \<Longrightarrow> valid_stake si C st \<Longrightarrow>
      spends_stake si txIn st \<Longrightarrow> 2 \<le> length (Witness txIn)"
    and unbonding_witness: "tx \<in> C \<Longrightarrow> txIn \<in> set (TxIn tx) \<Longrightarrow> valid_stake si C st \<Longrightarrow>
      GetVersionedGlobalParamsByHeight si (InclusionHeight st) = Some params \<Longrightarrow> unbond \<in> C \<Longrightarrow>
      IsValidUnbondingTx si unbond st params = Inr True \<Longrightarrow>
      Hash (PreviousOutPoint txIn) = TxHash (store si) unbond \<Longrightarrow> 2 \<le> length (Witness txIn)"
begin

text \<open>The validators return a verdict.\<close>

lemma script_from_witness_total:
  assumes "i < length (TxIn tx)" and "2 \<le> length (Witness (TxIn tx ! i))"
  obtains script where "script_from_witness tx i = Inr script"
proof -
  have "length (Witness (TxIn tx ! i)) - 2 < length (Witness (TxIn tx ! i))" using assms(2) by linarith
  with assms that show ?thesis by (simp add: script_from_witness_def slice_index_def)
qed

lemma IsValidUnbondingTx_total:
  assumes tx: "tx \<in> C" and st: "valid_stake si C st"
    and par: "GetVersionedGlobalParamsByHeight si (InclusionHeight st) = Some params"
  shows "only_error (IndexerErr ErrInvalidUnbondingTx) (IsValidUnbondingTx si tx st params)"
proof -
  have in0: "slice_index (TxIn tx) 0 = Inr (TxIn tx ! 0)" using inputs [OF tx] by (simp add: slice_index_def)
  obtain info u where info: "rebuildStakingInfo si st params = Inr info" "UnbondingPathSpendInfo info = Inr u"
    using rebuild_staking [OF st par] by blast
  have unb: "\<exists>uinfo. rebuildUnbondingInfo si st params v = Inr uinfo" for v
    using rebuild_unbonding [OF st par] by blast
  have out: "slice_index (TxOut (Tx st)) (unat (StakingOutputIdx st)) = Inr (TxOut (Tx st) ! unat (StakingOutputIdx st))"
    using output_index [OF st] by (simp add: slice_index_def)
  have script: "\<exists>script. script_from_witness tx 0 = Inr script"
    if "Hash (PreviousOutPoint (TxIn tx ! 0)) = TxHash (store si) (Tx st)"
      "Index (PreviousOutPoint (TxIn tx ! 0)) = StakingOutputIdx st"
  proof -
    have "spends_stake si (TxIn tx ! 0) st" using that by (simp add: spends_stake_def)
    then have "2 \<le> length (Witness (TxIn tx ! 0))"
      using inputs [OF tx] by (intro staking_witness [OF tx _ st]) simp_all
    then show ?thesis using script_from_witness_total [of 0 tx] inputs [OF tx] by blast
  qed
  have out0: "slice_index (TxOut tx) 0 = Inr (TxOut tx ! 0)" if "IsTransferTx (lib si) tx = None"
    using transfer_output [OF that] by (simp add: slice_index_def)
  let ?v = "Value (TxOut (Tx st) ! unat (StakingOutputIdx st)) - UnbondingFee params"
  obtain uinfo where u: "rebuildUnbondingInfo si st params ?v = Inr uinfo" using unb by blast
  show ?thesis
  proof (cases "IsTransferTx (lib si) tx = None \<and>
      Hash (PreviousOutPoint (TxIn tx ! 0)) = TxHash (store si) (Tx st) \<and>
      Index (PreviousOutPoint (TxIn tx ! 0)) = StakingOutputIdx st")
    case True
    then obtain script where "script_from_witness tx 0 = Inr script" using script by blast
    with True show ?thesis
      by (simp add: IsValidUnbondingTx_def in0 info out out0 u only_error_def Let_def)
  next
    case False
    then show ?thesis by (auto simp: IsValidUnbondingTx_def in0 only_error_def)
  qed
qed

lemma ValidateWithdrawalTxFromStaking_total:
  assumes "tx \<in> C" and st: "valid_stake si C st"
    and par: "GetVersionedGlobalParamsByHeight si (InclusionHeight st) = Some params"
    and i: "i < length (TxIn tx)" and "spends_stake si (TxIn tx ! i) st"
  shows "only_error (IndexerErr ErrInvalidWithdrawalTx) (ValidateWithdrawalTxFromStaking si tx st i params)"
proof -
  obtain info t where "rebuildStakingInfo si st params = Inr info" "TimeLockPathSpendInfo info = Inr t"
    using rebuild_staking [OF st par] by blast
  moreover have "2 \<le> length (Witness (TxIn tx ! i))" using assms by (intro staking_witness [OF _ nth_mem]) simp_all
  then obtain script where "script_from_witness tx i = Inr script" by (rule script_from_witness_total [OF i])
  ultimately show ?thesis by (simp add: ValidateWithdrawalTxFromStaking_def only_error_def)
qed

lemma ValidateWithdrawalTxFromUnbonding_total:
  assumes st: "valid_stake si C st" and par: "GetVersionedGlobalParamsByHeight si (InclusionHeight st) = Some params"
    and i: "i < length (TxIn tx)" and w: "2 \<le> length (Witness (TxIn tx ! i))"
  shows "only_error (IndexerErr ErrInvalidWithdrawalTx) (ValidateWithdrawalTxFromUnbonding si tx st i params)"
proof -
  obtain info t where "rebuildUnbondingInfo si st params (StakingValue st - UnbondingFee params) = Inr info"
    "unbonding_TimeLockPathSpendInfo info = Inr t"
    using rebuild_unbonding [OF st par] by blast
  moreover obtain script where "script_from_witness tx i = Inr script" by (rule script_from_witness_total [OF i w])
  ultimately show ?thesis by (simp add: ValidateWithdrawalTxFromUnbonding_def only_error_def)
qed

text \<open>What is stored is valid.\<close>

lemma stored_valid_stake:
  assumes idx: "index_ok si C s" and "stored_in si s st"
  shows "valid_stake si C st"
proof -
  from assms obtain p where p: "staking (ledger_at si s) (TxHash (store si) (Tx st)) = Some p"
    "protoStakingTxToStoredStakingTx (store si) p = Inr st"
    by (auto simp: stored_in_def)
  from idx p(1) have "stake_valid si C (TxHash (store si) (Tx st)) p" by (simp add: index_ok_def)
  then obtain params tx stakingData ser where v:
    "GetVersionedGlobalParamsByHeight si (p_InclusionHeight p) = Some params" "tx \<in> C"
    "tryParseStakingTx si tx params = Inr stakingData" "validateStakingTx params stakingData = Inr ()"
    "Serialize (store si) tx = Inr ser" "p = staking_msg si stakingData (p_InclusionHeight p) ser (p_IsOverflow p)"
    by (auto simp: stake_valid_def)
  have fields: "p_TransactionBytes p = ser"
    "p_StakerPk p = SerializePubKey (store si) (StakerPublicKey (OpReturnData stakingData))"
    "p_FinalityProviderPk p = SerializePubKey (store si) (FinalityProviderPublicKey (OpReturnData stakingData))"
    "p_StakingOutputIdx p = word_of_int (parsed_StakingOutputIdx stakingData)"
    "p_StakingTime p = ucast (op_StakingTime (OpReturnData stakingData))"
    "p_StakingValue p = Value (StakingOutput stakingData)"
    by (subst v(6), simp add: staking_msg_def)+
  show ?thesis
    by (rule staking_msg_decodes [OF v(5) inputs [OF v(2)] fields(1-3)])
      (use p(2) v(1-4) fields(4-6) in \<open>auto simp: valid_stake_def\<close>)
qed

lemma valid_stake_params:
  assumes "valid_stake si C st"
  obtains params where "GetVersionedGlobalParamsByHeight si (InclusionHeight st) = Some params"
  using assms by (auto simp: valid_stake_def)

section \<open>The handlers return\<close>

lemma getTxHex_total:
  assumes "tx \<in> C"
  obtains ser where "Serialize (store si) tx = Inr ser" and "getTxHex si tx = Inr (hex_EncodeToString ser)"
  using serializes [OF assms] by (auto simp: getTxHex_def)

lemma completes_addStakingTransaction:
  fixes stakingData :: ParsedV0StakingTx
  assumes tx: "tx \<in> C" and ok: "db_ok si s"
  shows "completes (si_addStakingTransaction si h ts tx
    (StakerPublicKey (OpReturnData stakingData)) (FinalityProviderPublicKey (OpReturnData stakingData))
    (Value (StakingOutput stakingData)) (ucast (op_StakingTime (OpReturnData stakingData)))
    (word_of_int (parsed_StakingOutputIdx stakingData)) ov) s"
proof -
  obtain ser where ser: "Serialize (store si) tx = Inr ser" "getTxHex si tx = Inr (hex_EncodeToString ser)"
    by (rule getTxHex_total [OF tx])
  let ?op = "AddStaking (TxHash (store si) tx) (staking_msg si stakingData h ser ov)"
  have "add_once ?op (ledger_at si s) \<noteq> None" by (simp add: add_once_def)
  then show ?thesis
    unfolding si_addStakingTransaction_def AddStakingTransaction_exec ser(1) sum.case
    by (intro completes_announced_write [OF writes accepts ok ser(2) staking_msg_admissible [OF ser(1) inputs [OF tx]]])
      (auto intro!: completes_bind)
qed

lemma completes_ProcessStakingTx:
  assumes tx: "tx \<in> C" and ok: "db_ok si s" and par: "GetVersionedGlobalParamsByHeight si h = Some params"
  shows "completes (ProcessStakingTx si tx stakingData h ts params) s"
proof -
  have tvl: "GetConfirmedTvl (store si) (db s) = Inr (current_tvl (ledger_at si s))"
    using reads ok GetConfirmedTvl_ledger [of "db s"] by (simp add: reads_ok_def db_ok_def ledger_at_def)
  then have ov: "isOverflow si h params (db s) = Inr (spec_overflow params h (ledger_at si s))"
    using active_params [OF par] by (auto simp: isOverflow_def Let_def spec_overflow_def)
  have over: "bind (gets db) (\<lambda>d. lift (isOverflow si h params d)) s =
      (Inr (spec_overflow params h (ledger_at si s)), s)"
    by (simp add: bind_eq gets_def lift_def ov)
  show ?thesis
    unfolding ProcessStakingTx_def Let_def
      completes_after_read [of "GetStakingTransaction (store si) (TxHash (store si) tx)" s, OF read_staking [OF reads ok]]
    by (simp add: completes_after_wrapped [where m = "bind (gets db) _", OF over]
        completes_addStakingTransaction [OF tx ok] split: option.split sum.split)
qed

text \<open>The unbonding transaction is stored, or is there already.\<close>

lemma unbonding_accepted:
  assumes good: "good si C (K + M) s" and st: "stored_in si s st" and tx: "tx \<in> C"
    and valid: "IsValidUnbondingTx si tx st params = Inr True"
  shows "add_once (AddUnbonding (TxHash (store si) tx)
    \<lparr>pu_TransactionBytes = ser, pu_StakingTxHash = TxHash (store si) (Tx st)\<rparr>) (ledger_at si s) \<noteq> None"
proof -
  let ?l = "ledger_at si s" and ?sh = "TxHash (store si) (Tx st)"
  let ?u = "\<lparr>pu_TransactionBytes = ser, pu_StakingTxHash = ?sh\<rparr>"
  have idx: "index_ok si C s" and b: "bounded_ledger (K + M) ?l" using good by (simp_all add: good_def)
  obtain p where p: "staking ?l ?sh = Some p" "protoStakingTxToStoredStakingTx (store si) p = Inr st"
    using st by (auto simp: stored_in_def)
  show ?thesis
  proof (cases "unbonding ?l (TxHash (store si) tx)")
    case (Some u)
    then show ?thesis using p(1) by (simp add: add_once_def)
  next
    case None
    have "?sh \<notin> unbonded_hashes ?l"
    proof
      assume "?sh \<in> unbonded_hashes ?l"
      then obtain h u where u: "unbonding ?l h = Some u" "pu_StakingTxHash u = ?sh"
        by (auto simp: unbonded_hashes_def ran_def)
      from index_ok_unbonder [OF idx one_spender u(1) _ p(2) tx valid] u p(1) None show False by simp
    qed
    moreover have "active_stake ?l < 2 ^ 64" using b caps(3) by (simp add: bounded_ledger_def)
    ultimately obtain l' where "apply_op (AddUnbonding (TxHash (store si) tx) ?u) ?l = Inr l'"
      using apply_unbonding_active [OF _ _ index_ok_single_unbonding [OF idx one_spender], of ?u p "TxHash (store si) tx"]
        b p(1) None by (auto simp: bounded_ledger_def simp del: apply_op.simps)
    then show ?thesis by (simp add: add_once_def del: apply_op.simps)
  qed
qed

lemma completes_ProcessUnbondingTx:
  assumes "good si C (K + M) s" and "stored_in si s st" and tx: "tx \<in> C"
    and "IsValidUnbondingTx si tx st params = Inr True"
  shows "completes (ProcessUnbondingTx si tx (TxHash (store si) (Tx st)) h ts params) s"
proof -
  obtain ser where ser: "Serialize (store si) tx = Inr ser" "getTxHex si tx = Inr (hex_EncodeToString ser)"
    by (rule getTxHex_total [OF tx])
  note adm = unbonding_msg_decodes(2) [OF ser(1) inputs [OF tx] length_TxHash [of "Tx st"]]
  show ?thesis
    unfolding ProcessUnbondingTx_def AddUnbondingTransaction_exec ser(1) sum.case
    using unbonding_accepted [OF assms] adm
    by (intro completes_announced_write [OF writes accepts good_db_ok [OF assms(1)] ser(2)])
      (auto intro!: completes_bind)
qed

lemma completes_processWithdrawTx: "completes (processWithdrawTx si tx sh uh h) s"
  unfolding processWithdrawTx_def
  by (auto intro!: completes_bind completes_wrap_error completes_push_event accepts)

lemma completes_handleSpendingStaking:
  assumes good: "good si C (K + M) s" and stored: "stored_in si s st" and tx: "tx \<in> C"
    and i: "i < length (TxIn tx)" and spends: "spends_stake si (TxIn tx ! i) st"
  shows "completes (handleSpendingStakingTransaction si tx st i h ts) s"
proof -
  have st: "valid_stake si C st" using good stored by (auto simp: good_def intro: stored_valid_stake)
  obtain params where par: "GetVersionedGlobalParamsByHeight si (InclusionHeight st) = Some params"
    by (rule valid_stake_params [OF st])
  have get: "getVersionedParams si (InclusionHeight st) = Inr params" by (simp add: getVersionedParams_def par)
  from IsValidUnbondingTx_total [OF tx st par] show ?thesis
  proof (cases rule: only_error_cases)
    case (1 isUnbonding)
    with ValidateWithdrawalTxFromStaking_total [OF tx st par i spends] completes_ProcessUnbondingTx [OF good stored tx]
    show ?thesis
      by (cases isUnbonding)
        (auto simp: handleSpendingStakingTransaction_def Let_def get completes_on_error completes_count_error
          completes_processWithdrawTx elim!: only_error_cases)
  next
    case (2 e)
    then show ?thesis by (simp add: handleSpendingStakingTransaction_def Let_def get)
  qed
qed

text \<open>The staking transaction behind a stored unbonding transaction.\<close>

lemma unbonding_stake:
  assumes idx: "index_ok si C s" and get: "GetUnbondingTransaction (store si) h (db s) = Inr (Some ut)"
  obtains st params unbond where "GetStakingTransaction (store si) (StakingTxHash ut) (db s) = Inr (Some st)"
    and "valid_stake si C st" and "GetVersionedGlobalParamsByHeight si (InclusionHeight st) = Some params"
    and "unbond \<in> C" and "IsValidUnbondingTx si unbond st params = Inr True" and "h = TxHash (store si) unbond"
proof -
  have ok: "db_ok si s" "store_ok (store si) (db s)" "BeginRead (store si) (db s) = None"
    using idx reads by (simp_all add: index_ok_def db_ok_def reads_ok_def)
  obtain u where u: "unbonding (ledger_at si s) h = Some u"
    using get GetUnbondingTransaction_None [OF ok(2,3), of h]
    by (cases "unbonding (ledger_at si s) h") (auto simp: ledger_at_def)
  have sh: "StakingTxHash ut = pu_StakingTxHash u"
    by (rule GetUnbondingTransaction_Some [OF ok(2,3), of h u]) (use u get in \<open>simp_all add: ledger_at_def\<close>)
  have "unbonding_valid si C (ledger_at si s) h u" using idx u by (simp add: index_ok_def)
  then obtain p st params unbond where
    p: "staking (ledger_at si s) (pu_StakingTxHash u) = Some p" "protoStakingTxToStoredStakingTx (store si) p = Inr st"
    and unb: "GetVersionedGlobalParamsByHeight si (InclusionHeight st) = Some params" "unbond \<in> C"
      "IsValidUnbondingTx si unbond st params = Inr True" "h = TxHash (store si) unbond"
    by (auto simp: unbonding_valid_def)
  have read: "GetStakingTransaction (store si) (StakingTxHash ut) (db s) = Inr (Some st)"
    using read_staking [OF reads ok(1)] p sh by (simp add: stored_at_def)
  then have "stored_in si s st"
    by (rule GetStakingTransaction_stored [OF ok(1)]) (auto simp: stored_in_def)
  then have "valid_stake si C st" by (rule stored_valid_stake [OF idx])
  with that read unb show ?thesis by blast
qed

lemma completes_handleSpendingUnbonding:
  assumes idx: "index_ok si C s" and tx: "tx \<in> C" and i: "i < length (TxIn tx)"
    and get: "GetUnbondingTransaction (store si) (Hash (PreviousOutPoint (TxIn tx ! i))) (db s) = Inr (Some ut)"
  shows "completes (handleSpendingUnbondingTransaction si tx ut i h) s"
proof -
  obtain st params unbond where read: "GetStakingTransaction (store si) (StakingTxHash ut) (db s) = Inr (Some st)"
    and st: "valid_stake si C st" and par: "GetVersionedGlobalParamsByHeight si (InclusionHeight st) = Some params"
    and unb: "unbond \<in> C" "IsValidUnbondingTx si unbond st params = Inr True"
      "Hash (PreviousOutPoint (TxIn tx ! i)) = TxHash (store si) unbond"
    by (rule unbonding_stake [OF idx get])
  have w: "2 \<le> length (Witness (TxIn tx ! i))"
    by (rule unbonding_witness [OF tx nth_mem [OF i] st par unb])
  have first: "count_error c (store_read (GetStakingTxByHash si (StakingTxHash ut))) s = (Inr (Some st), s)" for c
    by (simp add: count_error_def on_error_def bind_eq attempt_def store_read_def GetStakingTxByHash_def read ret_def)
  have pars: "getVersionedParams si (InclusionHeight st) = Inr params" by (simp add: getVersionedParams_def par)
  have last: "completes (bind (attempt (lift (ValidateWithdrawalTxFromUnbonding si tx st i params))) (\<lambda>r. case r of
      Inl e \<Rightarrow> if errors_Is e (IndexerErr ErrInvalidWithdrawalTx) then invalid_tx l else k e
    | Inr _ \<Rightarrow> count_error c (processWithdrawTx si tx sh uh h))) s" for l k c sh uh
    using ValidateWithdrawalTxFromUnbonding_total [OF st par i w]
    by (auto simp: completes_count_error completes_processWithdrawTx elim!: only_error_cases)
  show ?thesis
    unfolding handleSpendingUnbondingTransaction_def by (rule completes_run, rule first) (simp add: pars last)
qed

section \<open>Confirmed blocks are handled\<close>

lemma stored_at_spends:
  assumes "db_ok si s" and "stored_at si (ledger_at si s) (Hash (PreviousOutPoint txIn)) = Some st"
    and "spends_output txIn st"
  shows "stored_in si s st" and "spends_stake si txIn st"
proof -
  have "GetStakingTransaction (store si) (Hash (PreviousOutPoint txIn)) (db s) = Inr (Some st)"
    using read_staking [OF reads assms(1)] assms(2) by simp
  then have "stored_in si s st \<and> TxHash (store si) (Tx st) = Hash (PreviousOutPoint txIn)"
    by (rule GetStakingTransaction_stored [OF assms(1)]) (auto simp: stored_in_def)
  then show "stored_in si s st" "spends_stake si txIn st"
    using assms(3) by (simp_all add: spends_stake_def spends_output_def)
qed

text \<open>The loop over what the transaction spends of staking transactions.\<close>

lemma spending_loop_returns:
  assumes good: "good si C (K + M) s" and tx: "tx \<in> C"
    and spent: "getSpentStakingTxs si tx (db s) = (stakingTxs, is)"
  shows "\<exists>s'. for_each (zip stakingTxs is) (\<lambda>(st, i). handleSpendingStakingTransaction si tx st i h ts) s = (Inr (), s') \<and>
    good si C (K + M) s'"
proof -
  let ?body = "\<lambda>(st, i). handleSpendingStakingTransaction si tx st i h ts"
  let ?I = "\<lambda>s. good si C (K + M) s \<and> (\<forall>x\<in>set (zip stakingTxs is). stored_in si s (fst x))"
  have ok: "db_ok si s" by (rule good_db_ok [OF good])
  have pair: "stored_in si s st \<and> i < length (TxIn tx) \<and> spends_stake si (TxIn tx ! i) st"
    if "(st, i) \<in> set (zip stakingTxs is)" for st i
    using spent_pair [OF that [unfolded getSpentStakingTxs_pairs [OF reads ok spent]]] stored_at_spends [OF ok] by blast
  have "\<exists>s'. for_each (zip stakingTxs is) ?body s = (Inr (), s') \<and> ?I s'"
  proof (rule completes_for_each)
    show "?I s" using good pair by auto
  next
    fix x s1
    assume "x \<in> set (zip stakingTxs is)" and "?I s1"
    then show "completes (?body x) s1"
      using pair tx by (cases x rule: prod.exhaust) (auto intro!: completes_handleSpendingStaking)
  next
    fix x s1 y s2
    assume x: "x \<in> set (zip stakingTxs is)" and I: "?I s1" and run: "?body x s1 = (Inr y, s2)"
    obtain st i where xi: "x = (st, i)" by fastforce
    have "progress si C s1 (snd (?body x s1))"
      using x I by (auto simp: xi intro!: progress_handle_spending_staking inputs tx)
    then have prog: "progress si C s1 s2" using run by simp
    have imp: "implements si (?body x) [unbond_stored si tx st] s1"
      by (simp add: xi implements_handle_spending_staking [OF inputs [OF tx]])
    have "good si C (K + M) s2"
      by (rule good_step [OF _ one_spender prog imp run]) (use I keeps_bound_unbond_stored in simp_all)
    then show "?I s2" using I stored_in_progress [OF _ good_db_ok prog] by blast
  qed
  then show ?thesis by blast
qed

text \<open>The loop over what it spends of unbonding transactions.\<close>

lemma unbonding_loop_returns:
  assumes idx: "index_ok si C s" and tx: "tx \<in> C" and spent: "getSpentUnbondingTxs si tx (db s) = (uts, is)"
  shows "completes (for_each (zip uts is) (\<lambda>(ut, i). handleSpendingUnbondingTransaction si tx ut i h)) s"
proof -
  let ?body = "\<lambda>(ut, i). handleSpendingUnbondingTransaction si tx ut i h"
  have pair: "i < length (TxIn tx) \<and>
      GetUnbondingTransaction (store si) (Hash (PreviousOutPoint (TxIn tx ! i))) (db s) = Inr (Some ut)"
    if "(ut, i) \<in> set (zip uts is)" for ut i
    using spent_pair [OF that [unfolded spent_loop_pairs(1) [OF spent [unfolded getSpentUnbondingTxs_def]]]]
    by (auto simp: GetUnbondingTxByHash_def split: sum.splits)
  have "\<exists>s'. for_each (zip uts is) ?body s = (Inr (), s') \<and> (index_ok si C s' \<and> db s' = db s)"
  proof (rule completes_for_each)
    show "index_ok si C s \<and> db s = db s" using idx by simp
  next
    fix x s1
    assume "x \<in> set (zip uts is)" and "index_ok si C s1 \<and> db s1 = db s"
    then show "completes (?body x) s1"
      using pair tx by (cases x rule: prod.exhaust) (auto intro!: completes_handleSpendingUnbonding)
  next
    fix x s1 y s2
    assume I: "index_ok si C s1 \<and> db s1 = db s" and run: "?body x s1 = (Inr y, s2)"
    obtain ut i where x: "x = (ut, i)" by fastforce
    have "progress si C s1 s2" "db s2 = db s1"
      using run run_inD [OF run_handleSpendingUnbondingTransaction] run_inD [OF keeps_db_handleSpendingUnbonding]
      by (auto simp: x)
    with I show "index_ok si C s2 \<and> db s2 = db s" by (auto intro: progress_index_ok)
  qed
  then show ?thesis by (auto simp: completes_def)
qed

lemma confirmed_tx_returns:
  assumes good: "good si C (K + M) s" and tx: "tx \<in> C"
    and par: "GetVersionedGlobalParamsByHeight si (u64_of_i32 (Height b)) = Some params"
  shows "completes (confirmed_tx si params b tx) s"
  unfolding confirmed_tx_def Let_def
proof (rule completes_bind, goal_cases)
  case 1
  show ?case
    using completes_ProcessStakingTx [OF tx good_db_ok [OF good] par]
    by (auto split: sum.split intro!: completes_wrap_error completes_count_error)
next
  case (2 x s1)
  let ?first = "case tryParseStakingTx si tx params of Inl _ \<Rightarrow> ret ()
    | Inr stakingData \<Rightarrow> wrap_error ''failed to process the staking tx''
        (count_error (failedProcessingStakingTxsCounter_update Suc)
          (ProcessStakingTx si tx stakingData (u64_of_i32 (Height b)) (Timestamp (Header b)) params))"
  have "run_in (progress si C) ?first"
    using inputs [OF tx] tx par by (auto split: sum.split intro!: run_effects run_process_staking)
  then have prog: "progress si C s s1" by (rule run_inD) (rule 2)
  have imp: "implements si ?first [stake_step si params (u64_of_i32 (Height b)) tx] s"
    by (rule implements_stake_part [OF reads inputs [OF tx]])
  have "good si C (K + M) s1"
    by (rule good_step [OF good one_spender prog imp 2]) (use keeps_bound_stake_step [OF caps(1,3) par] in simp)
  obtain stakingTxs "is" where spent: "getSpentStakingTxs si tx (db s1) = (stakingTxs, is)" by fastforce
  obtain s2 where s2: "for_each (zip stakingTxs is) (\<lambda>(st, i). handleSpendingStakingTransaction si tx st i
      (u64_of_i32 (Height b)) (Timestamp (Header b))) s1 = (Inr (), s2)" "good si C (K + M) s2"
    using spending_loop_returns [OF \<open>good si C (K + M) s1\<close> tx spent] by blast
  obtain uts is2 where spent2: "getSpentUnbondingTxs si tx (db s2) = (uts, is2)" by fastforce
  have "index_ok si C s2" using s2(2) by (simp add: good_def)
  from unbonding_loop_returns [OF this tx spent2] show ?case
    by (simp add: spent) (rule completes_run, rule s2(1), simp add: spent2)
qed

lemma confirmed_tx_good:
  assumes good: "good si C (K + M) s" and tx: "tx \<in> C"
    and par: "GetVersionedGlobalParamsByHeight si (u64_of_i32 (Height b)) = Some params"
    and run: "confirmed_tx si params b tx s = (r, s')"
  shows "good si C (K + M) s'"
proof (rule good_step [OF good one_spender _ implements_confirmed_tx [OF reads inputs [OF tx]] run])
  show "progress si C s s'" using progress_confirmed_tx [OF inputs [OF tx] tx par, of s] run by simp
  show "\<forall>f\<in>set (tx_steps si params (u64_of_i32 (Height b)) tx). keeps_bound (K + M) f"
    using keeps_bound_stake_step [OF caps(1,3) par] keeps_bound_unbond_step by (auto simp: tx_steps_def)
qed

lemma finish_block_returns:
  assumes "db_ok si s"
  shows "completes (finish_block si b) s"
proof -
  let ?h = "u64_of_i32 (Height b)"
  have ok: "store_ok (store si) (db s)" using assms by (simp add: db_ok_def)
  obtain d' r where save: "SaveLastProcessedHeight (store si) ?h (db s) = (d', r)" by fastforce
  have "r = None"
    using save_height_refused [of "db s" ?h d'] exec_op_accepted [OF writes, of "SaveHeight ?h" "db s" d'] ok save
    by (cases r) (auto simp: store_ok_def)
  with save have run: "store_write (SaveLastProcessedHeight (store si) ?h) s = (Inr (), s\<lparr>db := d'\<rparr>)"
    by (simp add: store_write_def)
  have "store_ok (store si) d'"
    using exec_op_done [OF ok, of "SaveHeight ?h" d'] save \<open>r = None\<close> by simp
  then have tvl: "GetConfirmedTvl (store si) d' = Inr (current_tvl (ledger_of (store si) d'))"
    using reads GetConfirmedTvl_ledger [of d'] by (simp add: reads_ok_def)
  show ?thesis
    unfolding finish_block_def Let_def
    by (subst completes_after_wrapped, rule run)
      (auto simp: tvl intro!: completes_bind completes_wrap_error completes_push_event completes_store_read accepts)
qed

lemma block_returns:
  assumes good: "good si C (K + M) s" and b: "block_ok C b"
    and par: "GetVersionedGlobalParamsByHeight si (u64_of_i32 (Height b)) = Some params"
  shows "\<exists>s'. HandleConfirmedBlock si b s = (Inr (), s') \<and> good si C (K + M) s'"
proof -
  have tx: "MsgTx_of t \<in> C" if "t \<in> set (Txs b)" for t using b that by (simp add: block_ok_def)
  obtain s1 where s1: "for_each (Txs b) (\<lambda>t. confirmed_tx si params b (MsgTx_of t)) s = (Inr (), s1)"
    and g1: "good si C (K + M) s1"
    using completes_for_each [where I = "good si C (K + M)" and xs = "Txs b", OF _ _ good]
      confirmed_tx_returns [OF _ tx par] confirmed_tx_good [OF _ tx par] by metis
  have "completes (HandleConfirmedBlock si b) s"
    unfolding HandleConfirmedBlock_params [OF par]
    by (rule completes_run, rule s1) (rule finish_block_returns [OF good_db_ok [OF g1]])
  then obtain s' where run: "HandleConfirmedBlock si b s = (Inr (), s')" by (auto simp: completes_def)
  have "good si C (K + M) s'"
  proof (rule good_step [OF good one_spender _ implements_HandleConfirmedBlock [OF reads b par] run])
    show "progress si C s s'" by (rule run_inD [OF run_HandleConfirmedBlock [OF b] run])
    show "\<forall>f\<in>set (block_steps si params b). keeps_bound (K + M) f"
      using keeps_bound_block_steps [OF caps(1,3) par] by blast
  qed
  with run show ?thesis by blast
qed

section \<open>Unconfirmed blocks raise no panic\<close>

lemma safe_unconfirmed_spend:
  assumes "tx \<in> C" and st: "valid_stake si C st"
  shows "no_panic (unconfirmed_spend si tx st amount) s (\<lambda>_ s'. db s' = db s)"
proof -
  obtain params where par: "GetVersionedGlobalParamsByHeight si (InclusionHeight st) = Some params"
    by (rule valid_stake_params [OF st])
  from IsValidUnbondingTx_total [OF assms par] show ?thesis
    by (cases rule: only_error_cases)
      (simp_all add: unconfirmed_spend_def no_panic_def bind_eq lift_def getVersionedParams_def par attempt_def
        invalid_tx_def metric_def modify_def ret_def)
qed

text \<open>What a transaction spends, of the stored and of the unconfirmed staking transactions.\<close>

lemma valid_spent_stored:
  assumes idx: "index_ok si C s0" and d: "db s = db s0" and spent: "getSpentStakingTxs si tx (db s) = (stored, is)"
    and st: "st \<in> set stored"
  shows "valid_stake si C st"
proof -
  have "length stored = length is"
    by (rule spent_loop_pairs(2) [OF spent [unfolded getSpentStakingTxs_def]])
  with st obtain i where "(st, i) \<in> set (zip stored is)" by (auto simp: in_set_conv_nth set_zip)
  moreover have "db_ok si s0" using idx by (simp add: index_ok_def)
  ultimately have "stored_in si s0 st" using getSpentStakingTxs_stored spent d by simp
  then show ?thesis by (rule stored_valid_stake [OF idx])
qed

lemma valid_spent_found:
  assumes "\<forall>h st. m h = Some st \<longrightarrow> valid_stake si C st" and st: "st \<in> set (fst (getSpentFromStakingTxs tx m))"
  shows "valid_stake si C st"
proof -
  obtain xs "is" where spent: "spent_loop m spends_output 0 (TxIn tx) = (xs, is)" by fastforce
  with st have "st \<in> set xs" by (simp add: getSpentFromStakingTxs_def)
  with spent_loop_pairs(2) [OF spent] obtain i where "(st, i) \<in> set (zip xs is)"
    by (auto simp: in_set_conv_nth set_zip)
  then show ?thesis by (rule spent_loop_stored [OF spent]) (use assms(1) in blast)
qed

lemma safe_unconfirmed_tx:
  assumes idx: "index_ok si C s0" and tx: "tx \<in> C" and I: "unconfirmed_ok si C (db s0) v s"
    and par: "GetVersionedGlobalParamsByHeight si (u64_of_i32 (Height b)) = Some params"
  shows "no_panic (unconfirmed_tx si params b tx v) s (unconfirmed_ok si C (db s0))"
proof -
  obtain amount m where v: "v = (amount, m)" by fastforce
  show ?thesis
  proof (cases "tryParseStakingTx si tx params")
    case (Inr stakingData)
    then show ?thesis
      using I tx par
      by (auto simp: v unconfirmed_tx_def unconfirmed_ok_def no_panic_def bind_eq ret_def invalid_tx_def metric_def
          modify_def valid_stake_def split: sum.split)
  next
    case (Inl e)
    obtain stored "is" where spent: "getSpentStakingTxs si tx (db s) = (stored, is)" by fastforce
    define stakingTxs where "stakingTxs = (if stored = [] then fst (getSpentFromStakingTxs tx m) else stored)"
    have "valid_stake si C st" if "st \<in> set stakingTxs" for st
      using that valid_spent_stored [OF idx _ spent] valid_spent_found [of m _ tx] I
      by (auto simp: stakingTxs_def unconfirmed_ok_def v split: if_splits)
    then have "no_panic (for_acc stakingTxs (unconfirmed_spend si tx) amount) s (\<lambda>_ s'. db s' = db s)"
      by (intro no_panic_for_acc [where J = "\<lambda>_ s'. db s' = db s"]) (auto intro: no_panic_mono [OF safe_unconfirmed_spend [OF tx]])
    then have "no_panic (bind (for_acc stakingTxs (unconfirmed_spend si tx) amount) (\<lambda>a. ret (a, m))) s
        (unconfirmed_ok si C (db s0))"
      by (rule no_panic_bind) (use I in \<open>simp add: no_panic_def ret_def unconfirmed_ok_def v\<close>)
    moreover have "unconfirmed_tx si params b tx v s = bind (for_acc stakingTxs (unconfirmed_spend si tx) amount) (\<lambda>a. ret (a, m)) s"
      by (simp add: unconfirmed_tx_def v Inl bind_eq [of "gets _"] gets_def spent stakingTxs_def Let_def)
    ultimately show ?thesis by (simp add: no_panic_def)
  qed
qed

lemma safe_Calculate:
  assumes idx: "index_ok si C s" and bs: "\<forall>b\<in>set bs. block_ok C b"
  shows "no_panic (CalculateTvlInUnconfirmedBlocks si bs) s (\<lambda>_ s'. db s' = db s)"
proof -
  have block: "no_panic (unconfirmed_block si b v) s1 (unconfirmed_ok si C (db s))"
    if b: "b \<in> set bs" and I: "unconfirmed_ok si C (db s) v s1" for b v s1
  proof (cases "GetVersionedGlobalParamsByHeight si (u64_of_i32 (Height b))")
    case None
    then show ?thesis by (simp add: unconfirmed_block_def no_panic_def bind_eq lift_def getVersionedParams_def)
  next
    case (Some params)
    have "no_panic (for_acc (map MsgTx_of (Txs b)) (unconfirmed_tx si params b) v) s1 (unconfirmed_ok si C (db s))"
      using bs b by (intro no_panic_for_acc I safe_unconfirmed_tx [OF idx _ _ Some]) (auto simp: block_ok_def)
    then show ?thesis
      by (simp add: unconfirmed_block_def no_panic_def bind_eq [of "lift _"] lift_def getVersionedParams_def Some)
  qed
  have "no_panic (for_acc bs (unconfirmed_block si) (0, Map.empty)) s (unconfirmed_ok si C (db s))"
    by (rule no_panic_for_acc) (rule block, simp_all add: unconfirmed_ok_def)
  then show ?thesis
    unfolding CalculateTvlInUnconfirmedBlocks_def
    by (rule no_panic_bind) (simp add: no_panic_def ret_def unconfirmed_ok_def)
qed

lemma safe_processUnconfirmedInfo:
  assumes "index_ok si C s" and "\<forall>b\<in>set bs. block_ok C b"
  shows "no_panic (processUnconfirmedInfo si bs) s (\<lambda>_ _. True)"
  unfolding processUnconfirmedInfo_def Let_def
  using no_panic_wrap_error [OF safe_Calculate [OF assms]]
  by (auto simp: no_panic_def [of "ret ()"] ret_def
      intro!: no_panic_bind [OF no_panic_wrap_error [OF safe_Calculate [OF assms]]]
        no_panic_bind [OF no_panic_wrap_error [OF no_panic_effects(1)]]
        no_panic_bind [OF no_panic_wrap_error [OF no_panic_effects(2)]] no_panic_effects)

section \<open>Updates are handled\<close>

lemma update_returns:
  assumes good: "good si C (K + M) s"
    and blocks: "\<forall>b\<in>set (ConfirmedBlocks u). block_ok C b \<and>
      GetVersionedGlobalParamsByHeight si (u64_of_i32 (Height b)) \<noteq> None"
    and "\<forall>b\<in>set (UnconfirmedBlocks u). block_ok C b"
  shows "\<exists>s'. handle_update si u s = (Inr (), s') \<and> good si C (K + M) s'"
proof -
  let ?block = "\<lambda>b. on_error (HandleConfirmedBlock si b) (\<lambda>e. fatal ''failed to handle block'')"
  have block: "\<exists>s'. ?block b s1 = (Inr (), s') \<and> good si C (K + M) s'"
    if b: "b \<in> set (ConfirmedBlocks u)" and "good si C (K + M) s1" for b s1
  proof -
    from blocks b obtain params where "block_ok C b"
      "GetVersionedGlobalParamsByHeight si (u64_of_i32 (Height b)) = Some params" by auto
    from block_returns [OF that(2) this] obtain s' where "HandleConfirmedBlock si b s1 = (Inr (), s')"
      "good si C (K + M) s'" by blast
    then show ?thesis by (simp add: on_error_def bind_eq attempt_def ret_def)
  qed
  obtain s1 where s1: "for_each (ConfirmedBlocks u) ?block s = (Inr (), s1)" and g: "good si C (K + M) s1"
    using completes_for_each [where I = "good si C (K + M)" and xs = "ConfirmedBlocks u" and body = ?block, OF _ _ good]
      block by (fastforce simp: completes_def)
  let ?rest = "on_error (processUnconfirmedInfo si (UnconfirmedBlocks u))
    (\<lambda>e. metric (failedProcessingUnconfirmedBlockCounter_update Suc))"
  have idx: "index_ok si C s1" using g by (simp add: good_def)
  have "completes ?rest s1"
    by (rule no_panic_on_error [OF safe_processUnconfirmedInfo [OF idx assms(3)]]) simp
  then obtain s' where s': "?rest s1 = (Inr (), s')" by (auto simp: completes_def)
  have "keeps_db ?rest" by (intro keeps_db_rules keeps_db_processUnconfirmedInfo)
  from same_db_ledger(1) [OF run_inD [OF this s']] have "ledger_at si s' = ledger_at si s1" .
  moreover have "run_in (progress si C) ?rest" by (intro run_effects run_processUnconfirmedInfo)
  from run_inD [OF this s'] have "progress si C s1 s'" .
  ultimately have "good si C (K + M) s'" using g by (auto simp: good_def intro: progress_index_ok)
  moreover have "handle_update si u s = (Inr (), s')"
    unfolding handle_update_def by (simp add: bind_Inr [where m = "for_each _ _", OF s1] s')
  ultimately show ?thesis by blast
qed

lemma reachable_good:
  assumes "reachable si C s"
  shows "good si C (K + M) s"
  using reachable_index_ok [OF assms] reachable_bounded [OF reads one_spender caps(1,3,2) assms] by (simp add: good_def)

lemma loop_returns:
  assumes "good si C (K + M) s"
    and "\<forall>u\<in>set updates. (\<forall>b\<in>set (ConfirmedBlocks u). block_ok C b \<and>
        GetVersionedGlobalParamsByHeight si (u64_of_i32 (Height b)) \<noteq> None) \<and>
      (\<forall>b\<in>set (UnconfirmedBlocks u). block_ok C b)"
  shows "\<exists>s'. blocksEventLoop si updates s = (Inr (), s') \<and> good si C (K + M) s'"
  unfolding blocksEventLoop_def
  using completes_for_each [where I = "good si C (K + M)" and xs = updates and body = "handle_update si", OF _ _ assms(1)]
    update_returns assms(2) by (fastforce simp: completes_def)

end

text \<open>C3: total correctness of the event loop. In the environment above, from every reachable state,
  any sequence of updates whose blocks are those of the chain and whose confirmed blocks have
  parameters is handled to its end: no error ends the process, no panic is raised, and the ledger
  is then what the confirmed blocks, one after the other, make of the one before.\<close>

theorem event_loop_total:
  assumes env: "healthy_env si C K M" and reach: "reachable si C s"
    and confirmed: "\<forall>u\<in>set updates. \<forall>b\<in>set (ConfirmedBlocks u). block_ok C b \<and>
      GetVersionedGlobalParamsByHeight si (u64_of_i32 (Height b)) \<noteq> None"
    and unconfirmed: "\<forall>u\<in>set updates. \<forall>b\<in>set (UnconfirmedBlocks u). block_ok C b"
  shows "\<exists>s'. blocksEventLoop si updates s = (Inr (), s') \<and>
    chain_ledger si (concat (map ConfirmedBlocks updates)) (ledger_at si s) = Some (ledger_at si s')"
proof -
  have good: "good si C (K + M) s" by (rule healthy_env.reachable_good [OF env reach])
  obtain s' where run: "blocksEventLoop si updates s = (Inr (), s')"
    using healthy_env.loop_returns [OF env good, of updates] confirmed unconfirmed by blast
  have "store_backend (store si)" using env by (simp add: healthy_env_def indexer_env_def)
  moreover have "reads_ok si" by (rule healthy_env.reads [OF env])
  ultimately show ?thesis
    using blocksEventLoop_ledger [OF _ _ good_db_ok [OF good] _ run] run confirmed by blast
qed

section \<open>Application\<close>

lemma sample_valid_stake:
  assumes "valid_stake sample_si sample_chain st"
  shows "Tx st = sample_stake" and "StakingOutputIdx st = 0"
proof -
  from assms obtain params stakingData where "Tx st \<in> sample_chain"
    and parsed: "tryParseStakingTx sample_si (Tx st) params = Inr stakingData"
    and idx: "StakingOutputIdx st = word_of_int (parsed_StakingOutputIdx stakingData)"
    by (auto simp: valid_stake_def)
  moreover from parsed have "tx_Version (Tx st) = 2" "parsed_StakingOutputIdx stakingData = 0"
    by (auto simp: tryParseStakingTx_def sample_si_def sample_lib_def split: if_splits sum.splits)
  ultimately show "Tx st = sample_stake" "StakingOutputIdx st = 0"
    by (auto simp: sample_chain_def sample_unbond_def sample_withdraw_def)
qed

lemma sample_witness:
  assumes "tx \<in> sample_chain" and "txIn \<in> set (TxIn tx)" and "Hash (PreviousOutPoint txIn) \<in> sample_TxHash ` sample_chain"
  shows "2 \<le> length (Witness txIn)"
proof -
  have "sample_TxHash sample_withdraw \<noteq> replicate 32 9" by code_simp
  with sample_hashes assms(3) have "Hash (PreviousOutPoint txIn) \<noteq> replicate 32 9" by (auto simp: sample_chain_def)
  with assms(2) TxIn_sample(1) have "tx \<noteq> sample_stake" by blast
  with assms(1,2) show ?thesis by (auto simp: sample_chain_def sample_unbond_def sample_withdraw_def)
qed

lemma writes_ok_sample: "writes_ok sample_si"
  by (auto simp: writes_ok_def sample_backend_def split: sum.split)

interpretation sample_healthy: healthy_env sample_si sample_chain 5000 3000
proof (unfold_locales, goal_cases)
  case 1
  show ?case by (rule reads_ok_sample)
next
  case 2
  show ?case by (rule writes_ok_sample)
next
  case 5
  show ?case by (rule caps_within_sample)
next
  case (8 tx)
  then show ?case by (auto simp: sample_chain_def sample_stake_def sample_unbond_def sample_withdraw_def)
next
  case 10
  show ?case by (simp add: no_double_spend_sample)
next
  case (12 st)
  then show ?case by (simp add: sample_valid_stake sample_stake_def)
next
  case (15 tx txIn st)
  then show ?case
    by (intro sample_witness) (simp_all add: spends_stake_def sample_valid_stake sample_chain_def sample_backend_def)
next
  case (16 tx txIn st params unbond)
  then show ?case by (intro sample_witness) (simp_all add: sample_backend_def)
qed (auto simp: sample_si_def sample_params_def sample_lib_def sample_backend_def rebuildStakingInfo_def
  rebuildUnbondingInfo_def not_less split: if_splits)

theorem event_loop_total_witness:
  "\<exists>s'. blocksEventLoop sample_si [sample_update, sample_update2] sample_start = (Inr (), s') \<and>
    chain_ledger sample_si [sample_block 100 [sample_stake], sample_block 101 [sample_unbond]]
      (ledger_at sample_si sample_start) = Some (ledger_at sample_si s')"
proof -
  have blocks: "block_ok sample_chain (sample_block 100 [sample_stake])" "block_ok sample_chain (sample_block 101 [sample_unbond])"
    by (rule block_ok_sample_block, simp add: sample_chain_def)+
  have heights: "GetVersionedGlobalParamsByHeight sample_si (u64_of_i32 (Height (sample_block 100 txs))) \<noteq> None"
    "GetVersionedGlobalParamsByHeight sample_si (u64_of_i32 (Height (sample_block 101 txs))) \<noteq> None" for txs
    by (simp_all add: sample_si_def sample_block_def NewIndexedBlockFromMsgBlock_def u64_of_i32_def)
  from event_loop_total [OF sample_healthy.healthy_env_axioms reachable_sample_start,
      of "[sample_update, sample_update2]"] blocks heights
  show ?thesis by (simp add: sample_update_def sample_update2_def)
qed

end
