(* ===== verification/Recovery.thy ===== *)
theory Recovery
  imports Healthy
begin

text \<open>
  Recovery from interruptions. A confirmed block is handled while the consumer and the database
  misbehave as they like, any number of times, with the store opened again in between or not;
  as soon as they behave, the block is handled to its end, and the ledger is the one that an
  undisturbed run gives.
\<close>

section \<open>The same indexer in a disturbed environment\<close>

text \<open>The indexer while its consumer and the write transactions of its database behave as given. A
  process that is killed is one for which every call fails from some point on.\<close>

definition disturbed ::
    "'db StakingIndexer \<Rightarrow> (event list \<Rightarrow> event \<Rightarrow> lib_error option) \<Rightarrow>
      (('db \<Rightarrow> go_error + 'db) \<Rightarrow> 'db \<Rightarrow> 'db \<times> go_error option) \<Rightarrow> 'db StakingIndexer" where
  "disturbed si c w = si\<lparr>consumer := c, store := (store si)\<lparr>Batch := w\<rparr>\<rparr>"

lemma disturbed_sel [simp]:
  "store (disturbed si c w) = (store si)\<lparr>Batch := w\<rparr>" "lib (disturbed si c w) = lib si"
  "hash_String (disturbed si c w) = hash_String si" "Versions (disturbed si c w) = Versions si"
  "GetVersionedGlobalParamsByHeight (disturbed si c w) = GetVersionedGlobalParamsByHeight si"
  "BTCNetParams (disturbed si c w) = BTCNetParams si"
  by (simp_all add: disturbed_def)

text \<open>What is stored, what it decodes to, and what is checked do not depend on either.\<close>

lemma decode_Batch [simp]:
  "protoStakingTxToStoredStakingTx (B\<lparr>Batch := w\<rparr>) = protoStakingTxToStoredStakingTx B"
  "protoUnbondingTxToStoredUnbondingTx (B\<lparr>Batch := w\<rparr>) = protoUnbondingTxToStoredUnbondingTx B"
  by (simp_all add: fun_eq_iff protoStakingTxToStoredStakingTx_def protoUnbondingTxToStoredUnbondingTx_def
      cong: sum.case_cong)

lemma codec_Batch: "TxHash (B\<lparr>Batch := w\<rparr>) = TxHash B" "Serialize (B\<lparr>Batch := w\<rparr>) = Serialize B"
  by simp_all

lemma entries_Batch [simp]:
  "staking_of (B\<lparr>Batch := w\<rparr>) = staking_of B" "unbonding_of (B\<lparr>Batch := w\<rparr>) = unbonding_of B"
  by (simp_all add: fun_eq_iff staking_of_def unbonding_of_def cong: sum.case_cong option.case_cong)

lemma ledger_Batch [simp]:
  "ledger_of (B\<lparr>Batch := w\<rparr>) = ledger_of B" "store_ok (B\<lparr>Batch := w\<rparr>) = store_ok B"
  by (simp_all add: fun_eq_iff ledger_of_def store_ok_def has_buckets_def contents_ok_def staking_decodes_def
      unbonding_decodes_def)

lemma rebuild_disturbed [simp]:
  "rebuildStakingInfo (disturbed si c w) = rebuildStakingInfo si"
  "rebuildUnbondingInfo (disturbed si c w) = rebuildUnbondingInfo si"
  by (simp_all add: fun_eq_iff rebuildStakingInfo_def rebuildUnbondingInfo_def)

lemma checks_disturbed [simp]:
  "tryParseStakingTx (disturbed si c w) = tryParseStakingTx si"
  "IsValidUnbondingTx (disturbed si c w) = IsValidUnbondingTx si"
  "staking_msg (disturbed si c w) = staking_msg si"
  unfolding fun_eq_iff tryParseStakingTx_def IsValidUnbondingTx_def staking_msg_def rebuild_disturbed disturbed_sel
    codec_Batch
  by simp_all

lemma state_disturbed [simp]:
  "ledger_at (disturbed si c w) = ledger_at si" "db_ok (disturbed si c w) = db_ok si"
  "reads_ok (disturbed si c w) = reads_ok si"
  by (simp_all add: fun_eq_iff ledger_at_def db_ok_def reads_ok_def)

lemma step_disturbed [simp]:
  "stake_step (disturbed si c w) = stake_step si" "unbond_step (disturbed si c w) = unbond_step si"
proof -
  have "stored_at (disturbed si c w) = stored_at si"
    by (simp add: fun_eq_iff stored_at_def cong: option.case_cong)
  moreover have "unbond_stored (disturbed si c w) = unbond_stored si"
    unfolding fun_eq_iff unbond_stored_def checks_disturbed disturbed_sel codec_Batch by (intro allI refl)
  ultimately show "unbond_step (disturbed si c w) = unbond_step si"
    by (simp add: fun_eq_iff unbond_step_def split: option.split)
  show "stake_step (disturbed si c w) = stake_step si"
    by (simp add: fun_eq_iff stake_step_def cong: option.case_cong if_cong sum.case_cong)
qed

lemma steps_disturbed [simp]: "block_steps (disturbed si c w) = block_steps si"
  by (simp add: fun_eq_iff block_steps_def tx_steps_def Let_def)

lemma announces_disturbed [simp]:
  "announces_stake (disturbed si c w) h p ev = announces_stake si h p ev"
  "announces_unbonding (disturbed si c w) h u ev = announces_unbonding si h u ev"
  by (cases ev; simp)+

lemma good_disturbed [simp]: "good (disturbed si c w) C n s = good si C n s"
  by (simp add: good_def index_ok_def stake_valid_def unbonding_valid_def)

lemma no_double_spend_Batch [simp]: "no_double_spend (B\<lparr>Batch := w\<rparr>) C = no_double_spend B C"
  by (simp add: no_double_spend_def)

lemma caps_disturbed [simp]: "caps_within (disturbed si c w) K M = caps_within si K M"
  by (simp add: caps_within_def)

section \<open>Attempts\<close>

inductive attempted :: "'db StakingIndexer \<Rightarrow> IndexedBlock \<Rightarrow> 'db state \<Rightarrow> 'db state \<Rightarrow> bool" for si b s where
  none: "attempted si b s s"
| handled: "attempted si b s s1 \<Longrightarrow> store_backend ((store si)\<lparr>Batch := w\<rparr>) \<Longrightarrow>
    HandleConfirmedBlock (disturbed si c w) b s1 = (r, s2) \<Longrightarrow> attempted si b s s2"
| reopened: "attempted si b s s1 \<Longrightarrow> NewIndexerStore (store si) (db s1) = (d', None) \<Longrightarrow>
    attempted si b s (s1\<lparr>db := d', meters := zero_metrics\<rparr>)"

context healthy_env
begin

lemma disturbed_step:
  assumes good: "good si C (K + M) s" and b: "block_ok C b"
    and par: "GetVersionedGlobalParamsByHeight si (u64_of_i32 (Height b)) = Some params"
    and w: "store_backend ((store si)\<lparr>Batch := w\<rparr>)" and run: "HandleConfirmedBlock (disturbed si c w) b s = (r, s')"
  shows "good si C (K + M) s'" and "\<exists>n. run_steps (take n (block_steps si params b)) (ledger_at si s) = Some (ledger_at si s')"
proof -
  let ?si = "disturbed si c w"
  have env: "indexer_env ?si" using w by (simp add: indexer_env_def)
  have imp: "implements ?si (HandleConfirmedBlock ?si b) (block_steps ?si params b) s"
    by (rule indexer_env.implements_HandleConfirmedBlock [OF env _ b]) (simp_all add: reads par)
  have "good ?si C (K + M) s'"
  proof (rule good_step [OF _ _ _ imp run])
    show "progress ?si C s s'" by (rule run_inD [OF indexer_env.run_HandleConfirmedBlock [OF env b] run])
    show "\<forall>f\<in>set (block_steps ?si params b). keeps_bound (K + M) f"
      using keeps_bound_block_steps [OF caps(1,3) par] by simp
  qed (use good one_spender in simp_all)
  then show "good si C (K + M) s'" by simp
  have "db_ok ?si s" using good_db_ok [OF good] by simp
  show "\<exists>n. run_steps (take n (block_steps si params b)) (ledger_at si s) = Some (ledger_at si s')"
  proof (cases r)
    case (Inl f)
    with implements_Inl(2) [OF imp \<open>db_ok ?si s\<close>] run show ?thesis by simp
  next
    case (Inr y)
    with implements_Inr(2) [OF imp \<open>db_ok ?si s\<close>] run show ?thesis
      by (intro exI [of _ "length (block_steps si params b)"]) simp
  qed
qed

lemma good_reopened:
  assumes "good si C n s" and "NewIndexerStore (store si) (db s) = (d', None)"
  shows "good si C n (s\<lparr>db := d', meters := m\<rparr>)" and "ledger_at si (s\<lparr>db := d', meters := m\<rparr>) = ledger_at si s"
proof -
  have "store_ok (store si) (db s)" using assms(1) by (simp add: good_def index_ok_def db_ok_def)
  then have "ledger_of (store si) d' = ledger_of (store si) (db s)"
    using store_ok_NewIndexerStore [OF assms(2)] by (simp add: store_ok_def)
  then show "ledger_at si (s\<lparr>db := d', meters := m\<rparr>) = ledger_at si s" by (simp add: ledger_at_def)
  with assms index_ok_reopened [of C s d' m] show "good si C n (s\<lparr>db := d', meters := m\<rparr>)"
    by (simp add: good_def)
qed

lemma attempted_prefix:
  assumes "attempted si b s s1" and "good si C (K + M) s" and b: "block_ok C b"
    and par: "GetVersionedGlobalParamsByHeight si (u64_of_i32 (Height b)) = Some params"
    and past: "spends_backwards (store si) (map MsgTx_of (Txs b))"
  shows "good si C (K + M) s1 \<and>
    (\<exists>n. run_steps (take n (block_steps si params b)) (ledger_at si s) = Some (ledger_at si s1))"
  using assms(1)
proof (induction rule: attempted.induct)
  case none
  show ?case using assms(2) by (intro conjI exI [of _ 0]) simp_all
next
  case (handled s1 w c r s2)
  then have good: "good si C (K + M) s1" by blast
  note step = disturbed_step [OF good b par handled(2,3)]
  from handled.IH step(2) replay_prefix_again [OF replayable_block_steps [OF past]] step(1) show ?case by metis
next
  case (reopened s1 d')
  then have good: "good si C (K + M) s1" by blast
  from reopened.IH good_reopened [OF good reopened(2), where m = zero_metrics] show ?case by simp
qed

lemma attempted_returns:
  assumes att: "attempted si b s s1" and good: "good si C (K + M) s" and b: "block_ok C b"
    and par: "GetVersionedGlobalParamsByHeight si (u64_of_i32 (Height b)) = Some params"
    and past: "spends_backwards (store si) (map MsgTx_of (Txs b))"
  shows "\<exists>s2 s3. HandleConfirmedBlock si b s1 = (Inr (), s2) \<and> HandleConfirmedBlock si b s = (Inr (), s3) \<and>
    ledger_at si s2 = ledger_at si s3"
proof -
  note imp = implements_HandleConfirmedBlock [OF reads b par]
  from attempted_prefix [OF assms] obtain n where good1: "good si C (K + M) s1"
    and n: "run_steps (take n (block_steps si params b)) (ledger_at si s) = Some (ledger_at si s1)" by blast
  from block_returns [OF good1 b par] block_returns [OF good b par] obtain s2 s3 where
    runs: "HandleConfirmedBlock si b s1 = (Inr (), s2)" "HandleConfirmedBlock si b s = (Inr (), s3)" by blast
  have "run_steps (block_steps si params b) (ledger_at si s) = Some (ledger_at si s2)"
    using replay_prefix [OF replayable_block_steps [OF past] n] implements_Inr(2) [OF imp good_db_ok [OF good1] runs(1)]
    by simp
  with implements_Inr(2) [OF imp good_db_ok [OF good] runs(2)] runs show ?thesis by simp
qed

end

section \<open>Recovery\<close>

text \<open>C8: a confirmed block whose handling was interrupted, any number of times and at any points, is
  completed by handling it again. Let the block be attempted from a reachable state under
  consumers that may refuse any event and databases that may refuse any write transaction (each
  attempt may return, fail, or end the process), with the store opened again in between or not.
  Then, once consumer and database accept what they are given, handling the block returns, and
  the ledger is the one that a single undisturbed run from the first state gives: nothing is
  counted twice and nothing is left out. (The environment is the healthy one of total
  correctness, in which the database can be read also during the attempts; no transaction of the
  block spends a later one.)\<close>

theorem interrupted_block_recovers:
  assumes env: "healthy_env si C K M" and reach: "reachable si C s" and b: "block_ok C b"
    and par: "GetVersionedGlobalParamsByHeight si (u64_of_i32 (Height b)) \<noteq> None"
    and past: "spends_backwards (store si) (map MsgTx_of (Txs b))" and att: "attempted si b s s1"
  shows "\<exists>s2 s3. HandleConfirmedBlock si b s1 = (Inr (), s2) \<and> HandleConfirmedBlock si b s = (Inr (), s3) \<and>
    ledger_at si s2 = ledger_at si s3"
  using healthy_env.attempted_returns [OF env att healthy_env.reachable_good [OF env reach] b _ past] par by auto

section \<open>Application\<close>

text \<open>A consumer that refuses every unbonding event: handling the block that holds the staking
  transaction and its unbonding stores the first and is then cut off.\<close>

definition no_unbondings :: "event list \<Rightarrow> event \<Rightarrow> lib_error option" where
  "no_unbondings q ev =
     (case ev of UnbondingStakingEvent _ _ _ _ _ _ _ \<Rightarrow> Some ''connection refused'' | _ \<Rightarrow> None)"

definition sample_cut :: "unit outcome \<times> mem_db state" where
  "sample_cut =
     HandleConfirmedBlock (disturbed sample_si no_unbondings (Batch sample_backend)) sample_both sample_start"

definition sample_restarted :: "mem_db state" where
  "sample_restarted = (snd sample_cut)\<lparr>db := fst (NewIndexerStore sample_backend (db (snd sample_cut))),
     meters := zero_metrics\<rparr>"

lemma attempted_sample: "attempted sample_si sample_both sample_start sample_restarted"
  unfolding sample_restarted_def
proof (rule attempted.reopened, rule attempted.handled [OF attempted.none])
  show "store_backend ((store sample_si)\<lparr>Batch := Batch sample_backend\<rparr>)"
    using sample_store by simp
  show "HandleConfirmedBlock (disturbed sample_si no_unbondings (Batch sample_backend)) sample_both sample_start =
      (fst sample_cut, snd sample_cut)"
    by (simp add: sample_cut_def)
  show "NewIndexerStore (store sample_si) (db (snd sample_cut)) =
      (fst (NewIndexerStore sample_backend (db (snd sample_cut))), None)"
    by (simp add: NewIndexerStore_def initBuckets_def sample_backend_def)
qed

lemma spends_backwards_sample: "spends_backwards sample_backend (map MsgTx_of (Txs sample_both))"
proof -
  have "map MsgTx_of (Txs sample_both) = [sample_stake, sample_unbond]"
    by (simp add: sample_both_def sample_block_def NewIndexedBlockFromMsgBlock_def)
  moreover have "replicate 32 9 \<noteq> sample_TxHash sample_unbond" by code_simp
  ultimately show ?thesis by (simp add: sample_backend_def sample_stake_def)
qed

theorem interrupted_block_recovers_witness:
  "isl (fst sample_cut) \<and> unbonding (ledger_at sample_si (snd sample_cut)) (sample_TxHash sample_unbond) = None \<and>
    staking (ledger_at sample_si (snd sample_cut)) (sample_TxHash sample_stake) \<noteq> None \<and>
    (\<exists>s2 s3. HandleConfirmedBlock sample_si sample_both sample_restarted = (Inr (), s2) \<and>
      HandleConfirmedBlock sample_si sample_both sample_start = (Inr (), s3) \<and>
      ledger_at sample_si s2 = ledger_at sample_si s3)"
proof (intro conjI)
  show "isl (fst sample_cut)" by code_simp
  show "unbonding (ledger_at sample_si (snd sample_cut)) (sample_TxHash sample_unbond) = None" by code_simp
  show "staking (ledger_at sample_si (snd sample_cut)) (sample_TxHash sample_stake) \<noteq> None" by code_simp
  show "\<exists>s2 s3. HandleConfirmedBlock sample_si sample_both sample_restarted = (Inr (), s2) \<and>
      HandleConfirmedBlock sample_si sample_both sample_start = (Inr (), s3) \<and>
      ledger_at sample_si s2 = ledger_at sample_si s3"
    by (rule interrupted_block_recovers [OF sample_healthy.healthy_env_axioms reachable_sample_start
        block_ok_sample_both _ _ attempted_sample]) (simp_all add: sample_both_params spends_backwards_sample)
qed

end
