(* ===== verification/Btc_Cache.thy ===== *)
theory Btc_Cache
  imports Chain_Types
begin

text \<open>
  The cache of unconfirmed blocks (\<open>btcscanner/btc_cache.go\<close>). The mutex is not modelled:
  every operation holds it for its whole body, and the allocation of the slice is taken to
  succeed. The locale \<open>bounded_fifo\<close> is what the scanner
  relies on: a queue that drops its oldest entry when it is full, and gives up its oldest
  entries on request.
\<close>

section \<open>The cache\<close>

record BTCCache =
  blocks :: "IndexedBlock list"
  maxEntries :: u64

definition defaultMaxEntries :: u64 where
  "defaultMaxEntries = 100"

definition NewBTCCache :: "u64 \<Rightarrow> go_error + BTCCache" where
  "NewBTCCache n =
     (if n = 0 then Inl (ScannerErr ErrInvalidMaxEntries) else Inr \<lparr>blocks = [], maxEntries = n\<rparr>)"

definition cache_size :: "BTCCache \<Rightarrow> u64" where
  "cache_size b = word_of_nat (length (blocks b))"

definition Size :: "BTCCache \<Rightarrow> u64" where
  "Size b = cache_size b"

text \<open>\<open>add\<close>, and \<open>Add\<close>, which takes the lock. Dropping the first block of an empty slice is a
  run-time panic.\<close>

definition cache_add :: "IndexedBlock \<Rightarrow> (BTCCache, unit) prog" where
  "cache_add ib =
     bind (gets id) (\<lambda>b.
     let l = cache_size b in
     if l > maxEntries b then raise (Wrap ''current size is over max entries'' (ScannerErr ErrTooManyEntries))
     else bind (if l = maxEntries b then
                  if blocks b = [] then panic ''index out of range''
                  else modify (blocks_update tl)
                else ret ()) (\<lambda>_.
          modify (blocks_update (\<lambda>bs. bs @ [ib]))))"

definition Add :: "IndexedBlock \<Rightarrow> (BTCCache, unit) prog" where
  "Add ib = cache_add ib"

text \<open>\<open>sort.SliceIsSorted\<close> by height: no block is below its predecessor.\<close>

fun sorted_by_height :: "IndexedBlock list \<Rightarrow> bool" where
  "sorted_by_height (a # b # bs) \<longleftrightarrow> \<not> sint (Height b) < sint (Height a) \<and> sorted_by_height (b # bs)"
| "sorted_by_height _ \<longleftrightarrow> True"

definition Init :: "IndexedBlock list \<Rightarrow> (BTCCache, unit) prog" where
  "Init ibs =
     bind (gets id) (\<lambda>b.
     if int (length ibs) > sint (maxEntries b) then raise (ScannerErr ErrTooManyEntries)
     else if \<not> sorted_by_height ibs then raise (ScannerErr ErrUnsortedBlocks)
     else for_each ibs cache_add)"

definition First :: "BTCCache \<Rightarrow> IndexedBlock option" where
  "First b = (if cache_size b = 0 then None else Some (hd (blocks b)))"

definition Tip :: "BTCCache \<Rightarrow> IndexedBlock option" where
  "Tip b = (if cache_size b = 0 then None else Some (last (blocks b)))"

definition RemoveAll :: "(BTCCache, unit) prog" where
  "RemoveAll = modify (blocks_update (\<lambda>_. []))"

definition GetAllBlocks :: "BTCCache \<Rightarrow> IndexedBlock list" where
  "GetAllBlocks b = blocks b"

text \<open>With a negative count \<open>make\<close>, and the slice expression of the trim, panic.\<close>

definition GetLastBlocks :: "int \<Rightarrow> BTCCache \<Rightarrow> IndexedBlock list outcome" where
  "GetLastBlocks k b =
     (let l = int (length (blocks b)) in
      if l \<le> k then Inr (blocks b)
      else if k < 0 then Inl (Panic ''makeslice: len out of range'')
      else Inr (drop (nat (l - k)) (blocks b)))"

definition TrimConfirmedBlocks :: "int \<Rightarrow> (BTCCache, IndexedBlock list) prog" where
  "TrimConfirmedBlocks k =
     bind (gets id) (\<lambda>b.
     let l = int (length (blocks b)) in
     if l \<le> k then ret []
     else if k < 0 then panic ''slice bounds out of range''
     else bind (modify (blocks_update (drop (nat (l - k))))) (\<lambda>_.
          ret (take (nat (l - k)) (blocks b))))"

section \<open>The contract\<close>

text \<open>
  A bounded queue with at most \<open>cap\<close> entries: what its contents are after an insertion, a
  trim and a reset, on the states that are \<open>ok\<close>.
\<close>

locale bounded_fifo =
  fixes ok :: "'c \<Rightarrow> bool"
    and contents :: "'c \<Rightarrow> 'a list"
    and cap :: "'c \<Rightarrow> nat"
    and ins :: "'a \<Rightarrow> ('c, unit) prog"
    and trim :: "nat \<Rightarrow> ('c, 'a list) prog"
    and clear :: "('c, unit) prog"
  assumes ins_ok: "ok c \<Longrightarrow> \<exists>c'. ins x c = (Inr (), c') \<and> ok c' \<and> cap c' = cap c \<and>
      contents c' = (if length (contents c) < cap c then contents c else tl (contents c)) @ [x]"
    and trim_ok: "ok c \<Longrightarrow> \<exists>c'. trim k c = (Inr (take (length (contents c) - k) (contents c)), c') \<and>
      ok c' \<and> cap c' = cap c \<and> contents c' = drop (length (contents c) - k) (contents c)"
    and clear_ok: "ok c \<Longrightarrow> \<exists>c'. clear c = (Inr (), c') \<and> ok c' \<and> cap c' = cap c \<and> contents c' = []"
    and bounded: "ok c \<Longrightarrow> length (contents c) \<le> cap c"
    and cap_pos: "ok c \<Longrightarrow> 0 < cap c"
begin

text \<open>Insert and trim: nothing is lost while there is room for one more entry.\<close>

lemma ins_trim:
  assumes "ok c" and "length (contents c) < cap c"
  shows "\<exists>xs c'. bind (ins x) (\<lambda>_. trim k) c = (Inr xs, c') \<and> ok c' \<and> cap c' = cap c \<and>
    xs @ contents c' = contents c @ [x] \<and> length (contents c') = min k (Suc (length (contents c)))"
proof -
  from ins_ok [OF assms(1), of x] assms(2) obtain c1 where
    c1: "ins x c = (Inr (), c1)" "ok c1" "cap c1 = cap c" "contents c1 = contents c @ [x]" by auto
  from trim_ok [OF c1(2), of k] obtain c2 where
    c2: "trim k c1 = (Inr (take (length (contents c1) - k) (contents c1)), c2)"
      "ok c2" "cap c2 = cap c1" "contents c2 = drop (length (contents c1) - k) (contents c1)" by blast
  have "bind (ins x) (\<lambda>_. trim k) c = (Inr (take (length (contents c1) - k) (contents c1)), c2)"
    using c1(1) c2(1) by (simp add: bind_eq)
  moreover have "take (length (contents c1) - k) (contents c1) @ contents c2 = contents c @ [x]"
    unfolding c2(4) append_take_drop_id by (rule c1(4))
  moreover have "length (contents c2) = min k (Suc (length (contents c)))"
    by (simp add: c2(4) c1(4))
  ultimately show ?thesis using c1(3) c2(2,3) by auto
qed

text \<open>Inserting many: the newest entries remain.\<close>

lemma ins_all:
  assumes "ok c"
  shows "\<exists>c'. for_each xs ins c = (Inr (), c') \<and> ok c' \<and> cap c' = cap c \<and>
    contents c' = drop (length (contents c) + length xs - cap c) (contents c @ xs)"
  using assms
proof (induction xs arbitrary: c)
  case Nil
  then show ?case using bounded by (simp add: ret_def)
next
  case (Cons x xs)
  from ins_ok [OF Cons.prems, of x] obtain c1 where
    c1: "ins x c = (Inr (), c1)" "ok c1" "cap c1 = cap c"
      "contents c1 = (if length (contents c) < cap c then contents c else tl (contents c)) @ [x]"
    by blast
  from Cons.IH [OF c1(2)] obtain c2 where
    c2: "for_each xs ins c1 = (Inr (), c2)" "ok c2" "cap c2 = cap c1"
      "contents c2 = drop (length (contents c1) + length xs - cap c1) (contents c1 @ xs)"
    by blast
  have "contents c2 = drop (length (contents c) + length (x # xs) - cap c) (contents c @ x # xs)"
  proof (cases "length (contents c) < cap c")
    case True
    then show ?thesis using c1(3,4) c2(4) by simp
  next
    case False
    with bounded [OF Cons.prems] cap_pos [OF Cons.prems] obtain y ys where
      ys: "contents c = y # ys" "Suc (length ys) = cap c"
      by (cases "contents c") auto
    then show ?thesis using c1(3,4) c2(4) by simp
  qed
  with c1 c2 show ?case by (simp add: bind_Inr)
qed

text \<open>A trim that would keep as much as the queue can hold gives up nothing.\<close>

lemma trim_nothing:
  assumes "ok c" and "cap c \<le> k"
  shows "\<exists>c'. trim k c = (Inr [], c') \<and> contents c' = contents c"
  using trim_ok [OF assms(1), of k] bounded [OF assms(1)] assms(2) by auto

end

section \<open>The cache keeps the contract\<close>

definition cache_ok :: "BTCCache \<Rightarrow> bool" where
  "cache_ok b \<longleftrightarrow> maxEntries b \<noteq> 0 \<and> length (blocks b) \<le> unat (maxEntries b)"

lemma unat_cache_size:
  assumes "cache_ok b"
  shows "unat (cache_size b) = length (blocks b)"
proof -
  have "length (blocks b) < 2 ^ 64"
    using assms le_less_trans [OF _ unsigned_less [of "maxEntries b", where ?'a = nat]]
    by (simp add: cache_ok_def)
  then show ?thesis by (simp add: cache_size_def unat_of_nat take_bit_nat_eq_self)
qed

lemma cache_add_ok:
  assumes "cache_ok c"
  shows "\<exists>c'. Add x c = (Inr (), c') \<and> cache_ok c' \<and> unat (maxEntries c') = unat (maxEntries c) \<and>
    blocks c' = (if length (blocks c) < unat (maxEntries c) then blocks c else tl (blocks c)) @ [x]"
proof -
  have pos: "0 < unat (maxEntries c)" using assms by (simp add: cache_ok_def unat_gt_0)
  have "cache_size c = maxEntries c \<longleftrightarrow> length (blocks c) = unat (maxEntries c)"
    using unat_cache_size [OF assms] by (metis unsigned_word_eqI)
  moreover have "\<not> cache_size c > maxEntries c"
    using assms unat_cache_size [OF assms] by (simp add: word_less_nat_alt cache_ok_def)
  ultimately show ?thesis
    using assms pos
    by (auto simp: Add_def cache_add_def cache_ok_def Let_def prog_simps)
qed

interpretation cache: bounded_fifo cache_ok blocks "\<lambda>c. unat (maxEntries c)" Add
  "\<lambda>k. TrimConfirmedBlocks (int k)" RemoveAll
proof (unfold_locales, goal_cases)
  case (1 c x)
  then show ?case by (rule cache_add_ok)
next
  case (2 c k)
  then show ?case
    by (auto simp: TrimConfirmedBlocks_def cache_ok_def Let_def prog_simps nat_diff_distrib)
next
  case (3 c)
  then show ?case by (simp add: RemoveAll_def modify_def cache_ok_def)
next
  case (4 c)
  then show ?case by (simp add: cache_ok_def)
next
  case (5 c)
  then show ?case by (simp add: cache_ok_def unat_gt_0)
qed

section \<open>Properties of the cache\<close>

lemma Tip_cache_ok: "cache_ok c \<Longrightarrow> Tip c = (if blocks c = [] then None else Some (last (blocks c)))"
  using unat_cache_size [of c] by (auto simp: Tip_def unat_eq_0 [symmetric])

lemma First_cache_ok: "cache_ok c \<Longrightarrow> First c = (if blocks c = [] then None else Some (hd (blocks c)))"
  using unat_cache_size [of c] by (auto simp: First_def unat_eq_0 [symmetric])

lemma GetLastBlocks_ok:
  "0 \<le> k \<Longrightarrow> GetLastBlocks k c = Inr (drop (length (blocks c) - nat k) (blocks c))"
  by (auto simp: GetLastBlocks_def Let_def nat_diff_distrib)

text \<open>C30: a cache for \<open>n\<close> blocks that got the blocks \<open>ibs\<close> holds the last \<open>n\<close> of them in
  order, and adding never fails.\<close>

theorem cache_holds_last:
  assumes "NewBTCCache n = Inr c"
  shows "\<exists>c'. for_each ibs Add c = (Inr (), c') \<and> GetAllBlocks c' = drop (length ibs - unat n) ibs \<and>
    length (GetAllBlocks c') = min (length ibs) (unat n)"
proof -
  have "cache_ok c" "blocks c = []" "maxEntries c = n"
    using assms by (auto simp: NewBTCCache_def cache_ok_def split: if_splits)
  with cache.ins_all [of c ibs] show ?thesis
    by (auto simp: GetAllBlocks_def)
qed

end
