(* ===== verification/Btc_Scanner.thy ===== *)
theory Btc_Scanner
  imports Btc_Cache
begin

text \<open>
  The scanner (\<open>btcscanner/btc_scanner.go\<close>, \<open>btcscanner/block_handler.go\<close>): it follows the
  best chain of a Bitcoin node, keeps the unconfirmed blocks in its cache, and sends the
  confirmed ones to the indexer.

  The node is the record \<open>Client\<close>. Its answers may change from call to call: they depend on
  the number of calls made so far, which the state counts. \<open>BlockHash\<close> and the string form of
  a hash are calls of \<open>wire\<close> and \<open>chainhash\<close>. Sending on the channel may lose against the
  quit signal: \<open>receives\<close> says which sends succeed.

  The wait for the activation and the loop of \<open>Bootstrap\<close> take fuel. The latter gets as
  much as there are heights to fetch, plus one: it is used up only when the tip is the last
  \<open>uint64\<close>, where the loop of the code does not end.
\<close>

section \<open>State and environment\<close>

record BlockEpoch =
  epoch_Hash :: hash
  epoch_Height :: i32
  BlockHeader_of :: BlockHeader

record Client =
  GetTipHeight :: "nat \<Rightarrow> go_error + u64"
  GetBlockByHeight :: "nat \<Rightarrow> u64 \<Rightarrow> go_error + IndexedBlock"
  BlockHash :: "BlockHeader \<Rightarrow> hash"
  Hash_String :: "hash \<Rightarrow> string"
  receives :: "ChainUpdateInfo list \<Rightarrow> ChainUpdateInfo \<Rightarrow> bool"
  confirmationDepth :: u16

record BtcPoller =
  confirmedTipBlock :: "IndexedBlock option"
  unconfirmedBlockCache :: BTCCache
  chainUpdateInfoChan :: "ChainUpdateInfo list"
  isStarted :: bool
  quit :: bool
  majorReorgsCounter :: nat
  calls :: nat

definition ConfirmedBlockBatchSize :: nat where
  "ConfirmedBlockBatchSize = 100"

definition NewBTCScanner :: "go_error + BtcPoller" where
  "NewBTCScanner =
     (case NewBTCCache defaultMaxEntries of
        Inl e \<Rightarrow> Inl (Wrap ''failed to create BTC cache for tail blocks'' e)
      | Inr c \<Rightarrow>
          Inr \<lparr>confirmedTipBlock = None, unconfirmedBlockCache = c, chainUpdateInfoChan = [],
               isStarted = False, quit = False, majorReorgsCounter = 0, calls = 0\<rparr>)"

text \<open>A call of the client; an operation of the cache.\<close>

definition client_call :: "(nat \<Rightarrow> go_error + 'a) \<Rightarrow> (BtcPoller, 'a) prog" where
  "client_call f s =
     (case f (calls s) of Inl e \<Rightarrow> Inl (Error e) | Inr x \<Rightarrow> Inr x, s\<lparr>calls := Suc (calls s)\<rparr>)"

definition on_cache :: "(BTCCache, 'a) prog \<Rightarrow> (BtcPoller, 'a) prog" where
  "on_cache m s =
     (let (r, c) = m (unconfirmedBlockCache s) in (r, s\<lparr>unconfirmedBlockCache := c\<rparr>))"

text \<open>\<open>int(bs.confirmationDepth) - 1\<close>\<close>

definition kept :: "Client \<Rightarrow> int" where
  "kept cl = uint (confirmationDepth cl) - 1"

section \<open>Operations\<close>

definition LastConfirmedHeight :: "BtcPoller \<Rightarrow> u64" where
  "LastConfirmedHeight s =
     (case confirmedTipBlock s of None \<Rightarrow> 0 | Some b \<Rightarrow> u64_of_i32 (Height b))"

definition getUnconfirmedBlocks :: "Client \<Rightarrow> BtcPoller \<Rightarrow> IndexedBlock list outcome" where
  "getUnconfirmedBlocks cl s =
     (case Tip (unconfirmedBlockCache s) of
        None \<Rightarrow> Inr []
      | Some _ \<Rightarrow> GetLastBlocks (kept cl) (unconfirmedBlockCache s))"

definition send_update :: "Client \<Rightarrow> ChainUpdateInfo \<Rightarrow> (BtcPoller, unit) prog" where
  "send_update cl u =
     modify (\<lambda>s. if receives cl (chainUpdateInfoChan s) u
                 then s\<lparr>chainUpdateInfoChan := chainUpdateInfoChan s @ [u]\<rparr> else s)"

definition commitChainUpdate :: "Client \<Rightarrow> IndexedBlock list \<Rightarrow> (BtcPoller, unit) prog" where
  "commitChainUpdate cl confirmedBlocks =
     bind (if confirmedBlocks = [] then ret ()
           else
             bind (gets confirmedTipBlock) (\<lambda>confirmedTip.
             bind (case confirmedTip of
                     None \<Rightarrow> ret ()
                   | Some t \<Rightarrow>
                       if BlockHash cl (Header t) \<noteq> PrevBlock (Header (hd confirmedBlocks)) then
                         bind (modify (majorReorgsCounter_update Suc)) (\<lambda>_. panic ''major reorgs happened'')
                       else ret ()) (\<lambda>_.
             modify (\<lambda>s. s\<lparr>confirmedTipBlock := Some (last confirmedBlocks)\<rparr>)))) (\<lambda>_.
     bind (gets (getUnconfirmedBlocks cl)) (\<lambda>r.
     bind (lift r) (\<lambda>unconfirmedBlocks.
     send_update cl \<lparr>ConfirmedBlocks = confirmedBlocks, UnconfirmedBlocks = unconfirmedBlocks\<rparr>)))"

text \<open>Adding a block to the cache and trimming it, as both users do.\<close>

definition add_and_trim :: "Client \<Rightarrow> IndexedBlock \<Rightarrow> (BtcPoller, IndexedBlock list) prog" where
  "add_and_trim cl ib =
     bind (on_error (on_cache (Add ib)) (\<lambda>e. raise (Wrap ''failed to add the block to cache'' e))) (\<lambda>_.
     on_cache (TrimConfirmedBlocks (kept cl)))"

definition HandleNewBlock :: "Client \<Rightarrow> BlockEpoch \<Rightarrow> (BtcPoller, unit) prog" where
  "HandleNewBlock cl blockEpoch =
     bind (gets (\<lambda>s. Tip (unconfirmedBlockCache s))) (\<lambda>tip.
     case tip of
       None \<Rightarrow> raise (Errorf ''no unconfirmed blocks found'')
     | Some cacheTip \<Rightarrow>
         if sint (Height cacheTip) \<ge> sint (epoch_Height blockEpoch) then ret ()
         else if sint (Height cacheTip + 1) < sint (epoch_Height blockEpoch) then
           raise (Errorf ''missing blocks'')
         else if PrevBlock (BlockHeader_of blockEpoch) \<noteq> BlockHash cl (Header cacheTip) then
           raise (Errorf ''the parent hash of the block does not match the cache tip'')
         else
           bind (on_error (client_call (\<lambda>n. GetBlockByHeight cl n (u64_of_i32 (epoch_Height blockEpoch))))
             (\<lambda>e. raise (Wrap ''failed to get block'' e))) (\<lambda>ib.
           if Hash_String cl (BlockHash cl (Header ib)) \<noteq> Hash_String cl (epoch_Hash blockEpoch) then
             raise (Errorf ''re-org happened'')
           else bind (add_and_trim cl ib) (commitChainUpdate cl)))"

text \<open>The body of the loop of \<open>Bootstrap\<close>, which returns the confirmed blocks that are not
  committed yet, and the loop.\<close>

definition bootstrap_round :: "Client \<Rightarrow> u64 \<Rightarrow> IndexedBlock list \<Rightarrow> (BtcPoller, IndexedBlock list) prog" where
  "bootstrap_round cl i confirmedBlocks =
     bind (on_error (client_call (\<lambda>n. GetBlockByHeight cl n i))
       (\<lambda>e. raise (Wrap ''cannot get the block'' e))) (\<lambda>ib.
     bind (gets (\<lambda>s. Tip (unconfirmedBlockCache s))) (\<lambda>tip.
     if (case tip of None \<Rightarrow> False | Some tipCache \<Rightarrow> BlockHash cl (Header tipCache) \<noteq> PrevBlock (Header ib))
     then raise (Errorf ''the block is not connected to the cache tip'')
     else
       bind (add_and_trim cl ib) (\<lambda>tempConfirmedBlocks.
       let confirmed = confirmedBlocks @ tempConfirmedBlocks in
       if length confirmed \<ge> ConfirmedBlockBatchSize then
         bind (commitChainUpdate cl confirmed) (\<lambda>_. ret [])
       else ret confirmed)))"

fun bootstrap_loop ::
    "Client \<Rightarrow> nat \<Rightarrow> u64 \<Rightarrow> u64 \<Rightarrow> IndexedBlock list \<Rightarrow> (BtcPoller, IndexedBlock list) prog" where
  "bootstrap_loop cl 0 i tipHeight confirmedBlocks = out_of_fuel"
| "bootstrap_loop cl (Suc fuel) i tipHeight confirmedBlocks =
     (if \<not> i \<le> tipHeight then ret confirmedBlocks
      else bind (bootstrap_round cl i confirmedBlocks) (bootstrap_loop cl fuel (i + 1) tipHeight))"

text \<open>The end of \<open>Bootstrap\<close>: what is confirmed is committed, or at least what is cached.\<close>

definition bootstrap_end :: "Client \<Rightarrow> IndexedBlock list \<Rightarrow> (BtcPoller, unit) prog" where
  "bootstrap_end cl confirmedBlocks =
     bind (gets (getUnconfirmedBlocks cl)) (\<lambda>r.
     if confirmedBlocks \<noteq> [] then commitChainUpdate cl confirmedBlocks
     else bind (lift r) (\<lambda>unconfirmed.
          if unconfirmed \<noteq> [] then commitChainUpdate cl confirmedBlocks else ret ()))"

definition Bootstrap :: "Client \<Rightarrow> u64 \<Rightarrow> (BtcPoller, unit) prog" where
  "Bootstrap cl startHeight =
     bind (on_cache RemoveAll) (\<lambda>_.
     bind (on_error (client_call (GetTipHeight cl))
       (\<lambda>e. raise (Errorf ''cannot get the best BTC block''))) (\<lambda>tipHeight.
     if startHeight > tipHeight then
       raise (Errorf ''the start height is higher than the current tip height'')
     else
       bind (bootstrap_loop cl (unat (tipHeight - startHeight) + 2) startHeight tipHeight [])
         (bootstrap_end cl)))"

fun waitUntilActivation :: "Client \<Rightarrow> nat \<Rightarrow> u64 \<Rightarrow> (BtcPoller, unit) prog" where
  "waitUntilActivation cl 0 activationHeight = out_of_fuel"
| "waitUntilActivation cl (Suc fuel) activationHeight =
     bind (on_error (client_call (GetTipHeight cl))
       (\<lambda>e. raise (Errorf ''failed to get the current BTC tip height''))) (\<lambda>tipHeight.
     if tipHeight \<ge> activationHeight then ret ()
     else waitUntilActivation cl fuel activationHeight)"

text \<open>\<open>Start\<close> up to the point where it starts the event loop.\<close>

definition scanner_Start :: "Client \<Rightarrow> nat \<Rightarrow> u64 \<Rightarrow> u64 \<Rightarrow> (BtcPoller, unit) prog" where
  "scanner_Start cl fuel startHeight activationHeight =
     bind (gets isStarted) (\<lambda>started.
     bind (modify (isStarted_update (\<lambda>_. True))) (\<lambda>_.
     if started then raise (Errorf ''the BTC scanner is already started'')
     else
       bind (waitUntilActivation cl fuel activationHeight) (\<lambda>_.
       on_error (Bootstrap cl startHeight) (\<lambda>e. raise (Wrap ''failed to bootstrap'' e)))))"

text \<open>One new block in the event loop; the error of a failed bootstrap is only logged.\<close>

definition handle_epoch :: "Client \<Rightarrow> u64 \<Rightarrow> BlockEpoch \<Rightarrow> (BtcPoller, unit) prog" where
  "handle_epoch cl startHeight newBlock =
     on_error (HandleNewBlock cl newBlock) (\<lambda>_.
       bind (gets LastConfirmedHeight) (\<lambda>lastConfirmedHeight.
       let bootStrapHeight = (if lastConfirmedHeight \<noteq> 0 then lastConfirmedHeight + 1 else startHeight) in
       on_error (Bootstrap cl bootStrapHeight) (\<lambda>_. ret ())))"

text \<open>The event loop on the epochs it receives before it is told to quit; the notifier must
  register first.\<close>

definition blockEventLoop :: "Client \<Rightarrow> lib_error option \<Rightarrow> u64 \<Rightarrow> BlockEpoch list \<Rightarrow> (BtcPoller, unit) prog" where
  "blockEventLoop cl registerErr startHeight epochs =
     (case registerErr of
        Some _ \<Rightarrow> panic ''failed to register BTC notifier''
      | None \<Rightarrow> for_each epochs (handle_epoch cl startHeight))"

definition scanner_Stop :: "(BtcPoller, unit) prog" where
  "scanner_Stop =
     bind (gets isStarted) (\<lambda>started.
     bind (modify (isStarted_update (\<lambda>_. False))) (\<lambda>_.
     if \<not> started then ret () else modify (quit_update (\<lambda>_. True))))"

end
