(* ===== verification/Scanner_Correct.thy ===== *)
theory Scanner_Correct
  imports Btc_Scanner
begin

text \<open>
  What the scanner delivers: the confirmed blocks it sends form one hash-linked chain,
  whatever the node answers, and a bootstrap that succeeds delivers every block it fetched,
  confirmed or unconfirmed, in order.
\<close>

section \<open>Linked blocks and the stream of confirmed blocks\<close>

fun linked :: "Client \<Rightarrow> IndexedBlock list \<Rightarrow> bool" where
  "linked cl (a # b # bs) \<longleftrightarrow> BlockHash cl (Header a) = PrevBlock (Header b) \<and> linked cl (b # bs)"
| "linked cl _ \<longleftrightarrow> True"

fun consecutive :: "IndexedBlock list \<Rightarrow> bool" where
  "consecutive (a # b # bs) \<longleftrightarrow> Height b = Height a + 1 \<and> consecutive (b # bs)"
| "consecutive _ \<longleftrightarrow> True"

definition confirmed_stream :: "BtcPoller \<Rightarrow> IndexedBlock list" where
  "confirmed_stream s = concat (map ConfirmedBlocks (chainUpdateInfoChan s))"

text \<open>The depths for which the cache has room, and a channel whose receiver is there.\<close>

definition client_ok :: "Client \<Rightarrow> bool" where
  "client_ok cl \<longleftrightarrow> 2 \<le> confirmationDepth cl \<and> confirmationDepth cl \<le> 100 \<and> (\<forall>us u. receives cl us u)"

text \<open>
  Hashes identify headers: a block that the node returns under the hash of a notification
  has the parent that the notification's header names. (The notification carries the hash of
  its own header, and no two headers of the run collide.)
\<close>

definition epoch_ok :: "Client \<Rightarrow> BlockEpoch \<Rightarrow> bool" where
  "epoch_ok cl ep \<longleftrightarrow>
     (\<forall>n h ib. GetBlockByHeight cl n h = Inr ib \<and>
        Hash_String cl (BlockHash cl (Header ib)) = Hash_String cl (epoch_Hash ep) \<longrightarrow>
        PrevBlock (Header ib) = PrevBlock (BlockHeader_of ep))"

definition kept_blocks :: "Client \<Rightarrow> nat" where
  "kept_blocks cl = unat (confirmationDepth cl) - 1"

definition scanner_cache_ok :: "Client \<Rightarrow> BtcPoller \<Rightarrow> bool" where
  "scanner_cache_ok cl s \<longleftrightarrow> cache_ok (unconfirmedBlockCache s) \<and>
     maxEntries (unconfirmedBlockCache s) = defaultMaxEntries \<and>
     length (blocks (unconfirmedBlockCache s)) \<le> kept_blocks cl \<and>
     linked cl (blocks (unconfirmedBlockCache s))"

definition stream_ok :: "Client \<Rightarrow> BtcPoller \<Rightarrow> bool" where
  "stream_ok cl s \<longleftrightarrow> linked cl (confirmed_stream s) \<and>
     confirmedTipBlock s = (if confirmed_stream s = [] then None else Some (last (confirmed_stream s)))"

definition scanner_ok :: "Client \<Rightarrow> BtcPoller \<Rightarrow> bool" where
  "scanner_ok cl s \<longleftrightarrow> scanner_cache_ok cl s \<and> stream_ok cl s"

lemma linked_append:
  "linked cl (xs @ ys) \<longleftrightarrow> linked cl xs \<and> linked cl ys \<and>
     (xs \<noteq> [] \<longrightarrow> ys \<noteq> [] \<longrightarrow> BlockHash cl (Header (last xs)) = PrevBlock (Header (hd ys)))"
proof (induction xs)
  case Nil
  show ?case by simp
next
  case (Cons x xs)
  then show ?case by (cases xs; cases ys) auto
qed

lemma kept_int: "client_ok cl \<Longrightarrow> kept cl = int (kept_blocks cl)"
  by (simp add: client_ok_def kept_def kept_blocks_def word_le_nat_alt of_nat_diff)

lemma kept_lt: "client_ok cl \<Longrightarrow> kept_blocks cl < 100" "client_ok cl \<Longrightarrow> 0 < kept_blocks cl"
  by (auto simp: client_ok_def kept_blocks_def word_le_nat_alt)

section \<open>Adding a block\<close>

lemma add_and_trim_ok:
  assumes cl: "client_ok cl" and s: "scanner_cache_ok cl s"
    and link: "linked cl (blocks (unconfirmedBlockCache s) @ [ib])"
  obtains xs c where "add_and_trim cl ib s = (Inr xs, s\<lparr>unconfirmedBlockCache := c\<rparr>)"
    and "xs @ blocks c = blocks (unconfirmedBlockCache s) @ [ib]"
    and "scanner_cache_ok cl (s\<lparr>unconfirmedBlockCache := c\<rparr>)"
    and "length (blocks c) = min (kept_blocks cl) (Suc (length (blocks (unconfirmedBlockCache s))))"
proof -
  let ?c0 = "unconfirmedBlockCache s"
  have ok: "cache_ok ?c0" and room: "length (blocks ?c0) < unat (maxEntries ?c0)"
    using s kept_lt(1) [OF cl] by (auto simp: scanner_cache_ok_def defaultMaxEntries_def)
  from cache.ins_trim [OF ok room, of ib "kept_blocks cl"] obtain xs c where
    run: "bind (Add ib) (\<lambda>_. TrimConfirmedBlocks (int (kept_blocks cl))) ?c0 = (Inr xs, c)"
    and c: "cache_ok c" "unat (maxEntries c) = unat (maxEntries ?c0)"
      "xs @ blocks c = blocks ?c0 @ [ib]"
      "length (blocks c) = min (kept_blocks cl) (Suc (length (blocks ?c0)))"
    by blast
  have "add_and_trim cl ib s = (Inr xs, s\<lparr>unconfirmedBlockCache := c\<rparr>)"
    using run cache_add_ok [OF ok, of ib]
    by (auto simp: add_and_trim_def kept_int [OF cl] bind_eq on_error_def attempt_def on_cache_def ret_def
        case_prod_beta)
  moreover have "linked cl (blocks c)"
    using link unfolding c(3) [symmetric] linked_append by blast
  moreover have "maxEntries c = maxEntries ?c0" using c(2) by (rule unsigned_word_eqI)
  ultimately show ?thesis
    using c s that by (simp add: scanner_cache_ok_def)
qed

text \<open>Committing blocks that follow each other.\<close>

lemma getUnconfirmedBlocks_ok:
  assumes "client_ok cl" and "scanner_cache_ok cl s"
  shows "getUnconfirmedBlocks cl s = Inr (blocks (unconfirmedBlockCache s))"
  using assms
  by (auto simp: getUnconfirmedBlocks_def scanner_cache_ok_def Tip_cache_ok GetLastBlocks_ok kept_int)

lemma commitChainUpdate_cases:
  assumes cl: "client_ok cl" and s: "scanner_ok cl s" and link: "linked cl bs"
  obtains (committed) s' where "commitChainUpdate cl bs s = (Inr (), s')" and "scanner_ok cl s'"
      and "chainUpdateInfoChan s' = chainUpdateInfoChan s @
        [\<lparr>ConfirmedBlocks = bs, UnconfirmedBlocks = blocks (unconfirmedBlockCache s)\<rparr>]"
      and "confirmed_stream s' = confirmed_stream s @ bs"
      and "unconfirmedBlockCache s' = unconfirmedBlockCache s"
  | (major_reorg) m s' where "commitChainUpdate cl bs s = (Inl (Panic m), s')" and "scanner_ok cl s'"
      and "confirmed_stream s' = confirmed_stream s" and "bs \<noteq> []"
      and "confirmed_stream s \<noteq> []"
      and "BlockHash cl (Header (last (confirmed_stream s))) \<noteq> PrevBlock (Header (hd bs))"
proof -
  define broken where "broken \<longleftrightarrow> bs \<noteq> [] \<and> confirmed_stream s \<noteq> [] \<and>
    BlockHash cl (Header (last (confirmed_stream s))) \<noteq> PrevBlock (Header (hd bs))"
  have tip: "confirmedTipBlock s = (if confirmed_stream s = [] then None else Some (last (confirmed_stream s)))"
    and cache: "scanner_cache_ok cl s"
    using s by (simp_all add: scanner_ok_def stream_ok_def)
  show ?thesis
  proof (cases broken)
    case True
    define s' where "s' = s\<lparr>majorReorgsCounter := Suc (majorReorgsCounter s)\<rparr>"
    have "commitChainUpdate cl bs s = (Inl (Panic ''major reorgs happened''), s')"
      using True by (simp add: broken_def commitChainUpdate_def prog_simps tip s'_def)
    moreover have "scanner_ok cl s'" "confirmed_stream s' = confirmed_stream s"
      using s by (simp_all add: s'_def scanner_ok_def scanner_cache_ok_def stream_ok_def confirmed_stream_def)
    ultimately show ?thesis using True major_reorg by (simp add: broken_def)
  next
    case False
    define u where "u = \<lparr>ConfirmedBlocks = bs, UnconfirmedBlocks = blocks (unconfirmedBlockCache s)\<rparr>"
    define s' where "s' = s\<lparr>confirmedTipBlock := (if bs = [] then confirmedTipBlock s else Some (last bs)),
      chainUpdateInfoChan := chainUpdateInfoChan s @ [u]\<rparr>"
    have un: "getUnconfirmedBlocks cl (s\<lparr>confirmedTipBlock := t\<rparr>) = Inr (blocks (unconfirmedBlockCache s))" for t
      using getUnconfirmedBlocks_ok [OF cl, of "s\<lparr>confirmedTipBlock := t\<rparr>"] cache
      by (simp add: scanner_cache_ok_def)
    have "commitChainUpdate cl bs s = (Inr (), s')"
      using False cl un getUnconfirmedBlocks_ok [OF cl cache]
      by (auto simp: broken_def commitChainUpdate_def send_update_def client_ok_def prog_simps tip s'_def u_def)
    moreover have stream: "confirmed_stream s' = confirmed_stream s @ bs"
      by (simp add: s'_def u_def confirmed_stream_def)
    moreover have "confirmedTipBlock s' = (if bs = [] then confirmedTipBlock s else Some (last bs))"
      and "unconfirmedBlockCache s' = unconfirmedBlockCache s"
      by (simp_all add: s'_def)
    then have "scanner_ok cl s'"
      using False s link tip
      by (auto simp: scanner_ok_def scanner_cache_ok_def stream_ok_def stream linked_append broken_def)
    ultimately show ?thesis
      by (intro committed [of s']) (simp_all add: s'_def u_def)
  qed
qed

section \<open>The loop of the bootstrap\<close>

text \<open>
  The loop at one state, for any answers of the node: the invariant is kept, and when it
  returns, the confirmed blocks it committed or still holds and the cache are, in order, what
  it had and the blocks it fetched.
\<close>

definition fetched :: "Client \<Rightarrow> u64 \<Rightarrow> IndexedBlock list \<Rightarrow> bool" where
  "fetched cl i ibs \<longleftrightarrow>
     (\<forall>j<length ibs. \<exists>n. GetBlockByHeight cl n (i + word_of_nat j) = Inr (ibs ! j))"

lemma fetched_Nil [simp]: "fetched cl i []"
  by (simp add: fetched_def)

lemma fetched_Cons:
  assumes "GetBlockByHeight cl n i = Inr ib" and "fetched cl (i + 1) ibs"
  shows "fetched cl i (ib # ibs)"
  unfolding fetched_def
proof (intro allI impI)
  fix j
  assume "j < length (ib # ibs)"
  then show "\<exists>n. GetBlockByHeight cl n (i + word_of_nat j) = Inr ((ib # ibs) ! j)"
    using assms by (cases j) (auto simp: fetched_def add.assoc)
qed

definition loop_ok :: "Client \<Rightarrow> IndexedBlock list \<Rightarrow> BtcPoller \<Rightarrow> bool" where
  "loop_ok cl confirmed s \<longleftrightarrow> scanner_ok cl s \<and>
     linked cl (confirmed @ blocks (unconfirmedBlockCache s)) \<and>
     (confirmed \<noteq> [] \<longrightarrow> blocks (unconfirmedBlockCache s) \<noteq> [])"

lemma loop_ok_Nil: "loop_ok cl [] s \<longleftrightarrow> scanner_ok cl s"
  by (auto simp: loop_ok_def scanner_ok_def scanner_cache_ok_def)

lemma scanner_ok_calls [simp]:
  "scanner_ok cl (s\<lparr>calls := n\<rparr>) = scanner_ok cl s"
  "scanner_cache_ok cl (s\<lparr>calls := n\<rparr>) = scanner_cache_ok cl s"
  "confirmed_stream (s\<lparr>calls := n\<rparr>) = confirmed_stream s"
  by (simp_all add: scanner_ok_def scanner_cache_ok_def stream_ok_def confirmed_stream_def)

lemma scanner_ok_cache:
  assumes "scanner_ok cl s" and "scanner_cache_ok cl (s\<lparr>unconfirmedBlockCache := c\<rparr>)"
  shows "scanner_ok cl (s\<lparr>unconfirmedBlockCache := c\<rparr>)"
    and "confirmed_stream (s\<lparr>unconfirmedBlockCache := c\<rparr>) = confirmed_stream s"
  using assms by (simp_all add: scanner_ok_def stream_ok_def confirmed_stream_def)

text \<open>One round of the loop: it stops with an error, or it fetches the next block.\<close>

text \<open>A round whose block was fetched and continues the cache.\<close>

lemma bootstrap_round_fetched:
  assumes cl: "client_ok cl" and s: "loop_ok cl confirmed s" and ib: "GetBlockByHeight cl (calls s) i = Inr ib"
    and link: "linked cl (blocks (unconfirmedBlockCache s) @ [ib])"
  obtains xs s2 where "bootstrap_round cl i confirmed s =
      (if length (confirmed @ xs) \<ge> ConfirmedBlockBatchSize
       then bind (commitChainUpdate cl (confirmed @ xs)) (\<lambda>_. ret []) s2 else (Inr (confirmed @ xs), s2))"
    and "loop_ok cl (confirmed @ xs) s2" and "linked cl (confirmed @ xs)"
    and "confirmed_stream s2 = confirmed_stream s"
    and "(confirmed @ xs) @ blocks (unconfirmedBlockCache s2) = confirmed @ blocks (unconfirmedBlockCache s) @ [ib]"
    and "length (blocks (unconfirmedBlockCache s2)) =
      min (kept_blocks cl) (Suc (length (blocks (unconfirmedBlockCache s))))"
proof -
  define s1 where "s1 = s\<lparr>calls := Suc (calls s)\<rparr>"
  have s1: "scanner_ok cl s1" "scanner_cache_ok cl s1" "confirmed_stream s1 = confirmed_stream s"
    "unconfirmedBlockCache s1 = unconfirmedBlockCache s"
    using s by (simp_all add: s1_def loop_ok_def) (simp add: scanner_ok_def)
  obtain xs c where add: "add_and_trim cl ib s1 = (Inr xs, s1\<lparr>unconfirmedBlockCache := c\<rparr>)"
    and c: "xs @ blocks c = blocks (unconfirmedBlockCache s1) @ [ib]"
      "scanner_cache_ok cl (s1\<lparr>unconfirmedBlockCache := c\<rparr>)"
      "length (blocks c) = min (kept_blocks cl) (Suc (length (blocks (unconfirmedBlockCache s1))))"
    using add_and_trim_ok [OF cl s1(2)] link s1(4) by metis
  define s2 where "s2 = s1\<lparr>unconfirmedBlockCache := c\<rparr>"
  have s2: "scanner_ok cl s2" "confirmed_stream s2 = confirmed_stream s" "unconfirmedBlockCache s2 = c"
    using scanner_ok_cache [OF s1(1) c(2)] s1(3) by (simp_all add: s2_def)
  have all: "(confirmed @ xs) @ blocks c = confirmed @ blocks (unconfirmedBlockCache s) @ [ib]"
    using c(1) s1(4) by simp
  have "linked cl ((confirmed @ xs) @ blocks c)"
    unfolding all
    using s link by (cases "blocks (unconfirmedBlockCache s)") (auto simp: loop_ok_def linked_append)
  moreover have "blocks c \<noteq> []" using c(3) kept_lt(2) [OF cl] by auto
  ultimately have "loop_ok cl (confirmed @ xs) s2" and "linked cl (confirmed @ xs)"
    using s2 by (auto simp: loop_ok_def linked_append)
  moreover have "on_error (client_call (\<lambda>n. GetBlockByHeight cl n i)) (\<lambda>e. raise (Wrap ''cannot get the block'' e)) s
      = (Inr ib, s1)"
    by (simp add: on_error_def attempt_def client_call_def bind_eq ret_def ib s1_def)
  then have "bootstrap_round cl i confirmed s =
      (if length (confirmed @ xs) \<ge> ConfirmedBlockBatchSize
       then bind (commitChainUpdate cl (confirmed @ xs)) (\<lambda>_. ret []) s2 else (Inr (confirmed @ xs), s2))"
    using link add s1(2)
    by (auto simp: bootstrap_round_def bind_Inr bind_Inr [OF gets_def] s1(4) scanner_cache_ok_def Tip_cache_ok
        linked_append s2_def Let_def ret_def)
  ultimately show thesis
    using s2 all c(3) s1(4) that by simp
qed

lemma bootstrap_round_cases:
  assumes cl: "client_ok cl" and s: "loop_ok cl confirmed s"
  obtains (stopped) f s' where "bootstrap_round cl i confirmed s = (Inl f, s')" and "scanner_ok cl s'"
      and "f \<noteq> OutOfFuel" and "\<exists>bs. confirmed_stream s' = confirmed_stream s @ bs"
      and "\<forall>e. f = Error e \<longrightarrow> confirmed_stream s' = confirmed_stream s \<and>
        unconfirmedBlockCache s' = unconfirmedBlockCache s"
  | (fetched) ib confirmed' s' n where "bootstrap_round cl i confirmed s = (Inr confirmed', s')"
      and "loop_ok cl confirmed' s'" and "GetBlockByHeight cl n i = Inr ib"
      and "confirmed_stream s' @ confirmed' @ blocks (unconfirmedBlockCache s') =
        confirmed_stream s @ confirmed @ blocks (unconfirmedBlockCache s) @ [ib]"
      and "length (blocks (unconfirmedBlockCache s')) =
        min (kept_blocks cl) (Suc (length (blocks (unconfirmedBlockCache s))))"
      and "\<exists>bs. confirmed_stream s' = confirmed_stream s @ bs"
      and "length confirmed < 100 \<Longrightarrow>
        length confirmed' < 100 \<and> length (confirmed_stream s') mod 100 = length (confirmed_stream s) mod 100"
proof (cases "GetBlockByHeight cl (calls s) i")
  case (Inl e)
  show ?thesis
    by (rule stopped [of "Error (Wrap ''cannot get the block'' e)" "s\<lparr>calls := Suc (calls s)\<rparr>"])
      (use s Inl in \<open>simp_all add: bootstrap_round_def client_call_def on_error_def attempt_def
        prog_simps loop_ok_def\<close>)
next
  case (Inr ib)
  show ?thesis
  proof (cases "linked cl (blocks (unconfirmedBlockCache s) @ [ib])")
    case False
    then have "bootstrap_round cl i confirmed s =
        (Inl (Error (Errorf ''the block is not connected to the cache tip'')), s\<lparr>calls := Suc (calls s)\<rparr>)"
      using s Inr
      by (auto simp: bootstrap_round_def client_call_def on_error_def attempt_def prog_simps loop_ok_def
          linked_append scanner_ok_def scanner_cache_ok_def Tip_cache_ok)
    then show ?thesis by (rule stopped) (use s in \<open>simp_all add: loop_ok_def\<close>)
  next
    case True
    obtain xs s2 where run: "bootstrap_round cl i confirmed s =
        (if length (confirmed @ xs) \<ge> ConfirmedBlockBatchSize
         then bind (commitChainUpdate cl (confirmed @ xs)) (\<lambda>_. ret []) s2 else (Inr (confirmed @ xs), s2))"
      and ok2: "loop_ok cl (confirmed @ xs) s2" and lc: "linked cl (confirmed @ xs)"
      and s2: "confirmed_stream s2 = confirmed_stream s"
        "(confirmed @ xs) @ blocks (unconfirmedBlockCache s2) = confirmed @ blocks (unconfirmedBlockCache s) @ [ib]"
        "length (blocks (unconfirmedBlockCache s2)) =
          min (kept_blocks cl) (Suc (length (blocks (unconfirmedBlockCache s))))"
      by (rule bootstrap_round_fetched [OF cl s Inr True])
    have s2ok: "scanner_ok cl s2" using ok2 by (simp add: loop_ok_def)
    have "length (blocks (unconfirmedBlockCache s)) \<le> kept_blocks cl"
      using s by (simp add: loop_ok_def scanner_ok_def scanner_cache_ok_def)
    then have one: "length xs \<le> 1" using arg_cong [OF s2(2), of length] s2(3) by simp
    show ?thesis
    proof (cases "length (confirmed @ xs) \<ge> ConfirmedBlockBatchSize")
      case False
      with run have "bootstrap_round cl i confirmed s = (Inr (confirmed @ xs), s2)" by simp
      then show ?thesis
        by (rule fetched [OF _ ok2 Inr]) (use s2 False in \<open>simp_all add: ConfirmedBlockBatchSize_def\<close>)
    next
      case True
      with run have run': "bootstrap_round cl i confirmed s =
          bind (commitChainUpdate cl (confirmed @ xs)) (\<lambda>_. ret []) s2" by simp
      show ?thesis
      proof (cases rule: commitChainUpdate_cases [OF cl s2ok lc])
        case (1 s3)
        then have "bootstrap_round cl i confirmed s = (Inr [], s3)" by (simp add: run' prog_simps)
        then show ?thesis
          by (rule fetched [OF _ _ Inr])
            (use 1 s2 one True in \<open>auto simp: loop_ok_Nil ConfirmedBlockBatchSize_def le_Suc_eq\<close>)
      next
        case (2 m s3)
        then have "bootstrap_round cl i confirmed s = (Inl (Panic m), s3)" by (simp add: run' prog_simps)
        then show ?thesis by (rule stopped) (use 2 s2 in auto)
      qed
    qed
  qed
qed

lemma bootstrap_loop_ok:
  assumes "client_ok cl" and "loop_ok cl confirmed s"
    and "bootstrap_loop cl fuel i tipHeight confirmed s = (r, s')"
  shows "scanner_ok cl s'" and "r = Inr confirmed' \<Longrightarrow> loop_ok cl confirmed' s'"
proof -
  have "scanner_ok cl s' \<and> (\<forall>confirmed'. r = Inr confirmed' \<longrightarrow> loop_ok cl confirmed' s')"
    using assms(2,3)
  proof (induction fuel arbitrary: i confirmed s)
    case 0
    then show ?case by (auto simp: out_of_fuel_def loop_ok_def)
  next
    case (Suc fuel)
    show ?case
    proof (cases "i \<le> tipHeight")
      case False
      with Suc.prems show ?thesis by (auto simp: ret_def loop_ok_def)
    next
      case True
      show ?thesis
        by (cases rule: bootstrap_round_cases [OF assms(1) Suc.prems(1), of i])
          (use Suc.prems(2) True Suc.IH in \<open>auto simp: bind_Inl bind_Inr\<close>)
    qed
  qed
  then show "scanner_ok cl s'" and "r = Inr confirmed' \<Longrightarrow> loop_ok cl confirmed' s'" by blast+
qed

lemma bootstrap_loop_returned:
  assumes "client_ok cl" and "loop_ok cl confirmed s" and "tipHeight \<noteq> - 1"
    and "bootstrap_loop cl fuel i tipHeight confirmed s = (Inr confirmed', s')"
  shows "\<exists>ibs. length ibs = heights i tipHeight \<and> fetched cl i ibs \<and> loop_ok cl confirmed' s' \<and>
    confirmed_stream s' @ confirmed' @ blocks (unconfirmedBlockCache s') =
      confirmed_stream s @ confirmed @ blocks (unconfirmedBlockCache s) @ ibs \<and>
    length (blocks (unconfirmedBlockCache s')) =
      min (kept_blocks cl) (length (blocks (unconfirmedBlockCache s)) + length ibs) \<and>
    (\<exists>bs. confirmed_stream s' = confirmed_stream s @ bs)"
  using assms(2,4)
proof (induction fuel arbitrary: i confirmed s)
  case 0
  then show ?case by (simp add: out_of_fuel_def)
next
  case (Suc fuel)
  show ?case
  proof (cases "i \<le> tipHeight")
    case False
    with Suc.prems show ?thesis
      by (auto simp: ret_def heights_def loop_ok_def scanner_ok_def scanner_cache_ok_def)
  next
    case True
    show ?thesis
    proof (cases rule: bootstrap_round_cases [OF assms(1) Suc.prems(1), of i])
      case (1 f s1)
      then show ?thesis using Suc.prems(2) True by (simp add: bind_Inl)
    next
      case (2 ib confirmed1 s1 n)
      then have "bootstrap_loop cl fuel (i + 1) tipHeight confirmed1 s1 = (Inr confirmed', s')"
        using Suc.prems(2) True by (simp add: bind_Inr)
      from Suc.IH [OF 2(2) this] obtain ibs where
        ibs: "length ibs = heights (i + 1) tipHeight" "fetched cl (i + 1) ibs" "loop_ok cl confirmed' s'"
        "confirmed_stream s' @ confirmed' @ blocks (unconfirmedBlockCache s') =
          confirmed_stream s1 @ confirmed1 @ blocks (unconfirmedBlockCache s1) @ ibs"
        "length (blocks (unconfirmedBlockCache s')) =
          min (kept_blocks cl) (length (blocks (unconfirmedBlockCache s1)) + length ibs)"
        "\<exists>bs. confirmed_stream s' = confirmed_stream s1 @ bs" by blast
      then have grown: "\<exists>bs. confirmed_stream s' = confirmed_stream s @ bs" using 2(6) by auto
      have "confirmed_stream s1 @ confirmed1 @ blocks (unconfirmedBlockCache s1) @ ibs =
          confirmed_stream s @ confirmed @ blocks (unconfirmedBlockCache s) @ ib # ibs"
        using arg_cong [OF 2(4), of "\<lambda>l. l @ ibs"] by simp
      with ibs fetched_Cons [OF 2(3) ibs(2)] heights_Suc [OF True assms(3)] show ?thesis
        by (intro exI [of _ "ib # ibs"]) (use grown in \<open>simp add: 2(5)\<close>)
    qed
  qed
qed

text \<open>The fuel of \<open>Bootstrap\<close> is enough.\<close>

lemma bootstrap_loop_fuel:
  assumes "client_ok cl" and "loop_ok cl confirmed s" and "tipHeight \<noteq> - 1"
    and "heights i tipHeight < fuel"
  shows "fst (bootstrap_loop cl fuel i tipHeight confirmed s) \<noteq> Inl OutOfFuel"
  using assms(2,4)
proof (induction fuel arbitrary: i confirmed s)
  case 0
  then show ?case by simp
next
  case (Suc fuel)
  show ?case
  proof (cases "i \<le> tipHeight")
    case False
    then show ?thesis by (simp add: ret_def)
  next
    case True
    with Suc.prems(2) heights_Suc [OF True assms(3)] have f: "heights (i + 1) tipHeight < fuel" by simp
    show ?thesis
      by (cases rule: bootstrap_round_cases [OF assms(1) Suc.prems(1), of i])
        (use True Suc.IH f in \<open>auto simp: bind_Inl bind_Inr\<close>)
  qed
qed

section \<open>Bootstrap and new blocks\<close>

lemma on_error_run:
  "on_error m (\<lambda>e. raise (g e)) s =
     (case m s of (Inl (Error e), s') \<Rightarrow> (Inl (Error (g e)), s') | (Inl f, s') \<Rightarrow> (Inl f, s') | (Inr x, s') \<Rightarrow> (Inr x, s'))"
  by (simp add: on_error_def attempt_def bind_def raise_def ret_def split: prod.split sum.split fault.split)

lemma bootstrap_end_run:
  assumes "client_ok cl" and "loop_ok cl confirmed s"
  shows "bootstrap_end cl confirmed s =
    (if confirmed \<noteq> [] \<or> blocks (unconfirmedBlockCache s) \<noteq> [] then commitChainUpdate cl confirmed s
     else (Inr (), s))"
  using getUnconfirmedBlocks_ok [OF assms(1), of s] assms(2)
  by (simp add: bootstrap_end_def bind_eq [of "gets _"] bind_eq [of "lift _"] gets_def lift_def ret_def
      loop_ok_def scanner_ok_def)

lemma RemoveAll_run:
  assumes "scanner_ok cl s"
  obtains c where "on_cache RemoveAll s = (Inr (), s\<lparr>unconfirmedBlockCache := c\<rparr>)" and "blocks c = []"
    and "scanner_ok cl (s\<lparr>unconfirmedBlockCache := c\<rparr>)"
    and "confirmed_stream (s\<lparr>unconfirmedBlockCache := c\<rparr>) = confirmed_stream s"
proof -
  let ?c = "unconfirmedBlockCache s\<lparr>blocks := []\<rparr>"
  have "on_cache RemoveAll s = (Inr (), s\<lparr>unconfirmedBlockCache := ?c\<rparr>)"
    by (simp add: on_cache_def RemoveAll_def modify_def)
  moreover have c: "scanner_cache_ok cl (s\<lparr>unconfirmedBlockCache := ?c\<rparr>)"
    using assms by (simp add: scanner_ok_def scanner_cache_ok_def cache_ok_def defaultMaxEntries_def)
  ultimately show ?thesis
    using scanner_ok_cache [OF assms c] by (intro that [of ?c]) simp_all
qed

text \<open>What \<open>Bootstrap\<close> does after it has cleared the cache and learned the tip.\<close>

lemma Bootstrap_run:
  assumes "scanner_ok cl s"
  obtains (no_tip) s' f where "Bootstrap cl startHeight s = (Inl f, s')" and "scanner_ok cl s'"
      and "f \<noteq> OutOfFuel" and "confirmed_stream s' = confirmed_stream s"
      and "blocks (unconfirmedBlockCache s') = []"
  | (looped) tipHeight s1 where "startHeight \<le> tipHeight" and "loop_ok cl [] s1"
      and "confirmed_stream s1 = confirmed_stream s" and "blocks (unconfirmedBlockCache s1) = []"
      and "\<exists>n. GetTipHeight cl n = Inr tipHeight"
      and "Bootstrap cl startHeight s = bind (bootstrap_loop cl (unat (tipHeight - startHeight) + 2)
        startHeight tipHeight []) (bootstrap_end cl) s1"
proof (rule RemoveAll_run [OF assms])
  fix c
  assume rm: "on_cache RemoveAll s = (Inr (), s\<lparr>unconfirmedBlockCache := c\<rparr>)" and c: "blocks c = []"
    and ok: "scanner_ok cl (s\<lparr>unconfirmedBlockCache := c\<rparr>)"
    and str: "confirmed_stream (s\<lparr>unconfirmedBlockCache := c\<rparr>) = confirmed_stream s"
  define s1 where "s1 = s\<lparr>unconfirmedBlockCache := c, calls := Suc (calls s)\<rparr>"
  have s1: "scanner_ok cl s1" "confirmed_stream s1 = confirmed_stream s" "blocks (unconfirmedBlockCache s1) = []"
    using ok str c unfolding s1_def by (simp_all only: scanner_ok_calls) simp
  show ?thesis
  proof (cases "GetTipHeight cl (calls s)")
    case (Inl e)
    then have "Bootstrap cl startHeight s = (Inl (Error (Errorf ''cannot get the best BTC block'')), s1)"
      by (simp add: Bootstrap_def bind_Inr [of "on_cache RemoveAll" s, OF rm] bind_def [of "on_error _ _"] on_error_run client_call_def s1_def)
    with s1 no_tip show ?thesis by simp
  next
    case (Inr tipHeight)
    have run: "Bootstrap cl startHeight s =
        (if startHeight > tipHeight
         then raise (Errorf ''the start height is higher than the current tip height'')
         else bind (bootstrap_loop cl (unat (tipHeight - startHeight) + 2) startHeight tipHeight [])
           (bootstrap_end cl)) s1"
      using Inr
      by (simp add: Bootstrap_def bind_Inr [of "on_cache RemoveAll" s, OF rm] bind_def [of "on_error _ _"]
          on_error_run client_call_def s1_def)
    show ?thesis
    proof (cases "startHeight > tipHeight")
      case True
      with run s1 show ?thesis
        by (intro no_tip [of "Error (Errorf ''the start height is higher than the current tip height'')" s1])
          (simp_all add: raise_def)
    next
      case False
      with run s1 Inr show ?thesis by (intro looped [of tipHeight s1]) (auto simp: loop_ok_Nil)
    qed
  qed
qed

text \<open>Every operation keeps the invariant, whatever the node answers.\<close>

lemma commitChainUpdate_ok:
  assumes "client_ok cl" and "scanner_ok cl s" and "linked cl bs"
  shows "scanner_ok cl (snd (commitChainUpdate cl bs s))"
  by (cases rule: commitChainUpdate_cases [OF assms]) simp_all

lemma Bootstrap_ok:
  assumes cl: "client_ok cl" and "scanner_ok cl s"
  shows "scanner_ok cl (snd (Bootstrap cl startHeight s))"
proof (cases rule: Bootstrap_run [OF assms(2), of startHeight])
  case (1 s' f)
  then show ?thesis by simp
next
  case (2 tipHeight s1)
  let ?loop = "bootstrap_loop cl (unat (tipHeight - startHeight) + 2) startHeight tipHeight []"
  show ?thesis
  proof (cases "?loop s1")
    case (Pair r s2)
    note ok = bootstrap_loop_ok(1) [OF cl 2(2) Pair]
    show ?thesis
    proof (cases r)
      case (Inl f)
      with ok Pair show ?thesis unfolding 2(6) by (simp add: bind_Inl del: bootstrap_loop.simps)
    next
      case (Inr confirmed)
      have loop: "loop_ok cl confirmed s2" by (rule bootstrap_loop_ok(2) [OF cl 2(2) Pair Inr])
      have "snd (bootstrap_end cl confirmed s2) = s2 \<or>
          bootstrap_end cl confirmed s2 = commitChainUpdate cl confirmed s2 \<and> linked cl confirmed"
        using loop by (simp add: bootstrap_end_run [OF cl loop]) (simp add: loop_ok_def linked_append)
      with ok Pair Inr show ?thesis
        unfolding 2(6) by (auto simp: bind_Inr commitChainUpdate_ok [OF cl] simp del: bootstrap_loop.simps)
    qed
  qed
qed

text \<open>The block of the notification is not above the tip of the cache.\<close>

definition late :: "BlockEpoch \<Rightarrow> BtcPoller \<Rightarrow> bool" where
  "late ep s \<longleftrightarrow> (case Tip (unconfirmedBlockCache s) of None \<Rightarrow> False
     | Some cacheTip \<Rightarrow> sint (epoch_Height ep) \<le> sint (Height cacheTip))"

text \<open>A new block: refused or skipped without a change, or added to the cache and committed.\<close>

text \<open>A notification of the next block, for which the node returns a block with the same hash.\<close>

lemma HandleNewBlock_next:
  assumes cl: "client_ok cl" and ep: "epoch_ok cl ep" and s: "scanner_ok cl s"
    and tip: "Tip (unconfirmedBlockCache s) = Some tip"
    and nxt: "\<not> sint (Height tip) \<ge> sint (epoch_Height ep)" "\<not> sint (Height tip + 1) < sint (epoch_Height ep)"
      "PrevBlock (BlockHeader_of ep) = BlockHash cl (Header tip)"
    and ib: "GetBlockByHeight cl (calls s) (u64_of_i32 (epoch_Height ep)) = Inr ib"
    and hash: "Hash_String cl (BlockHash cl (Header ib)) = Hash_String cl (epoch_Hash ep)"
  obtains s1 confirmed where "HandleNewBlock cl ep s = commitChainUpdate cl confirmed s1"
    and "confirmed @ blocks (unconfirmedBlockCache s1) = blocks (unconfirmedBlockCache s) @ [ib]"
    and "scanner_ok cl s1" and "chainUpdateInfoChan s1 = chainUpdateInfoChan s" and "linked cl confirmed"
    and "length (blocks (unconfirmedBlockCache s1)) =
      min (kept_blocks cl) (Suc (length (blocks (unconfirmedBlockCache s))))"
proof -
  define s0 where "s0 = s\<lparr>calls := Suc (calls s)\<rparr>"
  have s0: "scanner_ok cl s0" "scanner_cache_ok cl s0" "unconfirmedBlockCache s0 = unconfirmedBlockCache s"
    using s by (simp_all add: s0_def) (simp add: scanner_ok_def)
  have "blocks (unconfirmedBlockCache s) \<noteq> []" "tip = last (blocks (unconfirmedBlockCache s))"
    using tip s by (auto simp: scanner_ok_def scanner_cache_ok_def Tip_cache_ok split: if_splits)
  moreover have "PrevBlock (Header ib) = PrevBlock (BlockHeader_of ep)"
    using hash ib ep unfolding epoch_ok_def by blast
  ultimately have link: "linked cl (blocks (unconfirmedBlockCache s0) @ [ib])"
    using nxt(3) s by (simp add: s0_def linked_append scanner_ok_def scanner_cache_ok_def)
  obtain xs c where add: "add_and_trim cl ib s0 = (Inr xs, s0\<lparr>unconfirmedBlockCache := c\<rparr>)"
    and c: "xs @ blocks c = blocks (unconfirmedBlockCache s0) @ [ib]"
      "scanner_cache_ok cl (s0\<lparr>unconfirmedBlockCache := c\<rparr>)"
      "length (blocks c) = min (kept_blocks cl) (Suc (length (blocks (unconfirmedBlockCache s0))))"
    by (rule add_and_trim_ok [OF cl s0(2) link])
  have "linked cl (xs @ blocks c)" using link c(1) by simp
  then have "linked cl xs" by (simp add: linked_append)
  moreover have "HandleNewBlock cl ep s = commitChainUpdate cl xs (s0\<lparr>unconfirmedBlockCache := c\<rparr>)"
    using nxt ib hash add
    by (simp add: HandleNewBlock_def bind_eq gets_def tip on_error_run client_call_def s0_def)
  ultimately show thesis
    using scanner_ok_cache(1) [OF s0(1) c(2)] c(1,3) s0(3)
    by (intro that [of xs "s0\<lparr>unconfirmedBlockCache := c\<rparr>"]) (simp_all add: s0_def)
qed

lemma HandleNewBlock_cases:
  assumes cl: "client_ok cl" and ep: "epoch_ok cl ep" and s: "scanner_ok cl s"
  obtains (unchanged) r n where "HandleNewBlock cl ep s = (r, s\<lparr>calls := n\<rparr>)" and "r = Inr () \<Longrightarrow> late ep s"
  | (extended) ib n s1 confirmed where "GetBlockByHeight cl n (u64_of_i32 (epoch_Height ep)) = Inr ib"
      and "HandleNewBlock cl ep s = commitChainUpdate cl confirmed s1"
      and "confirmed @ blocks (unconfirmedBlockCache s1) = blocks (unconfirmedBlockCache s) @ [ib]"
      and "scanner_ok cl s1" and "chainUpdateInfoChan s1 = chainUpdateInfoChan s"
      and "linked cl confirmed" and "late ep s = False"
      and "length (blocks (unconfirmedBlockCache s1)) =
        min (kept_blocks cl) (Suc (length (blocks (unconfirmedBlockCache s))))"
proof (cases "blocks (unconfirmedBlockCache s) = []")
  case True
  then have "HandleNewBlock cl ep s = (Inl (Error (Errorf ''no unconfirmed blocks found'')), s\<lparr>calls := calls s\<rparr>)"
    using s by (simp add: HandleNewBlock_def prog_simps scanner_ok_def scanner_cache_ok_def Tip_cache_ok)
  then show ?thesis by (rule unchanged) simp
next
  case False
  define tip where "tip = last (blocks (unconfirmedBlockCache s))"
  have tip: "Tip (unconfirmedBlockCache s) = Some tip"
    using s False by (simp add: tip_def scanner_ok_def scanner_cache_ok_def Tip_cache_ok)
  let ?late = "sint (Height tip) \<ge> sint (epoch_Height ep)"
  let ?early = "sint (Height tip + 1) < sint (epoch_Height ep)"
  let ?fork = "PrevBlock (BlockHeader_of ep) \<noteq> BlockHash cl (Header tip)"
  show ?thesis
  proof (cases "?late \<or> ?early \<or> ?fork")
    case True
    then have "\<exists>r. HandleNewBlock cl ep s = (r, s\<lparr>calls := calls s\<rparr>) \<and> (r = Inr () \<longrightarrow> late ep s)"
      by (auto simp: HandleNewBlock_def prog_simps tip late_def)
    then show ?thesis using unchanged by blast
  next
    case ok: False
    show ?thesis
    proof (cases "\<exists>ib. GetBlockByHeight cl (calls s) (u64_of_i32 (epoch_Height ep)) = Inr ib \<and>
        Hash_String cl (BlockHash cl (Header ib)) = Hash_String cl (epoch_Hash ep)")
      case False
      then have "\<exists>r. HandleNewBlock cl ep s = (r, s\<lparr>calls := Suc (calls s)\<rparr>) \<and> r \<noteq> Inr ()"
        using ok
        by (cases "GetBlockByHeight cl (calls s) (u64_of_i32 (epoch_Height ep))")
          (auto simp: HandleNewBlock_def bind_eq gets_def raise_def ret_def tip on_error_run client_call_def)
      then show ?thesis using unchanged by blast
    next
      case True
      then obtain ib where ib: "GetBlockByHeight cl (calls s) (u64_of_i32 (epoch_Height ep)) = Inr ib"
        and hash: "Hash_String cl (BlockHash cl (Header ib)) = Hash_String cl (epoch_Hash ep)" by blast
      show ?thesis
      proof (rule HandleNewBlock_next [OF cl ep s tip _ _ _ ib hash])
        fix s1 confirmed
        assume run: "HandleNewBlock cl ep s = commitChainUpdate cl confirmed s1"
          and s1: "confirmed @ blocks (unconfirmedBlockCache s1) = blocks (unconfirmedBlockCache s) @ [ib]"
            "scanner_ok cl s1" "chainUpdateInfoChan s1 = chainUpdateInfoChan s" "linked cl confirmed"
            "length (blocks (unconfirmedBlockCache s1)) =
              min (kept_blocks cl) (Suc (length (blocks (unconfirmedBlockCache s))))"
        have "late ep s = False" using ok by (simp add: late_def tip)
        then show ?thesis by (intro extended [OF ib run s1(1-4) _ s1(5)])
      qed (use ok in simp_all)
    qed
  qed
qed

lemma HandleNewBlock_ok:
  assumes "client_ok cl" and "epoch_ok cl ep" and "scanner_ok cl s"
  shows "scanner_ok cl (snd (HandleNewBlock cl ep s))"
  by (cases rule: HandleNewBlock_cases [OF assms])
    (simp_all add: assms(3) commitChainUpdate_ok [OF assms(1)])

lemma handle_epoch_ok:
  assumes "client_ok cl" and "epoch_ok cl ep"
  shows "run_in (\<lambda>s s'. scanner_ok cl s \<longrightarrow> scanner_ok cl s') (handle_epoch cl startHeight ep)"
  unfolding handle_epoch_def Let_def
  by (intro keeps.run_rules)
    (simp_all add: run_in_def HandleNewBlock_ok [OF assms] Bootstrap_ok [OF assms(1)])

section \<open>What the scanner delivers\<close>

text \<open>C11: a bootstrap that succeeds has fetched every block from the start height to the tip
  the node reported, and each is delivered: the confirmed ones in order, the last
  \<open>confirmationDepth - 1\<close> as unconfirmed blocks of the last update. This holds for a
  confirmation depth between 2 and 100, for which the cache of 100 blocks has room, and for a
  channel whose receiver is there (\<open>client_ok\<close>), in every state that the scanner's operations
  leave (\<open>scanner_ok\<close>), where no tip is at the last \<open>uint64\<close> height; for depths above 100 see
  \<open>deep_scanner_never_confirms\<close>.\<close>

theorem Bootstrap_returned:
  assumes cl: "client_ok cl" and s: "scanner_ok cl s" and tips: "\<forall>n. GetTipHeight cl n \<noteq> Inr (- 1)"
    and run: "Bootstrap cl startHeight s = (Inr (), s')"
  shows "\<exists>tipHeight ibs confirmed. (\<exists>n. GetTipHeight cl n = Inr tipHeight) \<and> startHeight \<le> tipHeight \<and>
    length ibs = Suc (unat (tipHeight - startHeight)) \<and> fetched cl startHeight ibs \<and>
    confirmed_stream s' = confirmed_stream s @ confirmed \<and>
    confirmed @ blocks (unconfirmedBlockCache s') = ibs \<and>
    length (blocks (unconfirmedBlockCache s')) = min (kept_blocks cl) (length ibs) \<and>
    UnconfirmedBlocks (last (chainUpdateInfoChan s')) = blocks (unconfirmedBlockCache s')"
proof (cases rule: Bootstrap_run [OF s, of startHeight])
  case (1 f s1)
  then show ?thesis using run by simp
next
  case (2 tipHeight s1)
  have tip: "tipHeight \<noteq> - 1" using 2(5) tips by auto
  from run [unfolded 2(6)] obtain rest s2 where
    loop: "bootstrap_loop cl (unat (tipHeight - startHeight) + 2) startHeight tipHeight [] s1 = (Inr rest, s2)"
    and fin: "bootstrap_end cl rest s2 = (Inr (), s')"
    by (rule bind_Inr_cases)
  from bootstrap_loop_returned [OF cl 2(2) tip loop] obtain ibs where
    ibs: "length ibs = Suc (unat (tipHeight - startHeight))" "fetched cl startHeight ibs" "loop_ok cl rest s2"
      "confirmed_stream s2 @ rest @ blocks (unconfirmedBlockCache s2) = confirmed_stream s @ ibs"
      "length (blocks (unconfirmedBlockCache s2)) = min (kept_blocks cl) (length ibs)"
      "\<exists>bs. confirmed_stream s2 = confirmed_stream s @ bs"
    using 2(1,3,4) by (auto simp: heights_def)
  have "blocks (unconfirmedBlockCache s2) \<noteq> []"
    using ibs(1,5) kept_lt(2) [OF cl] by auto
  then have commit: "commitChainUpdate cl rest s2 = (Inr (), s')"
    using fin by (simp add: bootstrap_end_run [OF cl ibs(3)])
  have "scanner_ok cl s2" "linked cl rest" using ibs(3) by (auto simp: loop_ok_def linked_append)
  then have end_state: "confirmed_stream s' = confirmed_stream s2 @ rest"
    "unconfirmedBlockCache s' = unconfirmedBlockCache s2"
    "UnconfirmedBlocks (last (chainUpdateInfoChan s')) = blocks (unconfirmedBlockCache s2)"
    using commit by (cases rule: commitChainUpdate_cases [OF cl, of s2 rest]; simp)+
  have "\<exists>confirmed. confirmed_stream s' = confirmed_stream s @ confirmed \<and>
      confirmed @ blocks (unconfirmedBlockCache s') = ibs"
    using ibs(4,6) end_state by auto
  then show ?thesis using 2(1,5) ibs(1,2,5) end_state by metis
qed

text \<open>C20: \<open>Bootstrap\<close> ends, also when the node fails or changes its chain in between, unless
  the node claims a tip at the last \<open>uint64\<close> height. The confirmation depth is between 2 and
  100, and the receiver of the channel is there (\<open>client_ok\<close>): with no receiver a commit waits.\<close>

theorem Bootstrap_ends:
  assumes cl: "client_ok cl" and s: "scanner_ok cl s" and tips: "\<forall>n. GetTipHeight cl n \<noteq> Inr (- 1)"
  shows "fst (Bootstrap cl startHeight s) \<noteq> Inl OutOfFuel"
proof (cases rule: Bootstrap_run [OF s, of startHeight])
  case (1 s' f)
  then show ?thesis by simp
next
  case (2 tipHeight s1)
  let ?loop = "bootstrap_loop cl (unat (tipHeight - startHeight) + 2) startHeight tipHeight []"
  have tip: "tipHeight \<noteq> - 1" using 2(5) tips by auto
  have "heights startHeight tipHeight < unat (tipHeight - startHeight) + 2"
    by (simp add: heights_def)
  note fuel = bootstrap_loop_fuel [OF cl 2(2) tip this]
  show ?thesis
  proof (cases "?loop s1")
    case (Pair r s2)
    show ?thesis
    proof (cases r)
      case (Inl f)
      with fuel Pair show ?thesis unfolding 2(6) by (simp add: bind_Inl del: bootstrap_loop.simps)
    next
      case (Inr confirmed)
      have loop: "loop_ok cl confirmed s2" by (rule bootstrap_loop_ok(2) [OF cl 2(2) Pair Inr])
      then have "scanner_ok cl s2" "linked cl confirmed" by (auto simp: loop_ok_def linked_append)
      then have "fst (commitChainUpdate cl confirmed s2) \<noteq> Inl OutOfFuel"
        by (cases rule: commitChainUpdate_cases [OF cl, of s2 confirmed]) simp_all
      with Pair Inr show ?thesis
        unfolding 2(6) by (simp add: bind_Inr bootstrap_end_run [OF cl loop] del: bootstrap_loop.simps)
    qed
  qed
qed

text \<open>C12: a notification that is handled without an error either tells nothing new, or its
  block joins the unconfirmed ones, and the update that is sent then holds exactly these,
  split into the blocks that are now confirmed and those that are still unconfirmed. This
  holds for a confirmation depth between 2 and 100, for which the cache of 100 blocks has room,
  and for a channel whose receiver is there (\<open>client_ok\<close>), in every state that the scanner's
  operations leave (\<open>scanner_ok\<close>), where the hash of the notification identifies its block
  (\<open>epoch_ok\<close>); above 100 a full cache drops its oldest block, and nothing is ever confirmed (\<open>deep_scanner_never_confirms\<close>).\<close>

theorem HandleNewBlock_delivers:
  assumes cl: "client_ok cl" and ep: "epoch_ok cl ep" and s: "scanner_ok cl s"
    and run: "HandleNewBlock cl ep s = (Inr (), s')"
  shows "late ep s \<and> chainUpdateInfoChan s' = chainUpdateInfoChan s \<or>
    (\<exists>n ib u. GetBlockByHeight cl n (u64_of_i32 (epoch_Height ep)) = Inr ib \<and>
       chainUpdateInfoChan s' = chainUpdateInfoChan s @ [u] \<and>
       ConfirmedBlocks u @ UnconfirmedBlocks u = blocks (unconfirmedBlockCache s) @ [ib] \<and>
       length (UnconfirmedBlocks u) =
         min (unat (confirmationDepth cl) - 1) (Suc (length (blocks (unconfirmedBlockCache s)))))"
proof (cases rule: HandleNewBlock_cases [OF cl ep s])
  case (1 r n)
  then show ?thesis using run by simp
next
  case (2 ib n s1 confirmed)
  have "commitChainUpdate cl confirmed s1 = (Inr (), s')" using run 2(2) by simp
  then have "chainUpdateInfoChan s' = chainUpdateInfoChan s1 @
      [\<lparr>ConfirmedBlocks = confirmed, UnconfirmedBlocks = blocks (unconfirmedBlockCache s1)\<rparr>]"
    by (cases rule: commitChainUpdate_cases [OF cl 2(4,6)]) simp_all
  with 2 show ?thesis
    by (intro disjI2 exI [of _ n] exI [of _ ib]) (simp add: kept_blocks_def)
qed

lemma waitUntilActivation_calls: "\<exists>n. snd (waitUntilActivation cl fuel a s) = s\<lparr>calls := n\<rparr>"
proof (induction fuel arbitrary: s)
  case 0
  show ?case by (intro exI [of _ "calls s"]) (simp add: out_of_fuel_def)
next
  case (Suc fuel)
  let ?s1 = "s\<lparr>calls := Suc (calls s)\<rparr>"
  show ?case
  proof (cases "GetTipHeight cl (calls s)")
    case (Inl e)
    then show ?thesis
      by (intro exI [of _ "Suc (calls s)"]) (simp add: bind_def on_error_run client_call_def)
  next
    case (Inr t)
    then have "waitUntilActivation cl (Suc fuel) a s =
        (if t \<ge> a then ret () else waitUntilActivation cl fuel a) ?s1"
      by (simp add: bind_def on_error_run client_call_def)
    with Suc.IH [of ?s1] show ?thesis
      by (auto simp: ret_def)
  qed
qed

lemma scanner_Start_ok:
  assumes "client_ok cl"
  shows "run_in (\<lambda>s s'. scanner_ok cl s \<longrightarrow> scanner_ok cl s') (scanner_Start cl fuel startHeight a)"
proof -
  have wait: "scanner_ok cl s \<longrightarrow> scanner_ok cl (snd (waitUntilActivation cl fuel a s))" for s
    using waitUntilActivation_calls [of cl fuel a s] by auto
  have start: "scanner_ok cl s \<longrightarrow> scanner_ok cl (s\<lparr>isStarted := b\<rparr>)" for s b
    by (simp add: scanner_ok_def scanner_cache_ok_def stream_ok_def confirmed_stream_def)
  have "run_in (\<lambda>s s'. scanner_ok cl s \<longrightarrow> scanner_ok cl s')
      (if started then raise (Errorf ''the BTC scanner is already started'')
       else bind (waitUntilActivation cl fuel a) (\<lambda>_. on_error (Bootstrap cl startHeight)
         (\<lambda>e. raise (Wrap ''failed to bootstrap'' e))))" for started
    by (simp add: keeps.run_raise)
      (intro impI keeps.run_rules, simp_all add: run_in_def wait Bootstrap_ok [OF assms])
  then show ?thesis
    unfolding scanner_Start_def by (intro keeps.run_rules) (simp_all add: start)
qed

lemma blockEventLoop_ok:
  assumes "client_ok cl" and "\<forall>ep\<in>set epochs. epoch_ok cl ep"
  shows "run_in (\<lambda>s s'. scanner_ok cl s \<longrightarrow> scanner_ok cl s') (blockEventLoop cl reg startHeight epochs)"
  using assms
  by (cases reg) (auto simp: blockEventLoop_def intro!: keeps.run_panic keeps.run_for_each handle_epoch_ok)

lemma NewBTCScanner_ok: "NewBTCScanner = Inr s \<Longrightarrow> scanner_ok cl s"
  by (auto simp: NewBTCScanner_def NewBTCCache_def defaultMaxEntries_def scanner_ok_def scanner_cache_ok_def
      stream_ok_def confirmed_stream_def cache_ok_def)

text \<open>C10: over a whole run of the scanner, with bootstraps, reorganisations seen through the
  notifications, failures of the node and retries, the confirmed blocks sent to the indexer
  form one chain: each block names the hash of the block sent before it as its parent. The
  confirmation depth is between 2 and 100, and the receiver of the channel is there
  (\<open>client_ok\<close>); the hash of a notification identifies its block (\<open>epoch_ok\<close>).\<close>

theorem confirmed_blocks_linked:
  assumes "client_ok cl" and "\<forall>ep\<in>set epochs. epoch_ok cl ep"
    and "NewBTCScanner = Inr s"
    and "bind (scanner_Start cl fuel startHeight activationHeight)
      (\<lambda>_. blockEventLoop cl reg startHeight epochs) s = (r, s')"
  shows "linked cl (concat (map ConfirmedBlocks (chainUpdateInfoChan s')))"
proof -
  have "run_in (\<lambda>s s'. scanner_ok cl s \<longrightarrow> scanner_ok cl s') (bind (scanner_Start cl fuel startHeight activationHeight)
      (\<lambda>_. blockEventLoop cl reg startHeight epochs))"
    by (intro keeps.run_bind scanner_Start_ok blockEventLoop_ok assms(1,2))
  from run_inD [OF this assms(4)] NewBTCScanner_ok [OF assms(3)] show ?thesis
    by (simp add: scanner_ok_def stream_ok_def confirmed_stream_def)
qed

text \<open>C29: the wait for the activation ends with the first tip that reaches the activation
  height, whatever number of tips below it the node reports first.\<close>

theorem waitUntilActivation_ends:
  assumes "\<forall>j<k. \<exists>t. GetTipHeight cl (calls s + j) = Inr t \<and> t < activationHeight"
    and "GetTipHeight cl (calls s + k) = Inr tipHeight" and "activationHeight \<le> tipHeight" and "k < fuel"
  shows "waitUntilActivation cl fuel activationHeight s = (Inr (), s\<lparr>calls := calls s + Suc k\<rparr>)"
  using assms
proof (induction k arbitrary: s fuel)
  case 0
  then obtain n where "fuel = Suc n" by (cases fuel) auto
  with 0 show ?case by (simp add: bind_def on_error_run client_call_def ret_def)
next
  case (Suc k)
  then obtain n where n: "fuel = Suc n" "k < n" by (cases fuel) auto
  let ?s1 = "s\<lparr>calls := Suc (calls s)\<rparr>"
  from Suc.prems(1) obtain t where t: "GetTipHeight cl (calls s) = Inr t" "t < activationHeight" by force
  have "\<forall>j<k. \<exists>t. GetTipHeight cl (calls ?s1 + j) = Inr t \<and> t < activationHeight"
  proof (intro allI impI)
    fix j
    assume "j < k"
    with Suc.prems(1) [rule_format, of "Suc j"]
    show "\<exists>t. GetTipHeight cl (calls ?s1 + j) = Inr t \<and> t < activationHeight" by simp
  qed
  then have "waitUntilActivation cl n activationHeight ?s1 = (Inr (), ?s1\<lparr>calls := calls ?s1 + Suc k\<rparr>)"
    by (rule Suc.IH) (use Suc.prems n in simp_all)
  with t show ?case
    by (simp add: n(1) bind_def on_error_run client_call_def linorder_not_le [symmetric])
qed

end
