(* ===== verification/Scanner_Source.thy ===== *)
theory Scanner_Source
  imports Scanner_Correct
begin

text \<open>
  Where the blocks come from: whatever holds of every block that the node returns holds of
  every block the scanner keeps and of every confirmed block it sends, at any depth. And the
  sequence of updates only grows.
\<close>

section \<open>Only blocks of the node\<close>

definition answers :: "Client \<Rightarrow> (IndexedBlock \<Rightarrow> bool) \<Rightarrow> bool" where
  "answers cl P \<longleftrightarrow> (\<forall>n h ib. GetBlockByHeight cl n h = Inr ib \<longrightarrow> P ib)"

definition all_blocks :: "(IndexedBlock \<Rightarrow> bool) \<Rightarrow> BtcPoller \<Rightarrow> bool" where
  "all_blocks P s \<longleftrightarrow> (\<forall>ib\<in>set (blocks (unconfirmedBlockCache s)). P ib) \<and>
     (\<forall>u\<in>set (chainUpdateInfoChan s). \<forall>ib\<in>set (ConfirmedBlocks u). P ib)"

abbreviation keeps_blocks :: "(IndexedBlock \<Rightarrow> bool) \<Rightarrow> (BtcPoller, 'a) prog \<Rightarrow> bool" where
  "keeps_blocks P m \<equiv> run_in (\<lambda>s s'. all_blocks P s \<longrightarrow> all_blocks P s') m"

lemma all_blocks_calls: "all_blocks P (s\<lparr>calls := n\<rparr>) = all_blocks P s"
  by (simp add: all_blocks_def)

lemma Add_blocks: "set (blocks (snd (Add ib c))) \<subseteq> insert ib (set (blocks c))"
  by (auto simp: Add_def cache_add_def Let_def prog_simps dest: list.set_sel(2))

lemma Trim_blocks:
  "set (blocks (snd (TrimConfirmedBlocks k c))) \<subseteq> set (blocks c)"
  "fst (TrimConfirmedBlocks k c) = Inr xs \<Longrightarrow> set xs \<subseteq> set (blocks c)"
  by (auto simp: TrimConfirmedBlocks_def Let_def prog_simps dest: in_set_dropD in_set_takeD split: if_splits)

lemma all_blocks_on_cache:
  assumes "all_blocks P s" and "\<forall>ib\<in>set (blocks (snd (m (unconfirmedBlockCache s)))). P ib"
  shows "all_blocks P (snd (on_cache m s))"
  using assms by (simp add: all_blocks_def on_cache_def case_prod_beta Let_def)

lemma client_call_blocks: "keeps_blocks P (client_call f)"
  by (simp add: run_in_def client_call_def all_blocks_calls)

lemma add_and_trim_blocks:
  assumes "all_blocks P s" and "P ib" and "add_and_trim cl ib s = (r, s')"
  shows "all_blocks P s'" and "r = Inr xs \<Longrightarrow> \<forall>b\<in>set xs. P b"
proof -
  define s1 where "s1 = snd (on_cache (Add ib) s)"
  have s1: "all_blocks P s1"
    unfolding s1_def using Add_blocks [of ib "unconfirmedBlockCache s"] assms(1,2)
    by (intro all_blocks_on_cache) (auto simp: all_blocks_def)
  let ?t = "on_cache (TrimConfirmedBlocks (kept cl)) s1"
  have t: "all_blocks P (snd ?t)"
    using Trim_blocks(1) [of "kept cl" "unconfirmedBlockCache s1"] s1
    by (intro all_blocks_on_cache) (auto simp: all_blocks_def)
  have "fst ?t = Inr xs \<Longrightarrow> \<forall>b\<in>set xs. P b"
    using Trim_blocks(2) [of "kept cl" "unconfirmedBlockCache s1" xs] s1
    by (auto simp: all_blocks_def on_cache_def case_prod_beta Let_def)
  moreover have "(r, s') = ?t \<or> (\<exists>f. (r, s') = (Inl f, s1))"
    using assms(3)
    by (auto simp: add_and_trim_def bind_def on_error_run s1_def split: prod.splits sum.splits fault.splits)
  ultimately show "all_blocks P s'" and "r = Inr xs \<Longrightarrow> \<forall>b\<in>set xs. P b"
    using t s1 by (metis fst_conv snd_conv sum.distinct(1))+
qed

lemma commit_blocks:
  assumes "\<forall>b\<in>set bs. P b"
  shows "keeps_blocks P (commitChainUpdate cl bs)"
  unfolding commitChainUpdate_def send_update_def
  using assms
  by (intro keeps.run_rules) (auto simp: all_blocks_def intro!: keeps.run_rules split: option.split)

lemma HandleNewBlock_blocks:
  assumes "answers cl P"
  shows "keeps_blocks P (HandleNewBlock cl ep)"
proof (rule run_inI, rule impI)
  fix s
  assume s: "all_blocks P s"
  have add: "all_blocks P (snd (bind (add_and_trim cl ib) (commitChainUpdate cl) s1))"
    if "all_blocks P s1" and "P ib" for ib s1
  proof (cases "add_and_trim cl ib s1")
    case (Pair r s2)
    note a = add_and_trim_blocks [OF that Pair]
    show ?thesis
    proof (cases r)
      case (Inr xs)
      with a Pair commit_blocks [of xs P cl] show ?thesis by (simp add: bind_Inr run_in_def)
    qed (use a Pair in \<open>simp add: bind_Inl\<close>)
  qed
  have get: "GetBlockByHeight cl n h = Inr ib \<Longrightarrow> P ib" for n h ib
    using assms by (simp add: answers_def)
  show "all_blocks P (snd (HandleNewBlock cl ep s))"
    using s get [of "calls s" "u64_of_i32 (epoch_Height ep)"]
    by (cases "Tip (unconfirmedBlockCache s)";
        cases "GetBlockByHeight cl (calls s) (u64_of_i32 (epoch_Height ep))")
      (auto simp: HandleNewBlock_def bind_Inr [OF gets_def] raise_def ret_def bind_def [of "on_error _ _"]
        on_error_run client_call_def all_blocks_calls add)
qed

lemma bootstrap_round_blocks:
  assumes "answers cl P" and "all_blocks P s" and "\<forall>b\<in>set confirmed. P b"
    and "bootstrap_round cl i confirmed s = (r, s')"
  shows "all_blocks P s' \<and> (\<forall>xs. r = Inr xs \<longrightarrow> (\<forall>b\<in>set xs. P b))"
proof (cases "GetBlockByHeight cl (calls s) i")
  case (Inl e)
  with assms(2,4) show ?thesis
    by (auto simp: bootstrap_round_def bind_def on_error_run client_call_def all_blocks_calls)
next
  case (Inr ib)
  let ?s1 = "s\<lparr>calls := Suc (calls s)\<rparr>"
  have ib: "P ib" using assms(1) Inr by (simp add: answers_def)
  have s1: "all_blocks P ?s1" using assms(2) by (simp add: all_blocks_calls)
  show ?thesis
  proof (cases "add_and_trim cl ib ?s1")
    case (Pair r2 s2)
    note a = add_and_trim_blocks [OF s1 ib Pair]
    have commit: "r2 = Inr xs \<Longrightarrow> all_blocks P (snd (commitChainUpdate cl (confirmed @ xs) s2))" for xs
      using commit_blocks [of "confirmed @ xs" P cl] a assms(3) by (auto simp: run_in_def)
    have run: "bootstrap_round cl i confirmed s = (Inl (Error (Errorf ''the block is not connected to the cache tip'')), ?s1) \<or>
      bootstrap_round cl i confirmed s = bind (add_and_trim cl ib) (\<lambda>xs.
        if length (confirmed @ xs) \<ge> ConfirmedBlockBatchSize
        then bind (commitChainUpdate cl (confirmed @ xs)) (\<lambda>_. ret []) else ret (confirmed @ xs)) ?s1"
      using Inr by (simp add: bootstrap_round_def bind_def [of "on_error _ _"] on_error_run client_call_def
          bind_Inr [OF gets_def] raise_def Let_def)
    show ?thesis
    proof (cases r2)
      case (Inl f)
      with run a s1 assms(4) Pair show ?thesis by (auto simp: bind_Inl)
    next
      case (Inr xs)
      with run a(1) a(2) [OF Inr] commit [OF Inr] s1 assms(3,4) Pair show ?thesis
        by (auto simp: bind_Inr ret_def bind_def [of "commitChainUpdate _ _"] split: if_splits prod.splits sum.splits)
    qed
  qed
qed

lemma bootstrap_loop_blocks:
  assumes "answers cl P" and "all_blocks P s" and "\<forall>b\<in>set confirmed. P b"
    and "bootstrap_loop cl fuel i tipHeight confirmed s = (r, s')"
  shows "all_blocks P s' \<and> (\<forall>xs. r = Inr xs \<longrightarrow> (\<forall>b\<in>set xs. P b))"
  using assms(2-4)
proof (induction fuel arbitrary: i confirmed s)
  case 0
  then show ?case by (auto simp: out_of_fuel_def)
next
  case (Suc fuel)
  show ?case
  proof (cases "i \<le> tipHeight")
    case False
    with Suc.prems show ?thesis by (auto simp: ret_def)
  next
    case True
    show ?thesis
    proof (cases "bootstrap_round cl i confirmed s")
      case (Pair r1 s1)
      note b = bootstrap_round_blocks [OF assms(1) Suc.prems(1,2) Pair]
      with Suc.prems(3) Suc.IH [of s1] True Pair show ?thesis
        by (cases r1) (auto simp: bind_Inl bind_Inr)
    qed
  qed
qed

lemma bootstrap_end_blocks:
  assumes "\<forall>b\<in>set confirmed. P b"
  shows "keeps_blocks P (bootstrap_end cl confirmed)"
  unfolding bootstrap_end_def
  by (intro keeps.run_bind keeps.run_gets)
    (auto intro!: keeps.run_bind keeps.run_lift keeps.run_ret commit_blocks assms)

lemma Bootstrap_blocks:
  assumes "answers cl P"
  shows "keeps_blocks P (Bootstrap cl startHeight)"
proof -
  have loop: "all_blocks P s \<longrightarrow> all_blocks P (snd (bind (bootstrap_loop cl fuel i t []) (bootstrap_end cl) s))" for s fuel i t
  proof
    assume s: "all_blocks P s"
    show "all_blocks P (snd (bind (bootstrap_loop cl fuel i t []) (bootstrap_end cl) s))"
    proof (cases "bootstrap_loop cl fuel i t [] s")
      case (Pair r s1)
      note l = bootstrap_loop_blocks [OF assms s _ Pair]
      show ?thesis
      proof (cases r)
        case (Inr xs)
        with l Pair bootstrap_end_blocks [of xs P cl] show ?thesis
          by (simp add: bind_Inr run_in_def del: bootstrap_loop.simps)
      qed (use l Pair in \<open>simp add: bind_Inl del: bootstrap_loop.simps\<close>)
    qed
  qed
  have "keeps_blocks P (on_cache RemoveAll)"
    by (auto simp: run_in_def RemoveAll_def modify_def intro!: all_blocks_on_cache)
  then show ?thesis
    unfolding Bootstrap_def
    by (intro keeps.run_bind keeps.run_on_error keeps.run_raise client_call_blocks)
      (auto simp: run_in_def loop raise_def simp del: bootstrap_loop.simps)
qed

lemma handle_epoch_blocks:
  assumes "answers cl P"
  shows "keeps_blocks P (handle_epoch cl startHeight ep)"
  unfolding handle_epoch_def Let_def
  by (intro keeps.run_on_error keeps.run_bind keeps.run_gets keeps.run_ret
    HandleNewBlock_blocks [OF assms] Bootstrap_blocks [OF assms])

lemma scanner_Start_blocks:
  assumes "answers cl P"
  shows "keeps_blocks P (scanner_Start cl fuel startHeight a)"
proof -
  have wait: "keeps_blocks P (waitUntilActivation cl fuel a)"
  proof (rule run_inI, rule impI)
    fix s
    assume "all_blocks P s"
    then show "all_blocks P (snd (waitUntilActivation cl fuel a s))"
      using waitUntilActivation_calls [of cl fuel a s] by (auto simp: all_blocks_calls)
  qed
  have started: "all_blocks P (s\<lparr>isStarted := b\<rparr>) = all_blocks P s" for s b by (simp add: all_blocks_def)
  show ?thesis
    unfolding scanner_Start_def
    by (intro keeps.run_bind keeps.run_gets keeps.run_modify)
      (auto simp: started intro!: keeps.run_raise keeps.run_bind keeps.run_on_error wait Bootstrap_blocks [OF assms])
qed

section \<open>The updates only grow\<close>

definition sends_more :: "BtcPoller \<Rightarrow> BtcPoller \<Rightarrow> bool" where
  "sends_more s s' \<longleftrightarrow> (\<exists>us. chainUpdateInfoChan s' = chainUpdateInfoChan s @ us)"

interpretation sends: state_preorder sends_more
  by unfold_locales (auto simp: sends_more_def)

lemma sends_client_call: "run_in sends_more (client_call f)"
  by (simp add: run_in_def client_call_def sends_more_def)

lemma sends_on_cache: "run_in sends_more (on_cache m)"
  by (simp add: run_in_def on_cache_def sends_more_def case_prod_beta Let_def)

lemma sends_commit: "run_in sends_more (commitChainUpdate cl bs)"
  unfolding commitChainUpdate_def send_update_def
  by (intro sends.run_rules) (auto simp: sends_more_def intro!: sends.run_rules split: option.split)

lemma sends_add_and_trim: "run_in sends_more (add_and_trim cl ib)"
  unfolding add_and_trim_def by (intro sends.run_rules sends_on_cache)

lemma sends_HandleNewBlock: "run_in sends_more (HandleNewBlock cl ep)"
  unfolding HandleNewBlock_def
  by (intro sends.run_rules)
    (auto split: option.split intro!: sends.run_rules sends_client_call sends_add_and_trim sends_commit)

lemma sends_bootstrap_round: "run_in sends_more (bootstrap_round cl i confirmed)"
  unfolding bootstrap_round_def Let_def
  by (intro sends.run_bind sends.run_on_error sends_client_call sends.run_gets sends.run_raise)
    (auto intro!: sends.run_rules sends_add_and_trim sends_commit)

lemma sends_bootstrap_loop: "run_in sends_more (bootstrap_loop cl fuel i t confirmed)"
  by (induction fuel arbitrary: i confirmed)
    (auto intro!: sends.run_ret sends.run_bind sends.run_out_of_fuel sends_bootstrap_round)

lemma sends_Bootstrap: "run_in sends_more (Bootstrap cl startHeight)"
  unfolding Bootstrap_def bootstrap_end_def
  by (intro sends.run_bind sends.run_on_error sends_on_cache sends_client_call sends.run_raise)
    (auto intro!: sends.run_rules sends_bootstrap_loop sends_commit simp del: bootstrap_loop.simps)

lemma sends_handle_epoch: "run_in sends_more (handle_epoch cl startHeight ep)"
  unfolding handle_epoch_def Let_def
  by (intro sends.run_rules sends_HandleNewBlock sends_Bootstrap)

lemma sends_scanner_Start: "run_in sends_more (scanner_Start cl fuel startHeight a)"
proof -
  have "run_in sends_more (waitUntilActivation cl fuel a)"
    using waitUntilActivation_calls [of cl fuel a] by (simp add: run_in_def sends_more_def) (metis
      append.right_neutral BtcPoller.select_convs(3) BtcPoller.surjective BtcPoller.update_convs(7))
  then show ?thesis
    unfolding scanner_Start_def
    by (intro sends.run_bind sends.run_gets sends.run_modify)
      (auto simp: sends_more_def intro!: sends.run_raise sends.run_bind sends.run_on_error sends_Bootstrap)
qed

end
