(* ===== verification/Lifecycle.thy ===== *)
theory Lifecycle
  imports Indexer_Correct Scanner_Source
begin

text \<open>
  The indexer with its scanner: \<open>NewStakingIndexer\<close>, \<open>Start\<close> and \<open>Stop\<close> of
  \<open>indexer/indexer.go\<close>, and the two goroutines that they set up, as a transition system. The
  event loop of the scanner appends the updates it sends to the channel, the event loop of the
  indexer takes them from there one by one. The channel of the code has no buffer; here the
  scanner may run ahead, which allows every interleaving of the code and more. A fault of
  either loop (a panic, a \<open>logger.Fatal\<close>) ends the process: there is no step for it.
\<close>

section \<open>State and operations\<close>

record 'db app =
  index :: "'db state"
  scanner :: BtcPoller
  received :: nat
  startOnce :: bool
  stopOnce :: bool
  si_quit :: bool
  startedAt :: "u64 option"

definition NewStakingIndexer :: "'db StakingIndexer \<Rightarrow> 'db \<Rightarrow> BtcPoller \<Rightarrow> go_error + 'db app" where
  "NewStakingIndexer si d btcScanner =
     (case NewIndexerStore (store si) d of
        (_, Some e) \<Rightarrow> Inl (Wrap ''failed to initiate staking indexer store'' e)
      | (d', None) \<Rightarrow>
          Inr \<lparr>index = \<lparr>db = d', queue = [], meters = zero_metrics\<rparr>, scanner = btcScanner, received = 0,
               startOnce = False, stopOnce = False, si_quit = False, startedAt = None\<rparr>)"

definition on_index :: "('db state, 'a) prog \<Rightarrow> ('db app, 'a) prog" where
  "on_index m a = (let (r, s) = m (index a) in (r, a\<lparr>index := s\<rparr>))"

definition on_scanner :: "(BtcPoller, 'a) prog \<Rightarrow> ('db app, 'a) prog" where
  "on_scanner m a = (let (r, s) = m (scanner a) in (r, a\<lparr>scanner := s\<rparr>))"

text \<open>A second call of \<open>Start\<close> does nothing and returns no error; so does one of \<open>Stop\<close>.\<close>

definition si_Start :: "Client \<Rightarrow> 'db StakingIndexer \<Rightarrow> nat \<Rightarrow> u64 \<Rightarrow> ('db app, unit) prog" where
  "si_Start cl si fuel startHeight =
     bind (gets startOnce) (\<lambda>started.
     if started then ret ()
     else
       bind (modify (startOnce_update (\<lambda>_. True))) (\<lambda>_.
       bind (wrap_error ''invalid start height''
         (bind (gets (\<lambda>a. db (index a))) (\<lambda>d. lift (ValidateStartHeight si startHeight d)))) (\<lambda>_.
       bind (lift (slice_index (Versions si) 0)) (\<lambda>v0.
       bind (on_scanner (scanner_Start cl fuel startHeight (ActivationHeight v0))) (\<lambda>_.
       bind (modify (startedAt_update (\<lambda>_. Some startHeight))) (\<lambda>_.
       on_index (metric (startBtcHeight_update (\<lambda>_. uint startHeight)))))))))"

definition si_Stop :: "('db app, unit) prog" where
  "si_Stop =
     bind (gets stopOnce) (\<lambda>stopped.
     if stopped then ret ()
     else
       bind (modify (\<lambda>a. a\<lparr>stopOnce := True, si_quit := True\<rparr>)) (\<lambda>_.
       on_scanner scanner_Stop))"

section \<open>The transition system\<close>

inductive app_step :: "Client \<Rightarrow> 'db StakingIndexer \<Rightarrow> 'db app \<Rightarrow> 'db app \<Rightarrow> bool" for cl si where
  start: "si_Start cl si fuel startHeight a = (r, a') \<Longrightarrow> app_step cl si a a'"
| notified: "startedAt a = Some startHeight \<Longrightarrow> \<not> quit (scanner a) \<Longrightarrow> epoch_ok cl ep \<Longrightarrow>
    on_scanner (handle_epoch cl startHeight ep) a = (Inr (), a') \<Longrightarrow> app_step cl si a a'"
| received: "startOnce a \<Longrightarrow> \<not> si_quit a \<Longrightarrow> received a < length (chainUpdateInfoChan (scanner a)) \<Longrightarrow>
    on_index (handle_update si (chainUpdateInfoChan (scanner a) ! received a)) a = (Inr (), a') \<Longrightarrow>
    app_step cl si a (a'\<lparr>received := Suc (received a)\<rparr>)"
| stop: "si_Stop a = (r, a') \<Longrightarrow> app_step cl si a a'"

text \<open>The confirmed blocks that the indexer has taken from the channel.\<close>

definition handled :: "'db app \<Rightarrow> IndexedBlock list" where
  "handled a = concat (map ConfirmedBlocks (take (received a) (chainUpdateInfoChan (scanner a))))"

text \<open>The invariant, for a store with the ledger \<open>l\<close> to begin with.\<close>

definition app_ok :: "Client \<Rightarrow> 'db StakingIndexer \<Rightarrow> MsgTx set \<Rightarrow> ledger \<Rightarrow> 'db app \<Rightarrow> bool" where
  "app_ok cl si C l a \<longleftrightarrow> scanner_ok cl (scanner a) \<and> all_blocks (block_ok C) (scanner a) \<and>
     received a \<le> length (chainUpdateInfoChan (scanner a)) \<and> db_ok si (index a) \<and>
     chain_ledger si (handled a) l = Some (ledger_at si (index a))"

lemma handled_more:
  assumes "sends_more (scanner a) s" and "received a \<le> length (chainUpdateInfoChan (scanner a))"
  shows "handled (a\<lparr>scanner := s\<rparr>) = handled a" and "received a \<le> length (chainUpdateInfoChan s)"
  using assms by (auto simp: sends_more_def handled_def)

text \<open>Steps of the scanner keep the invariant.\<close>

lemma app_ok_scanner:
  assumes ok: "app_ok cl si C l a" and more: "sends_more (scanner a) s"
    and "scanner_ok cl s" and "all_blocks (block_ok C) s"
  shows "app_ok cl si C l (a\<lparr>scanner := s\<rparr>)"
  using assms handled_more [OF more] by (simp add: app_ok_def)

lemma app_ok_fields [simp]:
  "app_ok cl si C l (a\<lparr>startOnce := b\<rparr>) = app_ok cl si C l a"
  "app_ok cl si C l (a\<lparr>stopOnce := b\<rparr>) = app_ok cl si C l a"
  "app_ok cl si C l (a\<lparr>si_quit := b\<rparr>) = app_ok cl si C l a"
  "app_ok cl si C l (a\<lparr>startedAt := h\<rparr>) = app_ok cl si C l a"
  by (simp_all add: app_ok_def handled_def)

lemma app_ok_on_scanner:
  assumes "run_in (\<lambda>s s'. scanner_ok cl s \<longrightarrow> scanner_ok cl s') m" and "keeps_blocks (block_ok C) m"
    and "run_in sends_more m"
  shows "run_in (\<lambda>a a'. app_ok cl si C l a \<longrightarrow> app_ok cl si C l a') (on_scanner m)"
proof (rule run_inI, rule impI)
  fix a :: "'b app"
  assume ok: "app_ok cl si C l a"
  let ?s = "snd (m (scanner a))"
  have "scanner_ok cl ?s" "all_blocks (block_ok C) ?s" "sends_more (scanner a) ?s"
    using assms ok by (simp_all add: run_in_def app_ok_def)
  from app_ok_scanner [OF ok this(3,1,2)] show "app_ok cl si C l (snd (on_scanner m a))"
    by (simp add: on_scanner_def case_prod_beta Let_def)
qed

lemma app_ok_metric: "run_in (\<lambda>a a'. app_ok cl si C l a \<longrightarrow> app_ok cl si C l a') (on_index (metric f))"
  by (simp add: run_in_def on_index_def metric_def modify_def app_ok_def handled_def db_ok_def ledger_at_def)

lemma app_ok_Start:
  assumes "client_ok cl" and "answers cl (block_ok C)"
  shows "run_in (\<lambda>a a'. app_ok cl si C l a \<longrightarrow> app_ok cl si C l a') (si_Start cl si fuel startHeight)"
proof -
  have scan: "run_in (\<lambda>a a'. app_ok cl si C l a \<longrightarrow> app_ok cl si C l a') (on_scanner (scanner_Start cl fuel startHeight h))" for h
    by (rule app_ok_on_scanner [OF scanner_Start_ok [OF assms(1)] scanner_Start_blocks [OF assms(2)] sends_scanner_Start])
  show ?thesis
    unfolding si_Start_def wrap_error_def
    by (rule keeps.run_bind [OF keeps.run_gets])
      (auto intro!: keeps.run_ret keeps.run_bind keeps.run_modify keeps.run_on_error keeps.run_gets keeps.run_lift
        keeps.run_raise scan app_ok_metric)
qed

lemma app_ok_Stop: "run_in (\<lambda>a a'. app_ok cl si C l a \<longrightarrow> app_ok cl si C l a') si_Stop"
proof -
  have "run_in (\<lambda>a a'. app_ok cl si C l a \<longrightarrow> app_ok cl si C l a') (on_scanner scanner_Stop)"
    unfolding scanner_Stop_def
    by (rule app_ok_on_scanner;
      simp add: run_in_def prog_simps scanner_ok_def scanner_cache_ok_def stream_ok_def confirmed_stream_def
        all_blocks_def sends_more_def)
  then show ?thesis
    unfolding si_Stop_def
    by (intro keeps.run_bind [OF keeps.run_gets])
      (auto intro!: keeps.run_ret keeps.run_bind keeps.run_modify)
qed

text \<open>Taking an update.\<close>

lemma app_ok_received:
  assumes B: "store_backend (store si)" and reads: "reads_ok si" and ok: "app_ok cl si C l a"
    and n: "received a < length (chainUpdateInfoChan (scanner a))"
    and run: "on_index (handle_update si (chainUpdateInfoChan (scanner a) ! received a)) a = (Inr (), a')"
  shows "app_ok cl si C l (a'\<lparr>received := Suc (received a)\<rparr>)"
proof -
  let ?u = "chainUpdateInfoChan (scanner a) ! received a"
  obtain s' where u: "handle_update si ?u (index a) = (Inr (), s')" and a': "a' = a\<lparr>index := s'\<rparr>"
    using run by (auto simp: on_index_def split: prod.splits)
  have "?u \<in> set (chainUpdateInfoChan (scanner a))" using n by simp
  then have blocks: "\<forall>b\<in>set (ConfirmedBlocks ?u). block_ok C b" using ok by (auto simp: app_ok_def all_blocks_def)
  have db: "db_ok si (index a)" and led: "chain_ledger si (handled a) l = Some (ledger_at si (index a))"
    using ok by (simp_all add: app_ok_def)
  from handle_update_ledger [OF B reads db blocks u] led
  have "db_ok si s'" and "chain_ledger si (handled a @ ConfirmedBlocks ?u) l = Some (ledger_at si s')"
    by (simp_all add: chain_ledger_append)
  moreover have "handled (a'\<lparr>received := Suc (received a)\<rparr>) = handled a @ ConfirmedBlocks ?u"
    using n by (simp add: handled_def a' take_Suc_conv_app_nth)
  ultimately show ?thesis using ok n by (simp add: app_ok_def a')
qed

lemma app_ok_step:
  assumes "store_backend (store si)" and "reads_ok si" and "client_ok cl" and "answers cl (block_ok C)"
    and "app_step cl si a a'" and "app_ok cl si C l a"
  shows "app_ok cl si C l a'"
  using assms(5,6)
proof cases
  case (start fuel startHeight r)
  then show ?thesis using run_inD [OF app_ok_Start [OF assms(3,4)]] assms(6) by blast
next
  case (notified startHeight ep)
  have "run_in (\<lambda>a a'. app_ok cl si C l a \<longrightarrow> app_ok cl si C l a') (on_scanner (handle_epoch cl startHeight ep))"
    by (rule app_ok_on_scanner [OF handle_epoch_ok [OF assms(3) notified(3)] handle_epoch_blocks [OF assms(4)]
      sends_handle_epoch])
  from run_inD [OF this notified(4)] assms(6) show ?thesis by blast
next
  case (received a1)
  then show ?thesis using app_ok_received [OF assms(1,2,6)] by simp
next
  case (stop r)
  then show ?thesis using run_inD [OF app_ok_Stop] assms(6) by blast
qed

lemma app_ok_new:
  assumes B: "store_backend (store si)" and "NewBTCScanner = Inr s" and "NewStakingIndexer si d s = Inr a"
    and d: "contents_ok (store si) d" "ledger_wf (ledger_of (store si) d)"
  shows "app_ok cl si C (ledger_of (store si) d) a"
proof -
  obtain d' where d': "NewIndexerStore (store si) d = (d', None)"
    and a: "scanner a = s" "received a = 0" "db (index a) = d'"
    using assms(3) by (auto simp: NewStakingIndexer_def split: prod.splits option.splits)
  have "all_blocks (block_ok C) s"
    using assms(2) by (auto simp: NewBTCScanner_def NewBTCCache_def defaultMaxEntries_def all_blocks_def)
  with store_backend.store_ok_NewIndexerStore [OF B d' d] NewBTCScanner_ok [OF assms(2)] a show ?thesis
    by (simp add: app_ok_def handled_def db_ok_def ledger_at_def)
qed

section \<open>Reachable states\<close>

lemma app_ok_reachable:
  assumes "store_backend (store si)" and "reads_ok si" and "client_ok cl" and "answers cl (block_ok C)"
    and "NewBTCScanner = Inr s" and "NewStakingIndexer si d s = Inr a"
    and "contents_ok (store si) d" and "ledger_wf (ledger_of (store si) d)"
    and "(app_step cl si)\<^sup>*\<^sup>* a a'"
  shows "app_ok cl si C (ledger_of (store si) d) a'"
  using assms(9)
proof (induction rule: rtranclp_induct)
  case base
  show ?case by (rule app_ok_new [OF assms(1,5,6,7,8)])
next
  case (step b c)
  then show ?case using app_ok_step [OF assms(1-4)] by blast
qed

lemma reachable_one_chain:
  assumes "store_backend (store si)" and "reads_ok si" and "client_ok cl" and "answers cl (block_ok C)"
    and "NewBTCScanner = Inr s" and "NewStakingIndexer si d s = Inr a"
    and "contents_ok (store si) d" and "ledger_wf (ledger_of (store si) d)"
    and "(app_step cl si)\<^sup>*\<^sup>* a a'"
  shows "linked cl (handled a') \<and>
    chain_ledger si (handled a') (ledger_of (store si) d) = Some (ledger_at si (index a'))"
proof -
  have ok: "scanner_ok cl (scanner a')"
    and led: "chain_ledger si (handled a') (ledger_of (store si) d) = Some (ledger_at si (index a'))"
    using app_ok_reachable [OF assms] by (simp_all add: app_ok_def)
  have "confirmed_stream (scanner a') = handled a' @
      concat (map ConfirmedBlocks (drop (received a') (chainUpdateInfoChan (scanner a'))))"
    unfolding confirmed_stream_def handled_def by (metis append_take_drop_id concat_append map_append)
  with ok have "linked cl (handled a')"
    by (simp add: scanner_ok_def stream_ok_def linked_append)
  with led show ?thesis by simp
qed

end
