(* ===== verification/Go_Std.thy ===== *)
theory Go_Std
  imports Prelude "HOL-Library.Char_ord"
begin

text \<open>
  What the configuration and the commands use of Go's standard library: decimal numbers
  (\<open>strconv\<close>, \<open>fmt\<close>), lower case (\<open>strings\<close>), IP addresses (\<open>net.ParseIP\<close>) and paths
  (\<open>path/filepath\<close> on Unix). Strings are sequences of bytes, as in Go.
\<close>

section \<open>Decimal numbers\<close>

definition digit :: "char \<Rightarrow> bool" where
  "digit c \<longleftrightarrow> CHR ''0'' \<le> c \<and> c \<le> CHR ''9''"

definition digit_value :: "char \<Rightarrow> nat" where
  "digit_value c = of_char c - 48"

definition digit_char :: "nat \<Rightarrow> char" where
  "digit_char n = char_of (48 + n mod 10)"

text \<open>\<open>%d\<close> of a number that is not negative.\<close>

fun show_nat :: "nat \<Rightarrow> string" where
  "show_nat n = (if n < 10 then [digit_char n] else show_nat (n div 10) @ [digit_char n])"

declare show_nat.simps [simp del]

definition show_int :: "int \<Rightarrow> string" where
  "show_int i = (if i < 0 then CHR ''-'' # show_nat (nat (- i)) else show_nat (nat i))"

definition nat_of_digits :: "string \<Rightarrow> nat" where
  "nat_of_digits s = foldl (\<lambda>acc c. 10 * acc + digit_value c) 0 s"

text \<open>\<open>strconv.ParseUint(s, 10, 64)\<close>: only digits, at least one, and in range.\<close>

definition ParseUint :: "string \<Rightarrow> lib_error + u64" where
  "ParseUint s =
     (if s = [] \<or> \<not> list_all digit s then Inl ''invalid syntax''
      else if nat_of_digits s \<ge> 2 ^ 64 then Inl ''value out of range''
      else Inr (word_of_nat (nat_of_digits s)))"

text \<open>\<open>strings.ToLower\<close> on ASCII strings.\<close>

definition lower :: "char \<Rightarrow> char" where
  "lower c = (if CHR ''A'' \<le> c \<and> c \<le> CHR ''Z'' then char_of (of_char c + 32 :: nat) else c)"

definition ToLower :: "string \<Rightarrow> string" where
  "ToLower s = map lower s"

section \<open>IP addresses\<close>

text \<open>The fields between separators.\<close>

fun split_at :: "char \<Rightarrow> string \<Rightarrow> string list" where
  "split_at sep [] = [[]]"
| "split_at sep (c # cs) =
     (if c = sep then [] # split_at sep cs
      else case split_at sep cs of [] \<Rightarrow> [[c]] | f # fs \<Rightarrow> (c # f) # fs)"

text \<open>A field of a dotted quad: 0 to 255, without leading zeros.\<close>

definition ipv4_field :: "string \<Rightarrow> bool" where
  "ipv4_field f \<longleftrightarrow> f \<noteq> [] \<and> list_all digit f \<and> (length f > 1 \<longrightarrow> hd f \<noteq> CHR ''0'') \<and> nat_of_digits f \<le> 255"

definition parseIPv4 :: "string \<Rightarrow> bool" where
  "parseIPv4 s \<longleftrightarrow> length (split_at CHR ''.'' s) = 4 \<and> list_all ipv4_field (split_at CHR ''.'' s)"

definition hex_char :: "char \<Rightarrow> bool" where
  "hex_char c \<longleftrightarrow> digit c \<or> (CHR ''a'' \<le> c \<and> c \<le> CHR ''f'') \<or> (CHR ''A'' \<le> c \<and> c \<le> CHR ''F'')"

text \<open>
  The loop of \<open>netip.parseIPv6\<close>: \<open>left\<close> is the number of 16-bit groups that are still free,
  \<open>ellipsis\<close> says that a double colon was seen. The result is whether the text is accepted.
\<close>

fun ipv6_loop :: "nat \<Rightarrow> bool \<Rightarrow> string \<Rightarrow> bool" where
  "ipv6_loop 0 ellipsis s \<longleftrightarrow> s = [] \<and> \<not> ellipsis"
| "ipv6_loop (Suc left) ellipsis s \<longleftrightarrow>
     (let group = takeWhile hex_char s; rest = dropWhile hex_char s in
      if group = [] \<or> length group > 4 then False
      else case rest of
        [] \<Rightarrow> if left = 0 then \<not> ellipsis else ellipsis
      | c # more \<Rightarrow>
          if c = CHR ''.'' then
            (ellipsis \<or> left = 1) \<and> left \<ge> 1 \<and> parseIPv4 s \<and> (if left = 1 then \<not> ellipsis else ellipsis)
          else if c \<noteq> CHR '':'' \<or> more = [] then False
          else if hd more = CHR '':'' then
            \<not> ellipsis \<and> (if tl more = [] then left \<noteq> 0 else ipv6_loop left True (tl more))
          else ipv6_loop left ellipsis more)"

text \<open>A zone makes \<open>net.ParseIP\<close> fail, whether it is well-formed or not.\<close>

definition parseIPv6 :: "string \<Rightarrow> bool" where
  "parseIPv6 s \<longleftrightarrow>
     (if CHR ''%'' \<in> set s then False
      else if take 2 s = ''::'' then drop 2 s = [] \<or> ipv6_loop 8 True (drop 2 s)
      else ipv6_loop 8 False s)"

text \<open>\<open>net.ParseIP(s) != nil\<close>: the first separator decides.\<close>

definition ParseIP :: "string \<Rightarrow> bool" where
  "ParseIP s =
     (case dropWhile (\<lambda>c. c \<notin> {CHR ''.'', CHR '':'', CHR ''%''}) s of
        [] \<Rightarrow> False
      | c # _ \<Rightarrow> if c = CHR ''.'' then parseIPv4 s else if c = CHR '':'' then parseIPv6 s else False)"

section \<open>Paths\<close>

text \<open>\<open>filepath.Clean\<close>: the elements that remain, in reverse order.\<close>

fun clean_elements :: "bool \<Rightarrow> string list \<Rightarrow> string list \<Rightarrow> string list" where
  "clean_elements rooted out [] = out"
| "clean_elements rooted out (e # es) =
     (if e = [] \<or> e = ''.'' then clean_elements rooted out es
      else if e = ''..'' then
        (case out of
           [] \<Rightarrow> clean_elements rooted (if rooted then [] else [e]) es
         | o' # out' \<Rightarrow> if o' = ''..'' then clean_elements rooted (e # out) es else clean_elements rooted out' es)
      else clean_elements rooted (e # out) es)"

fun join_with :: "string \<Rightarrow> string list \<Rightarrow> string" where
  "join_with sep [] = []"
| "join_with sep [e] = e"
| "join_with sep (e # f # es) = e @ sep @ join_with sep (f # es)"

definition Clean :: "string \<Rightarrow> string" where
  "Clean path =
     (let rooted = (path \<noteq> [] \<and> hd path = CHR ''/'');
          out = rev (clean_elements rooted [] (split_at CHR ''/'' path));
          res = (if rooted then ''/'' else []) @ join_with ''/'' out in
      if res = [] then ''.'' else res)"

text \<open>\<open>filepath.Join\<close>: leading empty elements are ignored.\<close>

definition Join :: "string list \<Rightarrow> string" where
  "Join elems =
     (let es = dropWhile (\<lambda>e. e = []) elems in if es = [] then [] else Clean (join_with ''/'' es))"

section \<open>Facts\<close>

lemma Clean_nonempty: "Clean path \<noteq> []"
  by (simp add: Clean_def Let_def)

lemma Join_nonempty: "e \<in> set elems \<Longrightarrow> e \<noteq> [] \<Longrightarrow> Join elems \<noteq> []"
  by (auto simp: Join_def Let_def Clean_nonempty dropWhile_eq_Nil_conv)

lemma digit_char: "digit (digit_char n)" and digit_value_char: "digit_value (digit_char n) = n mod 10"
proof -
  have m: "n mod 10 < 10" by simp
  then have "digit (digit_char n) \<and> digit_value (digit_char n) = n mod 10"
    by (simp add: digit_def digit_value_def digit_char_def less_eq_char_def of_char_of)
  then show "digit (digit_char n)" and "digit_value (digit_char n) = n mod 10" by simp_all
qed

lemma show_nat_digits: "list_all digit (show_nat n) \<and> show_nat n \<noteq> []"
  by (induction n rule: show_nat.induct) (subst (1 2) show_nat.simps, auto simp: digit_char)

lemma nat_of_digits_snoc: "nat_of_digits (s @ [c]) = 10 * nat_of_digits s + digit_value c"
  by (simp add: nat_of_digits_def)

lemma nat_of_digits_show: "nat_of_digits (show_nat n) = n"
proof (induction n rule: show_nat.induct)
  case (1 n)
  show ?case
  proof (cases "n < 10")
    case True
    then show ?thesis by (subst show_nat.simps) (simp add: nat_of_digits_def digit_value_char)
  next
    case False
    then show ?thesis using 1 by (subst show_nat.simps) (simp add: nat_of_digits_snoc digit_value_char)
  qed
qed

lemma show_nat_no_leading_zero: "0 < n \<Longrightarrow> hd (show_nat n) \<noteq> CHR ''0''"
proof (induction n rule: show_nat.induct)
  case (1 n)
  show ?case
  proof (cases "n < 10")
    case True
    have "digit_value (digit_char n) = n" using True by (simp add: digit_value_char)
    with True 1 show ?thesis by (subst show_nat.simps) (auto simp: digit_value_def)
  next
    case False
    then show ?thesis using 1 show_nat_digits [of "n div 10"] by (subst show_nat.simps) simp
  qed
qed

lemma show_nat_single: "n < 10 \<Longrightarrow> length (show_nat n) = 1"
  by (subst show_nat.simps) simp

text \<open>Numbers survive printing and parsing.\<close>

lemma ParseUint_show: "ParseUint (show_nat (unat v)) = Inr v"
  using show_nat_digits [of "unat v"] unsigned_less [of v, where ?'a = nat]
  by (simp add: ParseUint_def nat_of_digits_show)

lemma ipv4_field_show: "n < 256 \<Longrightarrow> ipv4_field (show_nat n)"
  using show_nat_digits [of n] show_nat_no_leading_zero [of n] show_nat_single [of n]
  by (cases "n = 0") (auto simp: ipv4_field_def nat_of_digits_show)

lemma split_at_digits:
  assumes "list_all digit f"
  shows "split_at CHR ''.'' (f @ CHR ''.'' # s) = f # split_at CHR ''.'' s" and "split_at CHR ''.'' f = [f]"
  using assms by (induction f) (auto simp: digit_def)

definition dotted_quad :: "nat \<Rightarrow> nat \<Rightarrow> nat \<Rightarrow> nat \<Rightarrow> string" where
  "dotted_quad a b c d =
     show_nat a @ CHR ''.'' # show_nat b @ CHR ''.'' # show_nat c @ CHR ''.'' # show_nat d"

lemma ParseIP_dotted_quad:
  assumes "a < 256" "b < 256" "c < 256" "d < 256"
  shows "ParseIP (dotted_quad a b c d)"
proof -
  have "dropWhile (\<lambda>c. c \<notin> {CHR ''.'', CHR '':'', CHR ''%''}) (f @ CHR ''.'' # s) = CHR ''.'' # s"
    if "list_all digit f" for f s
    using that by (induction f) (auto simp: digit_def)
  then show ?thesis
    using assms show_nat_digits
    by (simp add: ParseIP_def dotted_quad_def parseIPv4_def split_at_digits ipv4_field_show)
qed

end
