(* ===== verification/Config.thy ===== *)
theory Config
  imports Go_Std Chain_Types
begin

text \<open>
  The configuration (package \<open>config\<close>): the option structs, their defaults, their
  validation, the file locations below the home directory, loading, and the conversion to
  the configurations of the libraries.

  The record \<open>packages\<close> holds the constants and functions of other packages that the code
  refers to: the network parameters of \<open>chaincfg\<close>, the defaults of \<open>kvdb\<close>, the queue types
  and the check of the queue client, the parser for the configuration file, \<open>os.Stat\<close> as
  far as it tells whether a path does not exist, and \<open>btcutil.AppDataDir\<close>. A
  \<open>time.Duration\<close> is its number of nanoseconds; \<open>int\<close> and \<open>uint\<close> have 64 bits.
\<close>

section \<open>The Bitcoin client (bitcoin.go)\<close>

record BTCConfig =
  RPCHost :: string
  RPCUser :: string
  RPCPass :: string
  PrunedNodeMaxPeers :: i64
  BlockPollingInterval :: i64
  TxPollingInterval :: i64
  BlockCacheSize :: u64
  MaxRetryTimes :: u64
  RetryInterval :: i64

record ConnConfig =
  conn_Host :: string
  conn_User :: string
  conn_Pass :: string
  DisableTLS :: bool
  DisableConnectOnNew :: bool
  DisableAutoReconnect :: bool
  HTTPPostMode :: bool

definition DefaultBTCConfig :: BTCConfig where
  "DefaultBTCConfig =
     \<lparr>RPCHost = ''127.0.0.1:38332'', RPCUser = ''user'', RPCPass = ''pass'', PrunedNodeMaxPeers = 0,
      BlockPollingInterval = 30 * 10 ^ 9, TxPollingInterval = 30 * 10 ^ 9,
      BlockCacheSize = 20 * 1024 * 1024, MaxRetryTimes = 5, RetryInterval = 500 * 10 ^ 6\<rparr>"

definition ToConnConfig :: "BTCConfig \<Rightarrow> ConnConfig" where
  "ToConnConfig cfg =
     \<lparr>conn_Host = RPCHost cfg, conn_User = RPCUser cfg, conn_Pass = RPCPass cfg, DisableTLS = True,
      DisableConnectOnNew = True, DisableAutoReconnect = False, HTTPPostMode = True\<rparr>"

text \<open>On unsigned fields \<open><= 0\<close> is equality with 0.\<close>

definition BTCConfig_Validate :: "BTCConfig \<Rightarrow> go_error + unit" where
  "BTCConfig_Validate cfg =
     (if RPCHost cfg = [] then Inl (Errorf ''RPC host cannot be empty'')
      else if RPCUser cfg = [] then Inl (Errorf ''RPC user cannot be empty'')
      else if RPCPass cfg = [] then Inl (Errorf ''RPC password cannot be empty'')
      else if sint (BlockPollingInterval cfg) \<le> 0 then Inl (Errorf ''block polling interval should be positive'')
      else if sint (TxPollingInterval cfg) \<le> 0 then Inl (Errorf ''tx polling interval should be positive'')
      else if BlockCacheSize cfg \<le> 0 then Inl (Errorf ''block cache size should be positive'')
      else if MaxRetryTimes cfg \<le> 0 then Inl (Errorf ''max retry times should be positive'')
      else if sint (RetryInterval cfg) \<le> 0 then Inl (Errorf ''retry interval should be positive'')
      else Inr ())"

section \<open>The database (dbcfg.go)\<close>

record DBConfig =
  DBPath :: string
  DBFileName :: string
  NoFreelistSync :: bool
  AutoCompact :: bool
  AutoCompactMinAge :: i64
  DBTimeout :: i64

record BoltBackendConfig =
  bolt_DBPath :: string
  bolt_DBFileName :: string
  bolt_NoFreelistSync :: bool
  bolt_AutoCompact :: bool
  bolt_AutoCompactMinAge :: i64
  bolt_DBTimeout :: i64

record QueueConfig =
  User :: string
  Password :: string
  Url :: string
  ProcessingTimeout :: i64
  MsgMaxRetryAttempts :: i32
  ReQueueDelayTime :: i64
  QueueType :: string

text \<open>The configuration of the queue client has the same fields under its own names.\<close>

record ClientQueueConfig =
  QueueUser :: string
  QueuePassword :: string
  q_Url :: string
  QueueProcessingTimeout :: i64
  q_MsgMaxRetryAttempts :: i32
  q_ReQueueDelayTime :: i64
  q_QueueType :: string

record MetricsConfig =
  Host :: string
  Port :: i64

record Config =
  LogLevel :: string
  BitcoinNetwork :: string
  cfg_ExtraEventEnabled :: bool
  cfg_BTCConfig :: BTCConfig
  DatabaseConfig :: DBConfig
  cfg_QueueConfig :: QueueConfig
  cfg_MetricsConfig :: MetricsConfig
  cfg_BTCNetParams :: net_params

record packages =
  MainNetParams :: net_params
  TestNet3Params :: net_params
  RegressionNetParams :: net_params
  SimNetParams :: net_params
  SigNetParams :: net_params
  DefaultBoltAutoCompactMinAge :: i64
  DefaultDBTimeout :: i64
  ClassicQueueType :: string
  QuorumQueueType :: string
  client_Validate :: "ClientQueueConfig \<Rightarrow> lib_error option"
  ParseFile :: "string \<Rightarrow> lib_error + Config"
  NotExist :: "string \<Rightarrow> bool"
  AppDataDir :: string

text \<open>\<open>utils.FileExists\<close>: any other error of \<open>os.Stat\<close> counts as existing.\<close>

definition FileExists :: "packages \<Rightarrow> string \<Rightarrow> bool" where
  "FileExists pk name \<longleftrightarrow> \<not> NotExist pk name"

section \<open>File locations (config.go)\<close>

definition ConfigFile :: "string \<Rightarrow> string" where
  "ConfigFile homePath = Join [homePath, ''sid.conf'']"

definition ParamsFile :: "string \<Rightarrow> string" where
  "ParamsFile homePath = Join [homePath, ''global-params.json'']"

definition LogDir :: "string \<Rightarrow> string" where
  "LogDir homePath = Join [homePath, ''logs'']"

definition LogFile :: "string \<Rightarrow> string" where
  "LogFile homePath = Join [LogDir homePath, ''sid.log'']"

definition DataDir :: "string \<Rightarrow> string" where
  "DataDir homePath = Join [homePath, ''data'']"

section \<open>Database, queue and metrics: defaults, checks, conversions\<close>

definition DefaultDBConfigWithHomePath :: "packages \<Rightarrow> string \<Rightarrow> DBConfig" where
  "DefaultDBConfigWithHomePath pk homePath =
     \<lparr>DBPath = DataDir homePath, DBFileName = ''staker.db'', NoFreelistSync = True, AutoCompact = False,
      AutoCompactMinAge = DefaultBoltAutoCompactMinAge pk, DBTimeout = DefaultDBTimeout pk\<rparr>"

definition DefaultDBConfig :: "packages \<Rightarrow> DBConfig" where
  "DefaultDBConfig pk = DefaultDBConfigWithHomePath pk (AppDataDir pk)"

definition DBConfigToBoltBackenCondfig :: "DBConfig \<Rightarrow> BoltBackendConfig" where
  "DBConfigToBoltBackenCondfig cfg =
     \<lparr>bolt_DBPath = DBPath cfg, bolt_DBFileName = DBFileName cfg, bolt_NoFreelistSync = NoFreelistSync cfg,
      bolt_AutoCompact = AutoCompact cfg, bolt_AutoCompactMinAge = AutoCompactMinAge cfg,
      bolt_DBTimeout = DBTimeout cfg\<rparr>"

definition GetDbBackend :: "(BoltBackendConfig \<Rightarrow> lib_error + 'db) \<Rightarrow> DBConfig \<Rightarrow> go_error + 'db" where
  "GetDbBackend open_bolt cfg = lib_result (open_bolt (DBConfigToBoltBackenCondfig cfg))"

definition DBConfig_Validate :: "DBConfig \<Rightarrow> go_error + unit" where
  "DBConfig_Validate cfg =
     (if DBPath cfg = [] then Inl (Errorf ''DB path cannot be empty'')
      else if DBFileName cfg = [] then Inl (Errorf ''DB file name cannot be empty'')
      else Inr ())"

definition QueueConfig_Validate :: "packages \<Rightarrow> QueueConfig \<Rightarrow> go_error + unit" where
  "QueueConfig_Validate pk cfg =
     (if User cfg = [] then Inl (Errorf ''missing queue user'')
      else if Password cfg = [] then Inl (Errorf ''missing queue password'')
      else if Url cfg = [] then Inl (Errorf ''missing queue url'')
      else if sint (ProcessingTimeout cfg) \<le> 0 then Inl (Errorf ''invalid queue processing timeout'')
      else if sint (MsgMaxRetryAttempts cfg) \<le> 0 then Inl (Errorf ''invalid queue message max retry attempts'')
      else if sint (ReQueueDelayTime cfg) \<le> 0 then Inl (Errorf ''invalid requeue delay time'')
      else if QueueType cfg = ClassicQueueType pk then Inr ()
      else if QueueType cfg = QuorumQueueType pk then Inr ()
      else Inl (Errorf ''invalid queue type''))"

definition ToQueueClientConfig :: "packages \<Rightarrow> QueueConfig \<Rightarrow> go_error + ClientQueueConfig" where
  "ToQueueClientConfig pk cfg =
     (let queueCfg = \<lparr>QueueUser = User cfg, QueuePassword = Password cfg, q_Url = Url cfg,
            QueueProcessingTimeout = ProcessingTimeout cfg, q_MsgMaxRetryAttempts = MsgMaxRetryAttempts cfg,
            q_ReQueueDelayTime = ReQueueDelayTime cfg, q_QueueType = QueueType cfg\<rparr> in
      case client_Validate pk queueCfg of Some e \<Rightarrow> Inl (LibErr e) | None \<Rightarrow> Inr queueCfg)"

definition DefaultQueueConfig :: "packages \<Rightarrow> QueueConfig" where
  "DefaultQueueConfig pk =
     \<lparr>User = ''user'', Password = ''password'', Url = ''localhost:5672'', ProcessingTimeout = 5 * 10 ^ 9,
      MsgMaxRetryAttempts = 10, ReQueueDelayTime = 5 * 10 ^ 9, QueueType = QuorumQueueType pk\<rparr>"

definition MetricsConfig_Validate :: "MetricsConfig \<Rightarrow> go_error + unit" where
  "MetricsConfig_Validate cfg =
     (if sint (Port cfg) < 0 \<or> sint (Port cfg) > 65535 then Inl (Errorf ''invalid port'')
      else if \<not> ParseIP (Host cfg) then Inl (Errorf ''invalid host'')
      else Inr ())"

definition Address :: "MetricsConfig \<Rightarrow> go_error + string" where
  "Address cfg =
     (case MetricsConfig_Validate cfg of
        Inl e \<Rightarrow> Inl e
      | Inr _ \<Rightarrow> Inr (Host cfg @ '':'' @ show_int (sint (Port cfg))))"

definition DefaultMetricsConfig :: MetricsConfig where
  "DefaultMetricsConfig = \<lparr>Host = ''127.0.0.1'', Port = 2112\<rparr>"

section \<open>The whole configuration\<close>

text \<open>\<open>Validate\<close> also sets the network parameters, before the other checks.\<close>

definition net_of :: "packages \<Rightarrow> string \<Rightarrow> net_params option" where
  "net_of pk name =
     (if name = ''mainnet'' then Some (MainNetParams pk)
      else if name = ''testnet'' then Some (TestNet3Params pk)
      else if name = ''regtest'' then Some (RegressionNetParams pk)
      else if name = ''simnet'' then Some (SimNetParams pk)
      else if name = ''signet'' then Some (SigNetParams pk)
      else None)"

definition check :: "go_error + unit \<Rightarrow> ('s, unit) prog" where
  "check r = (case r of Inl e \<Rightarrow> raise e | Inr _ \<Rightarrow> ret ())"

definition Config_Validate :: "packages \<Rightarrow> (Config, unit) prog" where
  "Config_Validate pk =
     bind (gets (\<lambda>cfg. net_of pk (BitcoinNetwork cfg))) (\<lambda>net.
     case net of
       None \<Rightarrow> raise (Errorf ''invalid network'')
     | Some p \<Rightarrow>
         bind (modify (cfg_BTCNetParams_update (\<lambda>_. p))) (\<lambda>_.
         bind (gets id) (\<lambda>cfg.
         bind (check (DBConfig_Validate (DatabaseConfig cfg))) (\<lambda>_.
         bind (check (MetricsConfig_Validate (cfg_MetricsConfig cfg))) (\<lambda>_.
         bind (check (QueueConfig_Validate pk (cfg_QueueConfig cfg))) (\<lambda>_.
         check (BTCConfig_Validate (cfg_BTCConfig cfg))))))))"

text \<open>The zero value of the network parameters is written as the empty string.\<close>

definition DefaultConfigWithHome :: "packages \<Rightarrow> string \<Rightarrow> Config outcome" where
  "DefaultConfigWithHome pk homePath =
     (let cfg = \<lparr>LogLevel = ''info'', BitcoinNetwork = ''signet'', cfg_ExtraEventEnabled = False,
            cfg_BTCConfig = DefaultBTCConfig, DatabaseConfig = DefaultDBConfigWithHomePath pk homePath,
            cfg_QueueConfig = DefaultQueueConfig pk, cfg_MetricsConfig = DefaultMetricsConfig,
            cfg_BTCNetParams = []\<rparr> in
      case Config_Validate pk cfg of
        (Inl f, _) \<Rightarrow> Inl (Panic ''invalid default configuration'')
      | (Inr _, cfg') \<Rightarrow> Inr cfg')"

definition DefaultConfig :: "packages \<Rightarrow> Config outcome" where
  "DefaultConfig pk = DefaultConfigWithHome pk (AppDataDir pk)"

definition LoadConfig :: "packages \<Rightarrow> string \<Rightarrow> Config outcome" where
  "LoadConfig pk homePath =
     (let cfgFile = ConfigFile homePath in
      if \<not> FileExists pk cfgFile then Inl (Error (Errorf ''specified config file does not exist''))
      else case ParseFile pk cfgFile of
             Inl e \<Rightarrow> Inl (Error (LibErr e))
           | Inr cfg \<Rightarrow>
             (case Config_Validate pk cfg of (Inl f, _) \<Rightarrow> Inl f | (Inr _, cfg') \<Rightarrow> Inr cfg'))"

section \<open>Which configurations are accepted\<close>

definition btc_config_ok :: "BTCConfig \<Rightarrow> bool" where
  "btc_config_ok cfg \<longleftrightarrow> RPCHost cfg \<noteq> [] \<and> RPCUser cfg \<noteq> [] \<and> RPCPass cfg \<noteq> [] \<and>
     0 < sint (BlockPollingInterval cfg) \<and> 0 < sint (TxPollingInterval cfg) \<and> 0 < BlockCacheSize cfg \<and>
     0 < MaxRetryTimes cfg \<and> 0 < sint (RetryInterval cfg)"

definition queue_config_ok :: "packages \<Rightarrow> QueueConfig \<Rightarrow> bool" where
  "queue_config_ok pk cfg \<longleftrightarrow> User cfg \<noteq> [] \<and> Password cfg \<noteq> [] \<and> Url cfg \<noteq> [] \<and>
     0 < sint (ProcessingTimeout cfg) \<and> 0 < sint (MsgMaxRetryAttempts cfg) \<and> 0 < sint (ReQueueDelayTime cfg) \<and>
     QueueType cfg \<in> {ClassicQueueType pk, QuorumQueueType pk}"

definition metrics_config_ok :: "MetricsConfig \<Rightarrow> bool" where
  "metrics_config_ok cfg \<longleftrightarrow> sint (Port cfg) \<in> {0..65535} \<and> ParseIP (Host cfg)"

definition config_ok :: "packages \<Rightarrow> Config \<Rightarrow> bool" where
  "config_ok pk cfg \<longleftrightarrow> net_of pk (BitcoinNetwork cfg) \<noteq> None \<and>
     DBPath (DatabaseConfig cfg) \<noteq> [] \<and> DBFileName (DatabaseConfig cfg) \<noteq> [] \<and>
     metrics_config_ok (cfg_MetricsConfig cfg) \<and> queue_config_ok pk (cfg_QueueConfig cfg) \<and>
     btc_config_ok (cfg_BTCConfig cfg)"

lemma BTCConfig_Validate_iff: "BTCConfig_Validate cfg = Inr () \<longleftrightarrow> btc_config_ok cfg"
  by (auto simp: BTCConfig_Validate_def btc_config_ok_def word_gt_0)

lemma DBConfig_Validate_iff: "DBConfig_Validate cfg = Inr () \<longleftrightarrow> DBPath cfg \<noteq> [] \<and> DBFileName cfg \<noteq> []"
  by (auto simp: DBConfig_Validate_def)

lemma QueueConfig_Validate_iff: "QueueConfig_Validate pk cfg = Inr () \<longleftrightarrow> queue_config_ok pk cfg"
  by (auto simp: QueueConfig_Validate_def queue_config_ok_def)

lemma MetricsConfig_Validate_iff: "MetricsConfig_Validate cfg = Inr () \<longleftrightarrow> metrics_config_ok cfg"
  by (auto simp: MetricsConfig_Validate_def metrics_config_ok_def)

lemma check_run: "check r s = (case r of Inl e \<Rightarrow> Inl (Error e) | Inr _ \<Rightarrow> Inr (), s)"
  by (simp add: check_def raise_def ret_def split: sum.split)

lemma Config_Validate_accepts:
  "Config_Validate pk cfg = (Inr (), cfg') \<longleftrightarrow>
     config_ok pk cfg \<and> cfg' = cfg\<lparr>cfg_BTCNetParams := the (net_of pk (BitcoinNetwork cfg))\<rparr>"
proof (cases "net_of pk (BitcoinNetwork cfg)")
  case None
  then show ?thesis by (simp add: Config_Validate_def prog_simps config_ok_def)
next
  case (Some p)
  have unit: "(case r of Inl e \<Rightarrow> Inl (Error e) | Inr _ \<Rightarrow> Inr ()) = Inr () \<longleftrightarrow> r = Inr ()" for r :: "go_error + unit"
    by (cases r) simp_all
  show ?thesis
    unfolding config_ok_def BTCConfig_Validate_iff [symmetric] QueueConfig_Validate_iff [symmetric]
      MetricsConfig_Validate_iff [symmetric]
    using Some DBConfig_Validate_iff [of "DatabaseConfig cfg"]
    by (auto simp: Config_Validate_def prog_simps check_run unit split: sum.splits)
qed

text \<open>A configuration passes validation exactly when its network is one of the five known
  ones, the names and addresses are there, the intervals, sizes and retry counts are
  positive, the queue type is known, the metrics port is in range and the metrics host is an
  IP address; and then the network parameters are those of the network, everything else being
  as it was.\<close>

lemma Config_Validate_iff:
  "Config_Validate pk cfg = (Inr (), cfg') \<longleftrightarrow>
     (BitcoinNetwork cfg \<in> {''mainnet'', ''testnet'', ''regtest'', ''simnet'', ''signet''} \<and>
      DBPath (DatabaseConfig cfg) \<noteq> [] \<and> DBFileName (DatabaseConfig cfg) \<noteq> [] \<and>
      metrics_config_ok (cfg_MetricsConfig cfg) \<and> queue_config_ok pk (cfg_QueueConfig cfg) \<and>
      btc_config_ok (cfg_BTCConfig cfg)) \<and>
     cfg' = cfg\<lparr>cfg_BTCNetParams := the (net_of pk (BitcoinNetwork cfg))\<rparr>"
  unfolding Config_Validate_accepts config_ok_def by (auto simp: net_of_def)

section \<open>The defaults\<close>

lemma default_metrics_ok: "metrics_config_ok DefaultMetricsConfig"
proof -
  have "ParseIP ''127.0.0.1''" by code_simp
  then show ?thesis by (simp add: metrics_config_ok_def DefaultMetricsConfig_def)
qed

lemma default_btc_ok: "btc_config_ok DefaultBTCConfig"
  by (simp add: btc_config_ok_def DefaultBTCConfig_def)

lemma default_queue_ok: "queue_config_ok pk (DefaultQueueConfig pk)"
  by (simp add: queue_config_ok_def DefaultQueueConfig_def)

text \<open>The default configuration passes its own validation for every home directory, so that
  building it never panics; its database is in the data directory below the home directory,
  and its network is signet.\<close>

lemma DefaultConfigWithHome_valid:
  "\<exists>cfg. DefaultConfigWithHome pk homePath = Inr cfg \<and> Config_Validate pk cfg = (Inr (), cfg) \<and>
     cfg_BTCNetParams cfg = SigNetParams pk \<and> DBPath (DatabaseConfig cfg) = DataDir homePath \<and>
     Address (cfg_MetricsConfig cfg) = Inr ''127.0.0.1:2112''"
proof -
  define cfg where "cfg = \<lparr>LogLevel = ''info'', BitcoinNetwork = ''signet'', cfg_ExtraEventEnabled = False,
    cfg_BTCConfig = DefaultBTCConfig, DatabaseConfig = DefaultDBConfigWithHomePath pk homePath,
    cfg_QueueConfig = DefaultQueueConfig pk, cfg_MetricsConfig = DefaultMetricsConfig, cfg_BTCNetParams = []\<rparr>"
  let ?cfg = "cfg\<lparr>cfg_BTCNetParams := SigNetParams pk\<rparr>"
  have "DataDir homePath \<noteq> []" unfolding DataDir_def by (rule Join_nonempty [of "''data''"]) simp_all
  then have ok: "config_ok pk cfg"
    by (simp add: config_ok_def cfg_def net_of_def DefaultDBConfigWithHomePath_def default_metrics_ok
        default_queue_ok default_btc_ok)
  have "Config_Validate pk cfg = (Inr (), ?cfg)"
    using ok by (simp add: Config_Validate_accepts) (simp add: cfg_def net_of_def)
  then have "DefaultConfigWithHome pk homePath = Inr ?cfg"
    by (simp add: DefaultConfigWithHome_def cfg_def [symmetric] Let_def)
  moreover have "Config_Validate pk ?cfg = (Inr (), ?cfg)"
    using ok by (simp add: Config_Validate_accepts config_ok_def) (simp add: cfg_def net_of_def)
  moreover have "Address DefaultMetricsConfig = Inr ''127.0.0.1:2112''" by code_simp
  ultimately show ?thesis
    by (intro exI [of _ ?cfg]) (simp add: cfg_def DefaultDBConfigWithHomePath_def)
qed

text \<open>A dotted quad is accepted as the metrics host, and the address of the metrics server
  is then that host, a colon and the port in decimal, from which the port can be read back.\<close>

lemma Address_dotted_quad:
  assumes "a < 256" and "b < 256" and "c < 256" and "d < 256" and "p \<le> 65535"
  shows "Address \<lparr>Host = dotted_quad a b c d, Port = word_of_nat p\<rparr> =
      Inr (dotted_quad a b c d @ '':'' @ show_nat p) \<and> ParseUint (show_nat p) = Inr (word_of_nat p)"
proof -
  have p: "sint (word_of_nat p :: i64) = int p"
    using assms(5) by (simp add: signed_of_nat signed_take_bit_int_eq_self)
  have u: "unat (word_of_nat p :: u64) = p"
    using assms(5) by (simp add: unsigned_of_nat take_bit_nat_eq_self)
  have "ParseUint (show_nat p) = Inr (word_of_nat p)" using ParseUint_show [of "word_of_nat p"] u by simp
  moreover have "metrics_config_ok \<lparr>Host = dotted_quad a b c d, Port = word_of_nat p\<rparr>"
    using ParseIP_dotted_quad [OF assms(1-4)] p assms(5) by (simp add: metrics_config_ok_def)
  ultimately show ?thesis
    using p by (simp add: Address_def MetricsConfig_Validate_iff [symmetric] show_int_def)
qed

end
