(* ===== verification/Btc_Client.thy ===== *)
theory Btc_Client
  imports Config
begin

text \<open>
  The Bitcoin client (\<open>btcclient/client.go\<close>): the calls of the RPC client, each repeated by
  \<open>retry-go\<close> until it succeeds or the configured number of attempts is used up, and the
  blocks it makes of the answers.

  The node is the record \<open>rpc_Client\<close>; the first argument of a call is the number of calls
  made before, so that the same call may fail now and succeed later. \<open>retry.DoWithData\<close> is
  a parameter, once per result type; what the code relies on is \<open>retry_law\<close>: with \<open>n\<close>
  attempts, \<open>n > 0\<close>, and \<open>LastErrorOnly\<close>, it calls up to \<open>n\<close> times and returns the first
  result or the last error. (With 0 attempts it repeats for ever; the configuration refuses
  that number.)
\<close>

section \<open>Calls\<close>

type_synonym 'a rpc = "nat \<Rightarrow> (go_error + 'a) \<times> nat"

record rpc_Client =
  GetBlockCount :: "nat \<Rightarrow> lib_error + i64"
  GetBlockHash :: "nat \<Rightarrow> i64 \<Rightarrow> lib_error + hash"
  GetBlock :: "nat \<Rightarrow> hash \<Rightarrow> lib_error + MsgBlock"
  GetBlockHeader :: "nat \<Rightarrow> hash \<Rightarrow> lib_error + BlockHeader"

record retry_go =
  do_count :: "u64 \<Rightarrow> i64 \<Rightarrow> i64 rpc \<Rightarrow> i64 rpc"
  do_hash :: "u64 \<Rightarrow> i64 \<Rightarrow> hash rpc \<Rightarrow> hash rpc"
  do_block :: "u64 \<Rightarrow> i64 \<Rightarrow> MsgBlock rpc \<Rightarrow> MsgBlock rpc"
  do_header :: "u64 \<Rightarrow> i64 \<Rightarrow> BlockHeader rpc \<Rightarrow> BlockHeader rpc"

record BTCClient =
  client :: rpc_Client
  btc_cfg :: BTCConfig

definition rpc_call :: "(nat \<Rightarrow> lib_error + 'a) \<Rightarrow> 'a rpc" where
  "rpc_call f n = (lib_result (f n), Suc n)"

text \<open>\<open>rpcclient.New\<close> is a call of the library.\<close>

definition NewBTCClient :: "(ConnConfig \<Rightarrow> lib_error + rpc_Client) \<Rightarrow> BTCConfig \<Rightarrow> go_error + BTCClient" where
  "NewBTCClient rpcclient_New cfg =
     (case rpcclient_New (ToConnConfig cfg) of
        Inl e \<Rightarrow> Inl (LibErr e)
      | Inr c \<Rightarrow> Inr \<lparr>client = c, btc_cfg = cfg\<rparr>)"

definition clientCallWithRetry :: "(u64 \<Rightarrow> i64 \<Rightarrow> 'a rpc \<Rightarrow> 'a rpc) \<Rightarrow> 'a rpc \<Rightarrow> BTCConfig \<Rightarrow> 'a rpc" where
  "clientCallWithRetry DoWithData call cfg = DoWithData (MaxRetryTimes cfg) (RetryInterval cfg) call"

definition btc_GetTipHeight :: "retry_go \<Rightarrow> BTCClient \<Rightarrow> u64 rpc" where
  "btc_GetTipHeight R c n =
     (case clientCallWithRetry (do_count R) (rpc_call (GetBlockCount (client c))) (btc_cfg c) n of
        (Inl e, n') \<Rightarrow> (Inl (Wrap ''failed to get block count'' e), n')
      | (Inr blockCount, n') \<Rightarrow> (Inr blockCount, n'))"

text \<open>\<open>int64(height)\<close> keeps the 64 bits.\<close>

definition GetBlockHashByHeight :: "retry_go \<Rightarrow> BTCClient \<Rightarrow> u64 \<Rightarrow> hash rpc" where
  "GetBlockHashByHeight R c height n =
     (case clientCallWithRetry (do_hash R) (rpc_call (\<lambda>i. GetBlockHash (client c) i height)) (btc_cfg c) n of
        (Inl e, n') \<Rightarrow> (Inl (Wrap ''failed to get block by height'' e), n')
      | (Inr blockHash, n') \<Rightarrow> (Inr blockHash, n'))"

definition btc_GetBlockByHeight :: "retry_go \<Rightarrow> BTCClient \<Rightarrow> u64 \<Rightarrow> IndexedBlock rpc" where
  "btc_GetBlockByHeight R c height n =
     (case GetBlockHashByHeight R c height n of
        (Inl e, n1) \<Rightarrow> (Inl e, n1)
      | (Inr blockHash, n1) \<Rightarrow>
        (case clientCallWithRetry (do_block R) (rpc_call (\<lambda>i. GetBlock (client c) i blockHash)) (btc_cfg c) n1 of
           (Inl e, n2) \<Rightarrow> (Inl (Wrap ''failed to get block by hash'' e), n2)
         | (Inr block, n2) \<Rightarrow>
             (Inr (NewIndexedBlock (ucast height) (Header_of block) (GetWrappedTxs block)), n2)))"

definition GetBlockHeaderByHeight :: "retry_go \<Rightarrow> BTCClient \<Rightarrow> u64 \<Rightarrow> BlockHeader rpc" where
  "GetBlockHeaderByHeight R c height n =
     (case GetBlockHashByHeight R c height n of
        (Inl e, n1) \<Rightarrow> (Inl e, n1)
      | (Inr blockHash, n1) \<Rightarrow>
        (case clientCallWithRetry (do_header R) (rpc_call (\<lambda>i. GetBlockHeader (client c) i blockHash)) (btc_cfg c) n1 of
           (Inl e, n2) \<Rightarrow> (Inl (Wrap ''failed to get block header by hash'' e), n2)
         | (Inr header, n2) \<Rightarrow> (Inr header, n2)))"

section \<open>What retrying promises\<close>

fun try_upto :: "nat \<Rightarrow> 'a rpc \<Rightarrow> 'a rpc" where
  "try_upto 0 call n = call n"
| "try_upto (Suc k) call n =
     (case call n of (Inl e, n') \<Rightarrow> try_upto k call n' | (Inr x, n') \<Rightarrow> (Inr x, n'))"

definition retry_law :: "(u64 \<Rightarrow> i64 \<Rightarrow> 'a rpc \<Rightarrow> 'a rpc) \<Rightarrow> bool" where
  "retry_law DoWithData \<longleftrightarrow>
     (\<forall>attempts delay call. 0 < attempts \<longrightarrow> DoWithData attempts delay call = try_upto (unat attempts - 1) call)"

definition retry_ok :: "retry_go \<Rightarrow> bool" where
  "retry_ok R \<longleftrightarrow> retry_law (do_count R) \<and> retry_law (do_hash R) \<and> retry_law (do_block R) \<and> retry_law (do_header R)"

text \<open>\<open>x\<close> is the first answer to a call that is made at most \<open>m\<close> times, after \<open>n\<close> other calls;
  \<open>n'\<close> calls have been made then.\<close>

definition first_answer :: "(nat \<Rightarrow> lib_error + 'a) \<Rightarrow> nat \<Rightarrow> nat \<Rightarrow> 'a \<Rightarrow> nat \<Rightarrow> bool" where
  "first_answer f m n x n' \<longleftrightarrow>
     n < n' \<and> n' \<le> n + m \<and> f (n' - 1) = Inr x \<and> (\<forall>i. n \<le> i \<and> i < n' - 1 \<longrightarrow> isl (f i))"

lemma rpc_call_eq:
  "f n = Inl e \<Longrightarrow> rpc_call f n = (Inl (LibErr e), Suc n)"
  "f n = Inr x \<Longrightarrow> rpc_call f n = (Inr x, Suc n)"
  by (simp_all add: rpc_call_def lib_result_def)

lemma first_answer_now: "f n = Inr y \<Longrightarrow> 0 < m \<Longrightarrow> first_answer f m n x n' \<longleftrightarrow> x = y \<and> n' = Suc n"
proof
  assume a: "first_answer f m n x n'" and y: "f n = Inr y"
  then have "\<not> n < n' - 1" by (auto simp: first_answer_def)
  moreover have "n < n'" using a by (simp add: first_answer_def)
  ultimately have "n' = Suc n" by simp
  with a y show "x = y \<and> n' = Suc n" by (simp add: first_answer_def)
qed (auto simp: first_answer_def)

lemma first_answer_later:
  assumes "f n = Inl e"
  shows "first_answer f (Suc m) n x n' \<longleftrightarrow> first_answer f m (Suc n) x n'"
proof
  assume a: "first_answer f (Suc m) n x n'"
  then have "f (n' - 1) = Inr x" by (simp add: first_answer_def)
  then have "n' - 1 \<noteq> n" using assms by auto
  with a show "first_answer f m (Suc n) x n'" by (auto simp: first_answer_def)
next
  assume a: "first_answer f m (Suc n) x n'"
  have "isl (f i)" if "n \<le> i" "i < n' - 1" for i
    using a assms that by (cases "i = n") (simp_all add: first_answer_def)
  with a show "first_answer f (Suc m) n x n'" by (simp add: first_answer_def)
qed

lemma try_upto_first_answer:
  "try_upto k (rpc_call f) n = (Inr x, n') \<longleftrightarrow> first_answer f (Suc k) n x n'"
proof (induction k arbitrary: n)
  case 0
  have "\<not> first_answer f 0 (Suc n) x n'" by (simp add: first_answer_def)
  then show ?case by (cases "f n") (auto simp: rpc_call_eq first_answer_now first_answer_later)
next
  case (Suc k)
  then show ?case by (cases "f n") (auto simp: rpc_call_eq first_answer_now first_answer_later)
qed

text \<open>The error after all attempts is that of the last one.\<close>

lemma try_upto_fails:
  assumes "\<forall>i. n \<le> i \<and> i \<le> n + k \<longrightarrow> isl (f i)"
  shows "try_upto k (rpc_call f) n = (Inl (LibErr (projl (f (n + k)))), n + Suc k)"
  using assms
proof (induction k arbitrary: n)
  case 0
  then have "isl (f n)" by simp
  then show ?case by (auto simp: rpc_call_eq isl_def)
next
  case (Suc k)
  then have "isl (f n)" by simp
  moreover have "try_upto k (rpc_call f) (Suc n) = (Inl (LibErr (projl (f (Suc n + k)))), Suc n + Suc k)"
    using Suc.prems by (intro Suc.IH) auto
  ultimately show ?case by (auto simp: rpc_call_eq isl_def)
qed

text \<open>Either an attempt succeeds or all fail.\<close>

lemma first_answer_or_fail:
  obtains x n' where "first_answer f (Suc k) n x n'" | "\<forall>i. n \<le> i \<and> i \<le> n + k \<longrightarrow> isl (f i)"
proof (cases "\<forall>i. n \<le> i \<and> i \<le> n + k \<longrightarrow> isl (f i)")
  case False
  define i where "i = (LEAST i. n \<le> i \<and> i \<le> n + k \<and> \<not> isl (f i))"
  have i: "n \<le> i \<and> i \<le> n + k \<and> \<not> isl (f i)"
    using LeastI_ex [of "\<lambda>i. n \<le> i \<and> i \<le> n + k \<and> \<not> isl (f i)"] False by (auto simp: i_def)
  have "isl (f j)" if "n \<le> j" "j < i" for j
    using not_less_Least [of j "\<lambda>i. n \<le> i \<and> i \<le> n + k \<and> \<not> isl (f i)"] that i by (auto simp: i_def [symmetric])
  with i have "first_answer f (Suc k) n (projr (f i)) (Suc i)"
    by (auto simp: first_answer_def)
  then show thesis by (rule that(1))
qed (use that(2) in blast)

lemma clientCallWithRetry_Inr:
  assumes "retry_law DoWithData" and "0 < MaxRetryTimes cfg"
  shows "clientCallWithRetry DoWithData (rpc_call f) cfg n = (Inr x, n') \<longleftrightarrow>
    first_answer f (unat (MaxRetryTimes cfg)) n x n'"
proof -
  have "0 < unat (MaxRetryTimes cfg)" using assms(2) by (simp add: word_less_nat_alt)
  then show ?thesis
    using assms try_upto_first_answer [of "unat (MaxRetryTimes cfg) - 1" f n x n']
    by (simp add: clientCallWithRetry_def retry_law_def)
qed

lemma valid_attempts: "BTCConfig_Validate cfg = Inr () \<Longrightarrow> 0 < MaxRetryTimes cfg"
  by (simp add: BTCConfig_Validate_iff btc_config_ok_def)

lemma clientCallWithRetry_fails:
  assumes "retry_law DoWithData" and "0 < MaxRetryTimes cfg"
    and "\<forall>i. n \<le> i \<and> i < n + unat (MaxRetryTimes cfg) \<longrightarrow> isl (f i)"
  shows "clientCallWithRetry DoWithData (rpc_call f) cfg n =
    (Inl (LibErr (projl (f (n + unat (MaxRetryTimes cfg) - 1)))), n + unat (MaxRetryTimes cfg))"
proof -
  have m: "0 < unat (MaxRetryTimes cfg)" using assms(2) by (simp add: word_less_nat_alt)
  then have "\<forall>i. n \<le> i \<and> i \<le> n + (unat (MaxRetryTimes cfg) - 1) \<longrightarrow> isl (f i)" using assms(3) by auto
  from try_upto_fails [OF this] m show ?thesis
    using assms(1,2) by (simp add: clientCallWithRetry_def retry_law_def)
qed

section \<open>Correctness\<close>

text \<open>C32: with a valid configuration the client asks for the tip until it is told, at most
  \<open>MaxRetryTimes\<close> times: it returns the first answer, unchanged, as soon as there is one
  among these attempts, and otherwise the error of the last attempt, after exactly that many.\<close>

theorem GetTipHeight_retries:
  assumes "retry_ok R" and "BTCConfig_Validate (btc_cfg c) = Inr ()"
  shows "(btc_GetTipHeight R c n = (Inr h, n') \<longleftrightarrow>
      first_answer (GetBlockCount (client c)) (unat (MaxRetryTimes (btc_cfg c))) n h n') \<and>
    ((\<forall>i. n \<le> i \<and> i < n + unat (MaxRetryTimes (btc_cfg c)) \<longrightarrow> isl (GetBlockCount (client c) i)) \<longrightarrow>
      btc_GetTipHeight R c n =
        (Inl (Wrap ''failed to get block count'' (LibErr (projl (GetBlockCount (client c)
           (n + unat (MaxRetryTimes (btc_cfg c)) - 1))))), n + unat (MaxRetryTimes (btc_cfg c))))"
proof -
  have law: "retry_law (do_count R)" using assms(1) by (simp add: retry_ok_def)
  show ?thesis
    using clientCallWithRetry_Inr [OF law valid_attempts [OF assms(2)], of "GetBlockCount (client c)" n h n']
      clientCallWithRetry_fails [OF law valid_attempts [OF assms(2)], of n "GetBlockCount (client c)"]
    by (auto simp: btc_GetTipHeight_def split: prod.splits sum.splits)
qed

lemma GetBlockHashByHeight_Inr:
  assumes "retry_ok R" and "BTCConfig_Validate (btc_cfg c) = Inr ()"
  shows "GetBlockHashByHeight R c height n = (Inr h, n') \<longleftrightarrow>
    first_answer (\<lambda>i. GetBlockHash (client c) i height) (unat (MaxRetryTimes (btc_cfg c))) n h n'"
proof -
  have law: "retry_law (do_hash R)" using assms(1) by (simp add: retry_ok_def)
  show ?thesis
    using clientCallWithRetry_Inr [OF law valid_attempts [OF assms(2)],
        of "\<lambda>i. GetBlockHash (client c) i height" n h n']
    by (auto simp: GetBlockHashByHeight_def split: prod.splits sum.splits)
qed

lemma NewIndexedBlock_FromMsgBlock:
  "NewIndexedBlock h (Header_of b) (GetWrappedTxs b) = NewIndexedBlockFromMsgBlock h b"
  by (simp add: NewIndexedBlock_def NewIndexedBlockFromMsgBlock_def)

lemma GetBlockByHeight_Inr:
  assumes "retry_ok R" and "BTCConfig_Validate (btc_cfg c) = Inr ()"
  shows "btc_GetBlockByHeight R c height n = (Inr ib, n') \<longleftrightarrow>
    (\<exists>h n1 b. first_answer (\<lambda>i. GetBlockHash (client c) i height) (unat (MaxRetryTimes (btc_cfg c))) n h n1 \<and>
       first_answer (\<lambda>i. GetBlock (client c) i h) (unat (MaxRetryTimes (btc_cfg c))) n1 b n' \<and>
       ib = NewIndexedBlockFromMsgBlock (ucast height) b)"
proof -
  have law: "retry_law (do_block R)" using assms(1) by (simp add: retry_ok_def)
  note block = clientCallWithRetry_Inr [OF law valid_attempts [OF assms(2)]]
  show ?thesis
    unfolding GetBlockHashByHeight_Inr [OF assms, symmetric] block [symmetric]
    by (auto simp: btc_GetBlockByHeight_def NewIndexedBlock_FromMsgBlock split: prod.splits sum.splits)
qed

text \<open>C33: with a valid configuration a block is fetched by two series of calls: the first answer
  for the hash at the height, then the first answer for the block with that hash, each within
  \<open>MaxRetryTimes\<close> attempts. If both come, and only then, a block is returned; it has the
  height asked for, and its header and transactions are those the node sent.\<close>

theorem GetBlockByHeight_fetches:
  assumes "retry_ok R" and "BTCConfig_Validate (btc_cfg c) = Inr ()"
  shows "btc_GetBlockByHeight R c height n = (Inr ib, n') \<longleftrightarrow>
    (\<exists>h n1 b. first_answer (\<lambda>i. GetBlockHash (client c) i height) (unat (MaxRetryTimes (btc_cfg c))) n h n1 \<and>
       first_answer (\<lambda>i. GetBlock (client c) i h) (unat (MaxRetryTimes (btc_cfg c))) n1 b n' \<and>
       Height ib = ucast height \<and> MsgBlock_of ib = b \<and> Txs ib = GetWrappedTxs b)"
proof -
  have "ib = NewIndexedBlockFromMsgBlock h b \<longleftrightarrow> Height ib = h \<and> MsgBlock_of ib = b \<and> Txs ib = GetWrappedTxs b" for h b
    by (cases ib; cases b) (auto simp: NewIndexedBlockFromMsgBlock_def MsgBlock_of_def GetWrappedTxs_def comp_def map_nth)
  then show ?thesis by (simp add: GetBlockByHeight_Inr [OF assms])
qed

end
