(* ===== verification/System.thy ===== *)
theory System
  imports Lifecycle Btc_Client
begin

text \<open>
  The Bitcoin client of \<open>Btc_Client\<close> as the client of the scanner, which \<open>cmd/sid/cli/start.go\<close>
  makes it, and what the scanner then gets from the node.
\<close>

section \<open>The client of the scanner\<close>

text \<open>
  The scanner counts its calls of the client, the client those of the node: \<open>node k\<close> is the
  node as the \<open>k\<close>-th call of the client finds it.
\<close>

definition scanner_client :: "retry_go \<Rightarrow> (nat \<Rightarrow> rpc_Client) \<Rightarrow> BTCConfig \<Rightarrow> Client \<Rightarrow> Client" where
  "scanner_client R node cfg cl = cl\<lparr>
     GetTipHeight := (\<lambda>k. fst (btc_GetTipHeight R \<lparr>client = node k, btc_cfg = cfg\<rparr> 0)),
     GetBlockByHeight := (\<lambda>k h. fst (btc_GetBlockByHeight R \<lparr>client = node k, btc_cfg = cfg\<rparr> h 0))\<rparr>"

text \<open>All transactions that the node ever sends are in \<open>C\<close> and have inputs.\<close>

definition node_ok :: "MsgTx set \<Rightarrow> (nat \<Rightarrow> rpc_Client) \<Rightarrow> bool" where
  "node_ok C node \<longleftrightarrow>
     (\<forall>k i h b. GetBlock (node k) i h = Inr b \<longrightarrow> (\<forall>tx\<in>set (Transactions b). tx \<in> C \<and> TxIn tx \<noteq> []))"

lemma scanner_client_answers:
  assumes "retry_ok R" and "BTCConfig_Validate cfg = Inr ()" and "node_ok C node"
  shows "answers (scanner_client R node cfg cl) (block_ok C)"
proof -
  have "block_ok C ib" if fetched: "fst (btc_GetBlockByHeight R \<lparr>client = node k, btc_cfg = cfg\<rparr> h 0) = Inr ib" for k h ib
  proof -
    obtain n' where "btc_GetBlockByHeight R \<lparr>client = node k, btc_cfg = cfg\<rparr> h 0 = (Inr ib, n')"
      using fetched by (metis prod.collapse)
    then obtain g n1 b where b: "first_answer (\<lambda>i. GetBlock (node k) i g) (unat (MaxRetryTimes cfg)) n1 b n'"
      and ib: "ib = NewIndexedBlockFromMsgBlock (ucast h) b"
      using assms(1,2) by (auto simp: GetBlockByHeight_Inr)
    have "\<forall>tx\<in>set (Transactions b). tx \<in> C \<and> TxIn tx \<noteq> []"
      using assms(3) b by (auto simp: node_ok_def first_answer_def)
    moreover have "set (map MsgTx_of (Txs ib)) = set (Transactions b)"
      by (simp add: ib NewIndexedBlockFromMsgBlock_def del: set_map)
    ultimately show ?thesis by (force simp: block_ok_def)
  qed
  then show ?thesis by (simp add: answers_def scanner_client_def)
qed

end
