(* ===== verification/Server.thy ===== *)
theory Server
  imports System
begin

text \<open>
  The server (\<open>server/server.go\<close>, \<open>server/prometheus.go\<close>): it brings up the metrics
  server, the notifier, the event consumer and the indexer, waits for the shutdown signal and
  takes everything down again.

  The results of starting and stopping the notifier and the consumer, of shutting down the
  HTTP server and of closing the database are given by the environment, and so is what the
  event loops do to the indexer until the signal comes. The state keeps a log of what came up
  and what was taken down, and of the errors that are only reported. \<open>go ps.Start()\<close> runs beside the rest; what it does by itself is
  \<open>prometheus_Start\<close>.
\<close>

section \<open>State and environment\<close>

datatype part = Prometheus | Notifier | Consumer | Indexer_app

datatype entry = Up part | Signal | Down part | Db_closed

text \<open>Durations in nanoseconds.\<close>

record PrometheusServer =
  Addr :: string
  ReadTimeout :: i64
  WriteTimeout :: i64
  IdleTimeout :: i64
  ReadHeaderTimeout :: i64

record 'db Server =
  srv_started :: i32
  srv_app :: "'db app"
  srv_prometheus :: "PrometheusServer option"
  srv_log :: "entry list"
  srv_errors :: "string list"

record 'db server_env =
  env_si :: "'db StakingIndexer"
  env_client :: Client
  env_fuel :: nat
  env_metrics :: MetricsConfig
  notifier_Start :: "lib_error option"
  notifier_Stop :: "lib_error option"
  consumer_Start :: "lib_error option"
  consumer_Stop :: "lib_error option"
  svr_Shutdown :: "lib_error option"
  svr_Close :: "lib_error option"
  db_Close :: "lib_error option"
  serve :: "'db app \<Rightarrow> 'db app"

definition NewStakingIndexerServer :: "'db app \<Rightarrow> 'db Server" where
  "NewStakingIndexerServer si =
     \<lparr>srv_started = 0, srv_app = si, srv_prometheus = None, srv_log = [], srv_errors = []\<rparr>"

section \<open>The metrics server\<close>

definition NewPrometheusServer :: "string \<Rightarrow> PrometheusServer" where
  "NewPrometheusServer addr =
     \<lparr>Addr = addr, ReadTimeout = 10 ^ 9, WriteTimeout = 30 * 10 ^ 9, IdleTimeout = 30 * 10 ^ 9,
      ReadHeaderTimeout = 2 * 10 ^ 9\<rparr>"

text \<open>\<open>ListenAndServe\<close> returns with an error when it ends; only a shutdown is expected.\<close>

definition prometheus_Start :: "lib_error \<Rightarrow> lib_error option \<Rightarrow> ('s, unit) prog" where
  "prometheus_Start ErrServerClosed listenAndServe =
     (case listenAndServe of
        None \<Rightarrow> ret ()
      | Some e \<Rightarrow> if e = ErrServerClosed then ret () else fatal ''failed to start Prometheus server'')"

text \<open>The errors logged by \<open>Stop\<close>.\<close>

definition prometheus_Stop :: "lib_error option \<Rightarrow> lib_error option \<Rightarrow> string list" where
  "prometheus_Stop shutdown close =
     (case shutdown of
        None \<Rightarrow> []
      | Some _ \<Rightarrow> ''failed to stop the Prometheus server'' #
          (case close of None \<Rightarrow> [] | Some _ \<Rightarrow> [''failed to force stopping the Prometheus server'']))"

section \<open>Running\<close>

text \<open>
  \<open>defer d\<close> around the rest of a function: \<open>d\<close> runs when the rest returns, fails or panics.
  \<open>logger.Fatal\<close> ends the process without it, and where the rest does not end it never runs.
\<close>

definition with_defer :: "('s, unit) prog \<Rightarrow> ('s, unit) prog \<Rightarrow> ('s, unit) prog" where
  "with_defer d rest s =
     (case rest s of
        (Inl (Fatal m), s') \<Rightarrow> (Inl (Fatal m), s')
      | (Inl OutOfFuel, s') \<Rightarrow> (Inl OutOfFuel, s')
      | (r, s') \<Rightarrow> (case d s' of (Inl f, s'') \<Rightarrow> (Inl f, s'') | (Inr _, s'') \<Rightarrow> (r, s'')))"

definition log_entry :: "entry \<Rightarrow> ('db Server, unit) prog" where
  "log_entry e = modify (\<lambda>sv. sv\<lparr>srv_log := srv_log sv @ [e]\<rparr>)"

definition on_app :: "('db app, 'a) prog \<Rightarrow> ('db Server, 'a) prog" where
  "on_app m sv = (let (r, a) = m (srv_app sv) in (r, sv\<lparr>srv_app := a\<rparr>))"

definition start_prometheus :: "string \<Rightarrow> ('db Server, unit) prog" where
  "start_prometheus addr =
     bind (modify (\<lambda>sv. sv\<lparr>srv_prometheus := Some (NewPrometheusServer addr)\<rparr>)) (\<lambda>_. log_entry (Up Prometheus))"

definition start_part :: "string \<Rightarrow> lib_error option \<Rightarrow> part \<Rightarrow> ('db Server, unit) prog" where
  "start_part msg err p =
     (case err of Some e \<Rightarrow> raise (Wrap msg (LibErr e)) | None \<Rightarrow> log_entry (Up p))"

text \<open>An error of stopping a part is only reported; the part counts as taken down.\<close>

definition stop_part :: "part \<Rightarrow> string list \<Rightarrow> ('db Server, unit) prog" where
  "stop_part p msgs = modify (\<lambda>sv. sv\<lparr>srv_errors := srv_errors sv @ msgs, srv_log := srv_log sv @ [Down p]\<rparr>)"

definition reported :: "string \<Rightarrow> lib_error option \<Rightarrow> string list" where
  "reported msg err = (case err of None \<Rightarrow> [] | Some _ \<Rightarrow> [msg])"

definition close_db :: "'db server_env \<Rightarrow> ('db Server, unit) prog" where
  "close_db env = (case db_Close env of Some _ \<Rightarrow> fatal ''error closing the database'' | None \<Rightarrow> log_entry Db_closed)"

definition stop_app :: "('db Server, unit) prog" where
  "stop_app =
     bind (attempt (on_app si_Stop)) (\<lambda>r.
     stop_part Indexer_app (if isl r then [''failed to stop the staking indexer app''] else []))"

text \<open>\<open>Start\<close> of the indexer and the wait for the signal.\<close>

definition run_app :: "'db server_env \<Rightarrow> u64 \<Rightarrow> ('db Server, unit) prog" where
  "run_app env startHeight =
     bind (on_error (on_app (si_Start (env_client env) (env_si env) (env_fuel env) startHeight))
       (\<lambda>e. raise (Wrap ''failed to start the staking indexer app'' e))) (\<lambda>_.
     bind (log_entry (Up Indexer_app)) (\<lambda>_.
     with_defer stop_app
       (bind (modify (\<lambda>sv. sv\<lparr>srv_app := serve env (srv_app sv)\<rparr>)) (\<lambda>_. log_entry Signal))))"

definition RunUntilShutdown :: "'db server_env \<Rightarrow> u64 \<Rightarrow> ('db Server, unit) prog" where
  "RunUntilShutdown env startHeight =
     bind (modify (\<lambda>sv. sv\<lparr>srv_started := srv_started sv + 1\<rparr>)) (\<lambda>_.
     bind (gets srv_started) (\<lambda>started.
     if started \<noteq> 1 then ret ()
     else
       with_defer (close_db env)
         (case Address (env_metrics env) of
            Inl e \<Rightarrow> raise e
          | Inr promAddr \<Rightarrow>
              bind (start_prometheus promAddr) (\<lambda>_.
              with_defer (stop_part Prometheus (prometheus_Stop (svr_Shutdown env) (svr_Close env)))
                (bind (start_part ''failed to start the BTC notifier'' (notifier_Start env) Notifier) (\<lambda>_.
                 with_defer (stop_part Notifier (reported ''failed to stop the BTC notifier'' (notifier_Stop env)))
                   (bind (start_part ''failed to start the event consumer'' (consumer_Start env) Consumer) (\<lambda>_.
                    with_defer (stop_part Consumer (reported ''failed to stop the event consumer'' (consumer_Stop env)))
                      (run_app env startHeight)))))))))"

section \<open>Taking down what came up\<close>

definition ended :: "'a outcome \<Rightarrow> bool" where
  "ended r \<longleftrightarrow> r \<noteq> Inl OutOfFuel \<and> (\<forall>m. r \<noteq> Inl (Fatal m))"

definition parts :: "part list" where
  "parts = [Prometheus, Notifier, Consumer, Indexer_app]"

text \<open>
  \<open>brackets ps m\<close>: every run of \<open>m\<close> that ends has brought up some first of the parts \<open>ps\<close>,
  waited for the signal if it were all of them, which is when it succeeds, and taken them
  down in reverse order. It keeps the counter of the calls.
\<close>

definition session :: "part list \<Rightarrow> nat \<Rightarrow> entry list" where
  "session ps k = map Up (take k ps) @ (if k = length ps then [Signal] else []) @ map Down (rev (take k ps))"

definition brackets :: "part list \<Rightarrow> ('db Server, unit) prog \<Rightarrow> bool" where
  "brackets ps m \<longleftrightarrow>
     (\<forall>sv r sv'. m sv = (r, sv') \<and> ended r \<longrightarrow>
        srv_started sv' = srv_started sv \<and> (\<exists>k\<le>length ps. srv_log sv' = srv_log sv @ session ps k \<and> (r = Inr () \<longleftrightarrow> k = length ps)))"

lemma ended_simps [simp]:
  "ended (Inr x)" "ended (Inl (Error e))" "ended (Inl (Panic s))" "\<not> ended (Inl (Fatal s))" "\<not> ended (Inl OutOfFuel)"
  by (simp_all add: ended_def)

lemma with_defer_ended:
  assumes "with_defer d rest s = (r, s')" and "ended r"
  obtains r1 s1 where "rest s = (r1, s1)" "ended r1" "d s1 = (Inr (), s')" "r = r1"
    | r1 s1 f where "rest s = (r1, s1)" "d s1 = (Inl f, s')" "r = Inl f"
proof -
  obtain r1 s1 where run: "rest s = (r1, s1)" by (cases "rest s")
  have "ended r1"
  proof (rule ccontr)
    assume "\<not> ended r1"
    then have "r = r1" using assms(1) run by (auto simp: with_defer_def ended_def)
    with \<open>\<not> ended r1\<close> assms(2) show False by simp
  qed
  then have "with_defer d rest s = (case d s1 of (Inl f, s'') \<Rightarrow> (Inl f, s'') | (Inr _, s'') \<Rightarrow> (r1, s''))"
    using run by (cases r1; cases "projl r1") (auto simp: with_defer_def split: prod.split sum.split)
  with assms(1) run \<open>ended r1\<close> that show thesis
    by (auto split: prod.splits sum.splits)
qed

lemma log_entry_run: "log_entry e sv = (Inr (), sv\<lparr>srv_log := srv_log sv @ [e]\<rparr>)"
  by (simp add: log_entry_def modify_def)

lemma session_Cons: "session (p # ps) (Suc k) = Up p # session ps k @ [Down p]"
  by (simp add: session_def)

lemma stop_part_run:
  "stop_part p msgs sv = (Inr (), sv\<lparr>srv_errors := srv_errors sv @ msgs, srv_log := srv_log sv @ [Down p]\<rparr>)"
  by (simp add: stop_part_def modify_def)

text \<open>A part around what brackets the others.\<close>

definition brings_up :: "part \<Rightarrow> ('db Server, unit) prog \<Rightarrow> bool" where
  "brings_up p m0 \<longleftrightarrow>
     (\<forall>sv. \<exists>sv'. m0 sv = (Inr (), sv') \<and> srv_started sv' = srv_started sv \<and> srv_log sv' = srv_log sv @ [Up p])"

lemma brackets_part:
  assumes "brackets ps m" and "brings_up p m0"
  shows "brackets (p # ps) (bind m0 (\<lambda>_. with_defer (stop_part p msgs) m))"
  unfolding brackets_def
proof (intro allI impI, elim conjE)
  fix sv sv' :: "'a Server" and r
  assume run: "bind m0 (\<lambda>_. with_defer (stop_part p msgs) m) sv = (r, sv')" and r: "ended r"
  obtain sv0 where up: "m0 sv = (Inr (), sv0)" "srv_started sv0 = srv_started sv" "srv_log sv0 = srv_log sv @ [Up p]"
    using assms(2) unfolding brings_up_def by blast
  then have "with_defer (stop_part p msgs) m sv0 = (r, sv')" using run by (simp add: bind_def)
  then obtain s1 where m: "m sv0 = (r, s1)"
    and sv': "sv' = s1\<lparr>srv_errors := srv_errors s1 @ msgs, srv_log := srv_log s1 @ [Down p]\<rparr>"
    using r by (rule with_defer_ended) (auto simp: stop_part_run)
  obtain k where "srv_started s1 = srv_started sv0" "k \<le> length ps" "srv_log s1 = srv_log sv0 @ session ps k"
      "r = Inr () \<longleftrightarrow> k = length ps"
    using assms(1) m r unfolding brackets_def by blast
  then show "srv_started sv' = srv_started sv \<and> (\<exists>k\<le>length (p # ps). srv_log sv' = srv_log sv @ session (p # ps) k \<and> (r = Inr () \<longleftrightarrow> k = length (p # ps)))"
    by (intro conjI exI [of _ "Suc k"]) (simp_all add: sv' up session_Cons)
qed

lemma brings_up_log: "brings_up p (log_entry (Up p))"
  by (simp add: brings_up_def log_entry_run)

lemma brings_up_prometheus: "brings_up Prometheus (start_prometheus addr)"
  by (simp add: brings_up_def start_prometheus_def bind_def modify_def log_entry_run)

lemma bind_raise: "bind (raise e) k = raise e"
  by (rule ext) (simp add: bind_def raise_def)

lemma brackets_raise: "ps \<noteq> [] \<Longrightarrow> brackets ps (raise e)"
  by (auto simp: brackets_def raise_def session_def)

lemma brackets_start_part:
  assumes "brackets ps m"
  shows "brackets (p # ps) (bind (start_part msg err p) (\<lambda>_. with_defer (stop_part p msgs) m))"
proof (cases err)
  case None
  with brackets_part [OF assms brings_up_log] show ?thesis by (simp add: start_part_def)
next
  case (Some e)
  then show ?thesis by (simp add: start_part_def bind_raise brackets_raise)
qed

lemma stop_app_run:
  "stop_app sv = (Inr (), sv\<lparr>srv_app := snd (si_Stop (srv_app sv)), srv_log := srv_log sv @ [Down Indexer_app]\<rparr>)"
  by (simp add: stop_app_def on_app_def si_Stop_def on_scanner_def scanner_Stop_def prog_simps stop_part_run
      attempt_def split: prod.split)

lemma run_app_cases:
  assumes "run_app env startHeight sv = (r, sv')" and "ended r"
  obtains (failed) f where "r = Inl f" "srv_started sv' = srv_started sv" "srv_log sv' = srv_log sv"
      "srv_app sv' = snd (si_Start (env_client env) (env_si env) (env_fuel env) startHeight (srv_app sv))"
    | (ran) a where "r = Inr ()" "srv_started sv' = srv_started sv"
      "srv_log sv' = srv_log sv @ [Up Indexer_app, Signal, Down Indexer_app]"
      "si_Start (env_client env) (env_si env) (env_fuel env) startHeight (srv_app sv) = (Inr (), a)"
      "srv_app sv' = snd (si_Stop (serve env a))"
proof -
  obtain r1 a where start: "si_Start (env_client env) (env_si env) (env_fuel env) startHeight (srv_app sv) = (r1, a)"
    by fastforce
  show thesis
  proof (cases r1)
    case (Inl f)
    then have "\<exists>f. r = Inl f" "sv' = sv\<lparr>srv_app := a\<rparr>"
      using assms(1) start
      by (cases f; auto simp: run_app_def bind_def on_error_def attempt_def on_app_def raise_def)+
    with start that(1) show thesis by auto
  next
    case (Inr u)
    with assms(1) start that(2) show thesis
      by (auto simp: run_app_def bind_def on_error_def attempt_def on_app_def ret_def log_entry_run
          with_defer_def modify_def stop_app_run)
  qed
qed

lemma brackets_run_app: "brackets [Indexer_app] (run_app env startHeight)"
  unfolding brackets_def
proof (intro allI impI, elim conjE)
  fix sv sv' :: "'a Server" and r
  assume "run_app env startHeight sv = (r, sv')" "ended r"
  then show "srv_started sv' = srv_started sv \<and> (\<exists>k\<le>length [Indexer_app]. srv_log sv' = srv_log sv @ session [Indexer_app] k \<and>
      (r = Inr () \<longleftrightarrow> k = length [Indexer_app]))"
  proof (cases rule: run_app_cases)
    case (failed f)
    then show ?thesis by (intro conjI exI [of _ 0]) (simp_all add: session_def)
  next
    case (ran a)
    then show ?thesis by (intro conjI exI [of _ 1]) (simp_all add: session_def)
  qed
qed

lemma RunUntilShutdown_first:
  assumes "srv_started sv = 0" and "RunUntilShutdown env startHeight sv = (r, sv')" and "ended r"
  obtains m s1 where "brackets parts m" "m (sv\<lparr>srv_started := 1\<rparr>) = (r, s1)"
    "sv' = s1\<lparr>srv_log := srv_log s1 @ [Db_closed]\<rparr>"
proof -
  define m where "m = (case Address (env_metrics env) of
      Inl e \<Rightarrow> raise e
    | Inr promAddr \<Rightarrow>
        bind (start_prometheus promAddr) (\<lambda>_.
        with_defer (stop_part Prometheus (prometheus_Stop (svr_Shutdown env) (svr_Close env)))
          (bind (start_part ''failed to start the BTC notifier'' (notifier_Start env) Notifier) (\<lambda>_.
           with_defer (stop_part Notifier (reported ''failed to stop the BTC notifier'' (notifier_Stop env)))
             (bind (start_part ''failed to start the event consumer'' (consumer_Start env) Consumer) (\<lambda>_.
              with_defer (stop_part Consumer (reported ''failed to stop the event consumer'' (consumer_Stop env)))
                (run_app env startHeight)))))))"
  have "brackets parts m"
    unfolding m_def parts_def
    by (auto intro!: brackets_raise brackets_part brackets_start_part brackets_run_app brings_up_prometheus split: sum.split)
  moreover have "with_defer (close_db env) m (sv\<lparr>srv_started := 1\<rparr>) = (r, sv')"
    using assms(1,2) by (simp add: RunUntilShutdown_def m_def prog_simps)
  from this assms(3) have "\<exists>s1. m (sv\<lparr>srv_started := 1\<rparr>) = (r, s1) \<and> sv' = s1\<lparr>srv_log := srv_log s1 @ [Db_closed]\<rparr>"
  proof (rule with_defer_ended)
    fix r1 s1 f
    assume "close_db env s1 = (Inl f, sv')" "r = Inl f"
    with assms(3) show ?thesis by (auto simp: close_db_def fatal_def log_entry_run split: option.splits)
  qed (auto simp: close_db_def fatal_def log_entry_run split: option.splits)
  ultimately show thesis using that by blast
qed

text \<open>C31: the server takes down whatever it brought up. A first call of \<open>RunUntilShutdown\<close> that ends
  without ending the process has brought up the first \<open>k\<close> of metrics server, notifier, consumer
  and indexer, in this order; it returns no error exactly when these are all four, and has then
  waited for the signal; it has taken the same parts down in the reverse order, and closed the
  database last. Later calls do nothing.\<close>

theorem RunUntilShutdown_stops:
  assumes "RunUntilShutdown env startHeight (NewStakingIndexerServer a) = (r, sv)" and "ended r"
  shows "\<exists>k\<le>4. srv_log sv =
      map Up (take k parts) @ (if k = 4 then [Signal] else []) @ map Down (rev (take k parts)) @ [Db_closed] \<and>
    (r = Inr () \<longleftrightarrow> k = 4) \<and> RunUntilShutdown env h sv = (Inr (), sv\<lparr>srv_started := 2\<rparr>)"
proof -
  obtain m s1 where m: "brackets parts m" "m ((NewStakingIndexerServer a)\<lparr>srv_started := 1\<rparr>) = (r, s1)"
    and sv: "sv = s1\<lparr>srv_log := srv_log s1 @ [Db_closed]\<rparr>"
    using assms by (elim RunUntilShutdown_first [rotated 1]) (simp_all add: NewStakingIndexerServer_def)
  then obtain k where "srv_started s1 = 1" "k \<le> length parts" "srv_log s1 = session parts k" "r = Inr () \<longleftrightarrow> k = length parts"
    using assms(2) unfolding brackets_def by (fastforce simp: NewStakingIndexerServer_def)
  then show ?thesis
    by (intro exI [of _ k]) (simp add: sv session_def parts_def RunUntilShutdown_def prog_simps)
qed

section \<open>A failed start\<close>

lemma si_Start_loop:
  "startOnce (snd (si_Start cl si fuel startHeight a))" "si_quit (snd (si_Start cl si fuel startHeight a)) = si_quit a"
proof -
  have scan: "run_in (\<lambda>a a'. f a' = f a) (on_scanner m)" if "\<And>a s. f (a\<lparr>scanner := s\<rparr>) = f a" for f :: "'a app \<Rightarrow> bool" and m
    by (simp add: run_in_def on_scanner_def that split: prod.split)
  have rest: "run_in (\<lambda>a a'. f a' = f a)
      (bind (wrap_error ''invalid start height''
         (bind (gets (\<lambda>a. db (index a))) (\<lambda>d. lift (ValidateStartHeight si startHeight d)))) (\<lambda>_.
       bind (lift (slice_index (Versions si) 0)) (\<lambda>v0.
       bind (on_scanner (scanner_Start cl fuel startHeight (ActivationHeight v0))) (\<lambda>_.
       bind (modify (startedAt_update (\<lambda>_. Some startHeight))) (\<lambda>_.
       on_index (metric (startBtcHeight_update (\<lambda>_. uint startHeight))))))))"
    if "\<And>a s. f (a\<lparr>scanner := s\<rparr>) = f a" "\<And>a s. f (a\<lparr>index := s\<rparr>) = f a" "\<And>a h. f (startedAt_update h a) = f a"
    for f :: "'a app \<Rightarrow> bool"
    unfolding wrap_error_def
    by (intro frame.run_bind frame.run_on_error frame.run_gets frame.run_lift frame.run_raise frame.run_modify scan that)
      (simp add: run_in_def on_index_def metric_def modify_def that)
  show "startOnce (snd (si_Start cl si fuel startHeight a))" "si_quit (snd (si_Start cl si fuel startHeight a)) = si_quit a"
    using rest [of startOnce] rest [of si_quit]
    by (auto simp: si_Start_def prog_simps run_in_def)
qed

text \<open>C36: when the start of the indexer fails, its event loop is left running. \<open>Start\<close> sets the loop
  up before anything that can fail, but \<open>Stop\<close> is deferred only after \<open>Start\<close> has succeeded: the
  consumer, the notifier and the metrics server are taken down and the database is closed while
  the loop has not been told to quit.\<close>

theorem failed_start_keeps_loop:
  assumes "RunUntilShutdown env startHeight (NewStakingIndexerServer a) = (r, sv)" and "\<not> si_quit a"
    and "Address (env_metrics env) = Inr addr" and "notifier_Start env = None" and "consumer_Start env = None"
    and "db_Close env = None"
    and "fst (si_Start (env_client env) (env_si env) (env_fuel env) startHeight a) = Inl (Error e)"
  shows "r = Inl (Error (Wrap ''failed to start the staking indexer app'' e)) \<and>
    srv_log sv = [Up Prometheus, Up Notifier, Up Consumer, Down Consumer, Down Notifier, Down Prometheus, Db_closed] \<and>
    startOnce (srv_app sv) \<and> \<not> si_quit (srv_app sv)"
proof -
  obtain a' where start: "si_Start (env_client env) (env_si env) (env_fuel env) startHeight a = (Inl (Error e), a')"
    using assms(7) by (metis prod.collapse)
  have "startOnce a'" and "\<not> si_quit a'"
    using si_Start_loop [of "env_client env" "env_si env" "env_fuel env" startHeight a] start assms(2) by simp_all
  moreover have app: "run_app env startHeight s =
      (Inl (Error (Wrap ''failed to start the staking indexer app'' e)), s\<lparr>srv_app := a'\<rparr>)" if "srv_app s = a" for s
    using start that by (simp add: run_app_def bind_def on_error_def attempt_def on_app_def raise_def)
  ultimately show ?thesis
    using assms(1,3-6)
    by (auto simp: RunUntilShutdown_def NewStakingIndexerServer_def prog_simps with_defer_def start_part_def
        close_db_def log_entry_run stop_part_run start_prometheus_def)
qed

end
