(* ===== verification/Btc_Headers.thy ===== *)
theory Btc_Headers
  imports Btc_Client
begin

text \<open>
  \<open>BtcHeaderInfoList\<close> of the command \<open>btc-headers\<close> (\<open>cmd/sid/cli/btc_headers.go\<close>): the headers of
  a range of heights, from a client of the Bitcoin node.

  The client is a function from a height to a call, the serialisation of a header
  (\<open>NewBTCHeaderBytesFromBlockHeader\<close>) is a parameter. The loop gets as much fuel as there are
  heights, plus one; it is used up only when \<open>toBlk\<close> is the last \<open>uint64\<close>, where the loop of
  the code wraps around. \<open>make\<close> panics when the slice of pointers would not fit into the
  address space (48 bits).
\<close>

section \<open>The list\<close>

record BTCHeaderInfo =
  info_Header :: bytes
  info_Height :: u64

definition max_cap :: u64 where
  "max_cap = 2 ^ 45"

definition header_info :: "(BlockHeader \<Rightarrow> bytes) \<Rightarrow> bool \<Rightarrow> u64 \<Rightarrow> BlockHeader \<Rightarrow> BTCHeaderInfo" where
  "header_info headerBytes withHeight blkHeight blkHeader =
     \<lparr>info_Header = headerBytes blkHeader, info_Height = (if withHeight then blkHeight else 0)\<rparr>"

fun header_loop ::
    "(u64 \<Rightarrow> BlockHeader rpc) \<Rightarrow> (BlockHeader \<Rightarrow> bytes) \<Rightarrow> bool \<Rightarrow> nat \<Rightarrow> u64 \<Rightarrow> u64 \<Rightarrow> BTCHeaderInfo list \<Rightarrow>
      (nat, BTCHeaderInfo list) prog" where
  "header_loop getHeader headerBytes withHeight 0 blkHeight toBlk btcHeaders n = (Inl OutOfFuel, n)"
| "header_loop getHeader headerBytes withHeight (Suc fuel) blkHeight toBlk btcHeaders n =
     (if \<not> blkHeight \<le> toBlk then (Inr btcHeaders, n)
      else case getHeader blkHeight n of
             (Inl e, n') \<Rightarrow> (Inl (Error (Wrap ''failed to get block height from BTC client'' e)), n')
           | (Inr blkHeader, n') \<Rightarrow>
               header_loop getHeader headerBytes withHeight fuel (blkHeight + 1) toBlk
                 (btcHeaders @ [header_info headerBytes withHeight blkHeight blkHeader]) n')"

definition BtcHeaderInfoList ::
    "(u64 \<Rightarrow> BlockHeader rpc) \<Rightarrow> (BlockHeader \<Rightarrow> bytes) \<Rightarrow> u64 \<Rightarrow> u64 \<Rightarrow> bool \<Rightarrow>
      (nat, BTCHeaderInfo list) prog" where
  "BtcHeaderInfoList getHeader headerBytes fromBlk toBlk withHeight n =
     (if toBlk - fromBlk + 1 > max_cap then (Inl (Panic ''makeslice: cap out of range''), n)
      else header_loop getHeader headerBytes withHeight (heights fromBlk toBlk + 1) fromBlk toBlk [] n)"

section \<open>Correctness\<close>

text \<open>\<open>infos\<close> are the headers at the heights from \<open>h\<close> on, each an answer of the client.\<close>

fun headers_from :: "(u64 \<Rightarrow> BlockHeader rpc) \<Rightarrow> (BlockHeader \<Rightarrow> bytes) \<Rightarrow> bool \<Rightarrow> u64 \<Rightarrow> BTCHeaderInfo list \<Rightarrow> bool" where
  "headers_from getHeader headerBytes withHeight h [] \<longleftrightarrow> True"
| "headers_from getHeader headerBytes withHeight h (info # infos) \<longleftrightarrow>
     (\<exists>hd n. fst (getHeader h n) = Inr hd \<and> info = header_info headerBytes withHeight h hd) \<and>
     headers_from getHeader headerBytes withHeight (h + 1) infos"

lemma headers_from_nth:
  assumes "headers_from getHeader headerBytes withHeight h infos" and "i < length infos"
  shows "\<exists>hd n. fst (getHeader (h + word_of_nat i) n) = Inr hd \<and>
    infos ! i = header_info headerBytes withHeight (h + word_of_nat i) hd"
  using assms
proof (induction infos arbitrary: h i)
  case (Cons info infos)
  show ?case
  proof (cases i)
    case 0
    with Cons.prems show ?thesis by auto
  next
    case (Suc j)
    with Cons.prems have "headers_from getHeader headerBytes withHeight (h + 1) infos" "j < length infos" by simp_all
    from Cons.IH [OF this] Suc show ?thesis by (simp add: add.assoc)
  qed
qed simp

lemma header_loop_run:
  assumes "toBlk \<noteq> - 1" and "heights blkHeight toBlk < fuel"
    and "header_loop getHeader headerBytes withHeight fuel blkHeight toBlk btcHeaders n = (r, n')"
  shows "(\<exists>infos. r = Inr (btcHeaders @ infos) \<and> length infos = heights blkHeight toBlk \<and>
      headers_from getHeader headerBytes withHeight blkHeight infos) \<or>
    (\<exists>h m e. blkHeight \<le> h \<and> h \<le> toBlk \<and> fst (getHeader h m) = Inl e \<and>
      r = Inl (Error (Wrap ''failed to get block height from BTC client'' e)))"
  using assms(2,3)
proof (induction fuel arbitrary: blkHeight btcHeaders n)
  case 0
  then show ?case by simp
next
  case (Suc fuel)
  show ?case
  proof (cases "blkHeight \<le> toBlk")
    case False
    with Suc.prems show ?thesis by (simp add: heights_def)
  next
    case True
    note heights = heights_Suc [OF True assms(1)]
    obtain a n1 where call: "getHeader blkHeight n = (a, n1)" by fastforce
    show ?thesis
    proof (cases a)
      case (Inl e)
      have "r = Inl (Error (Wrap ''failed to get block height from BTC client'' e))"
        using Suc.prems(2) True call Inl by simp
      moreover have "fst (getHeader blkHeight n) = Inl e" using call Inl by simp
      ultimately show ?thesis using True by blast
    next
      case (Inr hd)
      let ?info = "header_info headerBytes withHeight blkHeight hd"
      have fuel: "heights (blkHeight + 1) toBlk < fuel" using Suc.prems(1) heights by simp
      have run: "header_loop getHeader headerBytes withHeight fuel (blkHeight + 1) toBlk (btcHeaders @ [?info]) n1 = (r, n')"
        using Suc.prems(2) True call Inr by simp
      consider (all) infos where "r = Inr ((btcHeaders @ [?info]) @ infos)"
          "length infos = heights (blkHeight + 1) toBlk" "headers_from getHeader headerBytes withHeight (blkHeight + 1) infos"
        | (fails) h m e where "blkHeight + 1 \<le> h" "h \<le> toBlk" "fst (getHeader h m) = Inl e"
          "r = Inl (Error (Wrap ''failed to get block height from BTC client'' e))"
        using Suc.IH [OF fuel run] by blast
      then show ?thesis
      proof cases
        case all
        have "fst (getHeader blkHeight n) = Inr hd" using call Inr by simp
        with all heights show ?thesis by (intro disjI1 exI [of _ "?info # infos"]) auto
      next
        case fails
        have "blkHeight \<le> h" by (rule order_trans [OF next_height_le [OF True assms(1)] fails(1)])
        with fails show ?thesis by blast
      qed
    qed
  qed
qed

text \<open>C34: the list of headers from \<open>fromBlk\<close> to \<open>toBlk\<close> always comes to an end (where the range
  does not reach the last \<open>uint64\<close>, and a slice of its length can be made): it has exactly one
  entry per height, in order, each the header that the client returned for that height, with
  the height filled in when asked for; or a call for a height in the range failed, and that
  error is returned.\<close>

theorem BtcHeaderInfoList_returned:
  assumes "fromBlk \<le> toBlk" and "toBlk \<noteq> - 1" and "toBlk - fromBlk + 1 \<le> max_cap"
    and "BtcHeaderInfoList getHeader headerBytes fromBlk toBlk withHeight n = (r, n')"
  shows "(\<exists>infos. r = Inr infos \<and> length infos = unat (toBlk - fromBlk) + 1 \<and>
      (\<forall>i<length infos. \<exists>hd m. fst (getHeader (fromBlk + word_of_nat i) m) = Inr hd \<and>
         infos ! i = \<lparr>info_Header = headerBytes hd,
           info_Height = (if withHeight then fromBlk + word_of_nat i else 0)\<rparr>)) \<or>
    (\<exists>h m e. fromBlk \<le> h \<and> h \<le> toBlk \<and> fst (getHeader h m) = Inl e \<and>
      r = Inl (Error (Wrap ''failed to get block height from BTC client'' e)))"
proof -
  have loop: "header_loop getHeader headerBytes withHeight (heights fromBlk toBlk + 1) fromBlk toBlk [] n = (r, n')"
    using assms(3,4) unfolding BtcHeaderInfoList_def by (simp split: if_splits)
  have "heights fromBlk toBlk < heights fromBlk toBlk + 1" by simp
  from header_loop_run [OF assms(2) this loop] show ?thesis
  proof
    assume "\<exists>infos. r = Inr ([] @ infos) \<and> length infos = heights fromBlk toBlk \<and>
      headers_from getHeader headerBytes withHeight fromBlk infos"
    then obtain infos where "r = Inr infos" "length infos = heights fromBlk toBlk"
      and h: "headers_from getHeader headerBytes withHeight fromBlk infos" by auto
    moreover have "heights fromBlk toBlk = unat (toBlk - fromBlk) + 1" using assms(1) by (simp add: heights_def)
    moreover note headers_from_nth [OF h, unfolded header_info_def]
    ultimately show ?thesis by auto
  qed blast
qed

end
