(* ===== verification/Paths.thy ===== *)
theory Paths
  imports Go_Std
begin

text \<open>
  File-system helpers, the logger and public keys: \<open>utils/path.go\<close>, \<open>utils/pubkey.go\<close> and
  \<open>log/log.go\<close>, with what they use of \<open>os\<close> and \<open>path/filepath\<close>.

  The operating system is the record \<open>os\<close>: the working directory, the current user, the
  environment variables, and the operations on files, which change a state of any type.
\<close>

section \<open>The operating system\<close>

text \<open>An error of \<open>os.MkdirAll\<close>: whether it is a \<open>*os.PathError\<close>, its path, \<open>os.IsExist\<close>.\<close>

record mkdir_error =
  is_PathError :: bool
  pe_Path :: string
  is_Exist :: bool
  pe_text :: lib_error

record 'fs os =
  Getwd :: "lib_error + string"
  CurrentUser :: "lib_error + string"
  Getenv :: "string \<Rightarrow> string"
  MkdirAll :: "string \<Rightarrow> 'fs \<Rightarrow> 'fs \<times> mkdir_error option"
  Readlink :: "string \<Rightarrow> 'fs \<Rightarrow> lib_error + string"
  OpenFile :: "string \<Rightarrow> 'fs \<Rightarrow> 'fs \<times> lib_error option"
  WriteFile :: "string \<Rightarrow> bytes \<Rightarrow> 'fs \<Rightarrow> 'fs \<times> lib_error option"

text \<open>\<open>os.Expand\<close>: the name after a dollar, with the number of bytes it takes.\<close>

definition isShellSpecialVar :: "char \<Rightarrow> bool" where
  "isShellSpecialVar c \<longleftrightarrow> c \<in> set ''*#$@!?-'' \<or> digit c"

definition isAlphaNum :: "char \<Rightarrow> bool" where
  "isAlphaNum c \<longleftrightarrow> c = CHR ''_'' \<or> digit c \<or> (CHR ''a'' \<le> c \<and> c \<le> CHR ''z'') \<or> (CHR ''A'' \<le> c \<and> c \<le> CHR ''Z'')"

definition getShellName :: "string \<Rightarrow> string \<times> nat" where
  "getShellName s =
     (if hd s = CHR ''{'' then
        if length s > 2 \<and> isShellSpecialVar (s ! 1) \<and> s ! 2 = CHR ''}'' then ([s ! 1], 3)
        else
          let name = takeWhile (\<lambda>c. c \<noteq> CHR ''}'') (tl s) in
          if length name = length (tl s) then ([], 1)
          else if name = [] then ([], 2)
          else (name, length name + 2)
      else if isShellSpecialVar (hd s) then ([hd s], 1)
      else let name = takeWhile isAlphaNum s in (name, length name))"

function Expand :: "(string \<Rightarrow> string) \<Rightarrow> string \<Rightarrow> string" where
  "Expand mapping [] = []"
| "Expand mapping (c # s) =
     (if c = CHR ''$'' \<and> s \<noteq> [] then
        let (name, w) = getShellName s in
        (if name = [] \<and> w > 0 then [] else if name = [] then ''$'' else mapping name) @
        Expand mapping (drop w s)
      else c # Expand mapping s)"
  by pat_completeness auto
termination
  by (relation "measure (\<lambda>(mapping, s). length s)") auto

definition Abs :: "'fs os \<Rightarrow> string \<Rightarrow> lib_error + string" where
  "Abs os path =
     (if path \<noteq> [] \<and> hd path = CHR ''/'' then Inr (Clean path)
      else case Getwd os of Inl e \<Rightarrow> Inl e | Inr wd \<Rightarrow> Inr (Join [wd, path]))"

text \<open>\<open>filepath.Dir\<close>: what is before the last separator, cleaned.\<close>

definition Dir :: "string \<Rightarrow> string" where
  "Dir path = Clean (rev (dropWhile (\<lambda>c. c \<noteq> CHR ''/'') (rev path)))"

section \<open>Paths (utils/path.go)\<close>

definition MakeDirectory :: "'fs os \<Rightarrow> string \<Rightarrow> ('fs, unit) prog" where
  "MakeDirectory os dir fs =
     (case MkdirAll os dir fs of
        (fs', None) \<Rightarrow> (Inr (), fs')
      | (fs', Some e) \<Rightarrow>
          (let err = (if is_PathError e \<and> is_Exist e \<and> \<not> isl (Readlink os (pe_Path e) fs')
                      then Errorf ''is symlink mounted?'' else LibErr (pe_text e)) in
           (Inl (Error (Wrap ''failed to create dir'' err)), fs')))"

definition homeDir :: "'fs os \<Rightarrow> string" where
  "homeDir os = (case CurrentUser os of Inr h \<Rightarrow> h | Inl _ \<Rightarrow> Getenv os ''HOME'')"

text \<open>\<open>strings.Replace(path, "~", homeDir, 1)\<close> replaces the leading tilde, if there is one.\<close>

definition CleanAndExpandPath :: "'fs os \<Rightarrow> string \<Rightarrow> string" where
  "CleanAndExpandPath os path =
     (if path = [] then []
      else
        let path' = (if hd path = CHR ''~'' then homeDir os @ tl path else path) in
        Clean (Expand (Getenv os) path'))"

section \<open>The logger (log/log.go)\<close>

datatype encoder = JSONEncoder | ConsoleEncoder | LogfmtEncoder

datatype log_level = PanicLevel | FatalLevel | ErrorLevel | WarnLevel | InfoLevel | DebugLevel

record logger =
  log_encoder :: encoder
  log_level :: log_level

definition NewRootLogger :: "string \<Rightarrow> string \<Rightarrow> go_error + logger" where
  "NewRootLogger format level =
     (case (if format = ''json'' then Some JSONEncoder
            else if format = ''auto'' \<or> format = ''console'' then Some ConsoleEncoder
            else if format = ''logfmt'' then Some LogfmtEncoder
            else None) of
        None \<Rightarrow> Inl (Errorf ''unrecognized log format'')
      | Some enc \<Rightarrow>
        (let l = ToLower level in
         case (if l = ''panic'' then Some PanicLevel
               else if l = ''fatal'' then Some FatalLevel
               else if l = ''error'' then Some ErrorLevel
               else if l = ''warn'' \<or> l = ''warning'' then Some WarnLevel
               else if l = ''info'' then Some InfoLevel
               else if l = ''debug'' then Some DebugLevel
               else None) of
           None \<Rightarrow> Inl (Errorf ''unsupported log level'')
         | Some lvl \<Rightarrow> Inr \<lparr>log_encoder = enc, log_level = lvl\<rparr>))"

definition NewRootLoggerWithFile :: "'fs os \<Rightarrow> string \<Rightarrow> string \<Rightarrow> ('fs, logger) prog" where
  "NewRootLoggerWithFile os logFile level =
     bind (MakeDirectory os (Dir logFile)) (\<lambda>_.
     bind (\<lambda>fs. case OpenFile os (Clean logFile) fs of
             (fs', Some e) \<Rightarrow> (Inl (Error (LibErr e)), fs')
           | (fs', None) \<Rightarrow> (Inr (), fs')) (\<lambda>_.
     case NewRootLogger ''console'' level of Inl e \<Rightarrow> raise e | Inr l \<Rightarrow> ret l))"

section \<open>Public keys (utils/pubkey.go)\<close>

text \<open>\<open>hex.DecodeString\<close>; an odd digit at the end is looked at before the length is refused.\<close>

definition hex_value :: "char \<Rightarrow> nat option" where
  "hex_value c =
     (if digit c then Some (digit_value c)
      else if CHR ''a'' \<le> c \<and> c \<le> CHR ''f'' then Some (of_char c - 87)
      else if CHR ''A'' \<le> c \<and> c \<le> CHR ''F'' then Some (of_char c - 55)
      else None)"

fun hex_DecodeString :: "string \<Rightarrow> lib_error + bytes" where
  "hex_DecodeString [] = Inr []"
| "hex_DecodeString [c] = (if hex_value c = None then Inl ''invalid byte'' else Inl ''odd length hex string'')"
| "hex_DecodeString (c # d # s) =
     (case (hex_value c, hex_value d) of
        (Some a, Some b) \<Rightarrow>
          (case hex_DecodeString s of Inl e \<Rightarrow> Inl e | Inr bs \<Rightarrow> Inr (word_of_nat (16 * a + b) # bs))
      | _ \<Rightarrow> Inl ''invalid byte'')"

definition ParseCovenantPubKeyFromHex :: "(bytes \<Rightarrow> lib_error + 'key) \<Rightarrow> string \<Rightarrow> go_error + 'key" where
  "ParseCovenantPubKeyFromHex ParsePubKey pkStr =
     (case hex_DecodeString pkStr of
        Inl e \<Rightarrow> Inl (LibErr e)
      | Inr pkBytes \<Rightarrow> lib_result (ParsePubKey pkBytes))"

section \<open>Facts\<close>

text \<open>Keys survive being written as hexadecimal text.\<close>

lemma hex_value_digit:
  assumes "n < 16"
  shows "hex_value (hex_digit n) = Some n"
proof -
  have "\<forall>n\<in>set [0..<16]. hex_value (hex_digit n) = Some n" by code_simp
  with assms show ?thesis by simp
qed

lemma hex_DecodeString_Encode: "hex_DecodeString (hex_EncodeToString b) = Inr b"
proof (induction b)
  case (Cons x b)
  have "unat x < 256" using unsigned_less [of x, where ?'a = nat] by simp
  then have "hex_value (hex_digit (unat x div 16)) = Some (unat x div 16)"
    and "hex_value (hex_digit (unat x mod 16)) = Some (unat x mod 16)"
    by (intro hex_value_digit; simp)+
  moreover have "16 * (unat x div 16) + unat x mod 16 = unat x" by (metis mult_div_mod_eq)
  ultimately show ?case using Cons by (simp del: of_nat_add of_nat_mult)
qed simp

lemma ParseCovenantPubKeyFromHex_encoded:
  "ParseCovenantPubKeyFromHex ParsePubKey (hex_EncodeToString b) = lib_result (ParsePubKey b)"
  by (simp add: ParseCovenantPubKeyFromHex_def hex_DecodeString_Encode)

text \<open>A rooted path stays rooted, so that a tilde is never the first character after \<open>Abs\<close>.\<close>

lemma Clean_rooted: "path \<noteq> [] \<Longrightarrow> hd path = CHR ''/'' \<Longrightarrow> hd (Clean path) = CHR ''/''"
  by (simp add: Clean_def Let_def)

lemma Abs_rooted:
  assumes "Abs os path = Inr p" and "\<forall>wd. Getwd os = Inr wd \<longrightarrow> wd \<noteq> [] \<and> hd wd = CHR ''/''"
  shows "p \<noteq> [] \<and> hd p = CHR ''/''"
proof (cases "path \<noteq> [] \<and> hd path = CHR ''/''")
  case True
  with assms(1) show ?thesis using Clean_rooted [of path] Clean_nonempty [of path] by (simp add: Abs_def)
next
  case False
  then obtain wd where wd: "Getwd os = Inr wd" "p = Join [wd, path]"
    using assms(1) by (auto simp: Abs_def split: sum.splits)
  then have "hd (join_with ''/'' [wd, path]) = CHR ''/''" "join_with ''/'' [wd, path] \<noteq> []" using assms(2) by auto
  with wd assms(2) Clean_rooted Clean_nonempty show ?thesis by (simp add: Join_def)
qed

end
