(* ===== verification/Notifier.thy ===== *)
theory Notifier
  imports Config
begin

text \<open>
  The block notifier (\<open>btcscanner/btc_notifier.go\<close>): the connection to \<open>bitcoind\<close> that the
  notifier of \<open>lnd\<close> polls, and the empty hint cache. Connecting and starting are calls of the
  libraries. A dialer is known by the address it dials.
\<close>

section \<open>The connection\<close>

record PollingConfig =
  poll_BlockPollingInterval :: i64
  poll_TxPollingInterval :: i64
  TxPollingIntervalJitter_percent :: nat

record BitcoindConfig =
  bd_ChainParams :: net_params
  bd_Host :: string
  bd_User :: string
  bd_Pass :: string
  bd_Dialer :: "string \<Rightarrow> string"
  PrunedModeMaxPeers :: i64
  bd_PollingConfig :: PollingConfig

text \<open>\<open>BuildDialer\<close> ignores the address it is called with.\<close>

definition BuildDialer :: "string \<Rightarrow> string \<Rightarrow> string" where
  "BuildDialer rpcHost addr = rpcHost"

definition bitcoindCfg :: "BTCConfig \<Rightarrow> net_params \<Rightarrow> BitcoindConfig" where
  "bitcoindCfg cfg params =
     \<lparr>bd_ChainParams = params, bd_Host = RPCHost cfg, bd_User = RPCUser cfg, bd_Pass = RPCPass cfg,
      bd_Dialer = BuildDialer (RPCHost cfg), PrunedModeMaxPeers = PrunedNodeMaxPeers cfg,
      bd_PollingConfig = \<lparr>poll_BlockPollingInterval = BlockPollingInterval cfg,
        poll_TxPollingInterval = TxPollingInterval cfg, TxPollingIntervalJitter_percent = 50\<rparr>\<rparr>"

record BTCNotifier =
  ntf_params :: net_params
  ntf_BlockCacheSize :: u64

definition NewBTCNotifier ::
    "(BitcoindConfig \<Rightarrow> lib_error + 'conn) \<Rightarrow> ('conn \<Rightarrow> lib_error option) \<Rightarrow> BTCConfig \<Rightarrow> net_params \<Rightarrow>
      go_error + BTCNotifier" where
  "NewBTCNotifier NewBitcoindConn conn_Start cfg params =
     (case NewBitcoindConn (bitcoindCfg cfg params) of
        Inl e \<Rightarrow> Inl (LibErr e)
      | Inr bitcoindConn \<Rightarrow>
        (case conn_Start bitcoindConn of
           Some e \<Rightarrow> Inl (Errorf ''unable to connect to bitcoind'')
         | None \<Rightarrow> Inr \<lparr>ntf_params = params, ntf_BlockCacheSize = BlockCacheSize cfg\<rparr>))"

section \<open>The empty hint cache\<close>

text \<open>What is committed is not kept; every query finds the hint 0, so that the notifier scans
  from the beginning.\<close>

definition CommitSpendHint :: "u32 \<Rightarrow> 'req list \<Rightarrow> go_error + unit" where
  "CommitSpendHint height spendRequests = Inr ()"

definition QuerySpendHint :: "'req \<Rightarrow> go_error + u32" where
  "QuerySpendHint spendRequest = Inr 0"

definition PurgeSpendHint :: "'req list \<Rightarrow> go_error + unit" where
  "PurgeSpendHint spendRequests = Inr ()"

definition CommitConfirmHint :: "u32 \<Rightarrow> 'req list \<Rightarrow> go_error + unit" where
  "CommitConfirmHint height confRequests = Inr ()"

definition QueryConfirmHint :: "'req \<Rightarrow> go_error + u32" where
  "QueryConfirmHint confRequest = Inr 0"

definition PurgeConfirmHint :: "'req list \<Rightarrow> go_error + unit" where
  "PurgeConfirmHint confRequests = Inr ()"

end
