(* ===== verification/Commands.thy ===== *)
theory Commands
  imports Server Btc_Headers Paths Notifier
begin

text \<open>
  The commands of the program (\<open>cmd/sid/cli\<close>): \<open>init\<close>, \<open>start\<close> and \<open>btc-headers\<close>, and the
  parameters retriever (\<open>params/params.go\<close>).

  The record \<open>libs\<close> holds the constructors of the libraries that the commands call: the RPC
  client, the connection of the notifier, the database, the parser of the global parameters,
  the queue manager, the interceptor of signals, and the writer of the configuration file.
  \<open>connection c k\<close> is the node behind the RPC client \<open>c\<close> as the \<open>k\<close>-th call finds it.
\<close>

section \<open>Libraries and arguments\<close>

record ('fs, 'db) libs =
  lib_os :: "'fs os"
  lib_pk :: packages
  rpcclient_New :: "ConnConfig \<Rightarrow> lib_error + rpc_Client"
  connection :: "rpc_Client \<Rightarrow> nat \<Rightarrow> rpc_Client"
  lib_retry :: retry_go
  NewBitcoindConn :: "BitcoindConfig \<Rightarrow> lib_error + unit"
  bitcoindConn_Start :: "lib_error option"
  GetBoltBackend :: "BoltBackendConfig \<Rightarrow> lib_error + 'db"
  NewParsedGlobalParamsFromFile :: "string \<Rightarrow> lib_error + ParsedVersionedGlobalParams list"
  ParamsByHeight :: "ParsedVersionedGlobalParams list \<Rightarrow> u64 \<Rightarrow> ParsedVersionedGlobalParams option"
  NewQueueManager :: "ClientQueueConfig \<Rightarrow> lib_error option"
  Intercept :: "lib_error option"
  lib_si :: "'db StakingIndexer"
  lib_client :: Client
  lib_server :: "'db server_env"
  IniWriteFile :: "Config \<Rightarrow> string \<Rightarrow> 'fs \<Rightarrow> 'fs \<times> lib_error option"
  header_bytes :: "BlockHeader \<Rightarrow> bytes"
  MarshalIndent :: "BTCHeaderInfo list \<Rightarrow> lib_error + bytes"

record Context =
  ctx_Args :: "string list"
  homeFlag :: string
  forceFlag :: bool
  startHeightFlag :: "u64 option"
  paramsPathFlag :: string
  outputFileFlag :: string
  withHeightFlag :: bool

text \<open>An operation on files that may fail with an error of the library.\<close>

definition file_op :: "('fs \<Rightarrow> 'fs \<times> lib_error option) \<Rightarrow> ('fs, unit) prog" where
  "file_op f fs = (case f fs of (fs', None) \<Rightarrow> (Inr (), fs') | (fs', Some e) \<Rightarrow> (Inl (Error (LibErr e)), fs'))"

text \<open>The error of a call, wrapped into a message.\<close>

definition or_wrap :: "string \<Rightarrow> go_error + 'a \<Rightarrow> ('s, 'a) prog" where
  "or_wrap msg r = (case r of Inl e \<Rightarrow> raise (Wrap msg e) | Inr x \<Rightarrow> ret x)"

definition or_return :: "go_error + 'a \<Rightarrow> ('s, 'a) prog" where
  "or_return r = (case r of Inl e \<Rightarrow> raise e | Inr x \<Rightarrow> ret x)"

text \<open>The parameters retriever.\<close>

record GlobalParamsRetriever =
  paramsVersions :: "ParsedVersionedGlobalParams list"

definition NewGlobalParamsRetriever ::
    "(string \<Rightarrow> lib_error + ParsedVersionedGlobalParams list) \<Rightarrow> string \<Rightarrow> go_error + GlobalParamsRetriever" where
  "NewGlobalParamsRetriever parse filePath =
     (case parse filePath of Inl e \<Rightarrow> Inl (LibErr e) | Inr p \<Rightarrow> Inr \<lparr>paramsVersions = p\<rparr>)"

definition VersionedParams :: "GlobalParamsRetriever \<Rightarrow> ParsedVersionedGlobalParams list" where
  "VersionedParams lp = paramsVersions lp"

text \<open>The home directory, as all commands find it.\<close>

definition home_path :: "'fs os \<Rightarrow> Context \<Rightarrow> go_error + string" where
  "home_path os ctx =
     (case Abs os (homeFlag ctx) of Inl e \<Rightarrow> Inl (LibErr e) | Inr p \<Rightarrow> Inr (CleanAndExpandPath os p))"

section \<open>init\<close>

definition initHome :: "('fs, 'db) libs \<Rightarrow> Context \<Rightarrow> ('fs, unit) prog" where
  "initHome L c =
     bind (or_return (home_path (lib_os L) c)) (\<lambda>homePath.
     if FileExists (lib_pk L) homePath \<and> \<not> forceFlag c then raise (Errorf ''home path already exists'')
     else
       bind (MakeDirectory (lib_os L) homePath) (\<lambda>_.
       bind (MakeDirectory (lib_os L) (LogDir homePath)) (\<lambda>_.
       bind (MakeDirectory (lib_os L) (DataDir homePath)) (\<lambda>_.
       bind (lift (DefaultConfigWithHome (lib_pk L) homePath)) (\<lambda>defaultConfig.
       file_op (IniWriteFile L defaultConfig (ConfigFile homePath)))))))"

section \<open>start\<close>

record 'db startup =
  su_env :: "'db server_env"
  su_app :: "'db app"
  su_height :: u64

text \<open>The indexer on these parameters and this configuration.\<close>

definition indexer_of :: "('fs, 'db) libs \<Rightarrow> ParsedVersionedGlobalParams list \<Rightarrow> Config \<Rightarrow> 'db StakingIndexer" where
  "indexer_of L vs cfg = (lib_si L)\<lparr>Versions := vs, GetVersionedGlobalParamsByHeight := ParamsByHeight L vs,
     ExtraEventEnabled := cfg_ExtraEventEnabled cfg, BTCNetParams := cfg_BTCNetParams cfg\<rparr>"

text \<open>\<open>start\<close> up to the point where the server runs.\<close>

definition prepare :: "('fs, 'db) libs \<Rightarrow> Context \<Rightarrow> ('fs, 'db startup) prog" where
  "prepare L ctx =
     bind (or_return (home_path (lib_os L) ctx)) (\<lambda>homePath.
     bind (on_error (lift (LoadConfig (lib_pk L) homePath))
       (\<lambda>e. raise (Wrap ''failed to load configuration'' e))) (\<lambda>cfg.
     bind (on_error (NewRootLoggerWithFile (lib_os L) (LogFile homePath) (LogLevel cfg))
       (\<lambda>e. raise (Wrap ''failed to initialize the logger'' e))) (\<lambda>logger.
     bind (or_wrap ''failed to initialize the BTC client''
       (NewBTCClient (rpcclient_New L) (cfg_BTCConfig cfg))) (\<lambda>btcClient.
     bind (or_wrap ''failed to initialize the BTC notifier''
       (NewBTCNotifier (NewBitcoindConn L) (\<lambda>_. bitcoindConn_Start L) (cfg_BTCConfig cfg) (cfg_BTCNetParams cfg))) (\<lambda>btcNotifier.
     bind (or_wrap ''failed to create db backend''
       (GetDbBackend (GetBoltBackend L) (DatabaseConfig cfg))) (\<lambda>dbBackend.
     bind (or_wrap ''failed to initialize params retriever''
       (NewGlobalParamsRetriever (NewParsedGlobalParamsFromFile L) (paramsPathFlag ctx))) (\<lambda>paramsRetriever.
     let versionedParams = VersionedParams paramsRetriever in
     bind (lift (slice_index versionedParams 0)) (\<lambda>v0.
     bind (or_wrap ''failed to initialize the BTC scanner'' NewBTCScanner) (\<lambda>scanner.
     bind (or_wrap ''invalid queue config'' (ToQueueClientConfig (lib_pk L) (cfg_QueueConfig cfg))) (\<lambda>validQueueCfg.
     bind (or_wrap ''failed to initialize event consumer''
       (case NewQueueManager L validQueueCfg of Some e \<Rightarrow> Inl (LibErr e) | None \<Rightarrow> Inr ())) (\<lambda>_.
     let si = indexer_of L versionedParams cfg;
         cl = scanner_client (lib_retry L) (connection L (client btcClient)) (btc_cfg btcClient)
           ((lib_client L)\<lparr>confirmationDepth := ConfirmationDepth v0\<rparr>) in
     bind (or_wrap ''failed to initialize the staking indexer app'' (NewStakingIndexer si dbBackend scanner)) (\<lambda>a.
     bind (case startHeightFlag ctx of
             Some h \<Rightarrow> ret h
           | None \<Rightarrow> lift (GetStartHeight si (db (index a)))) (\<lambda>startHeight.
     bind (case Intercept L of Some e \<Rightarrow> raise (LibErr e) | None \<Rightarrow> ret ()) (\<lambda>_.
     ret \<lparr>su_env = (lib_server L)\<lparr>env_si := si, env_client := cl, env_metrics := cfg_MetricsConfig cfg\<rparr>,
          su_app = a, su_height = startHeight\<rparr>))))))))))))))"

definition start :: "('fs, 'db) libs \<Rightarrow> Context \<Rightarrow> 'fs \<Rightarrow> unit outcome \<times> 'db Server option \<times> 'fs" where
  "start L ctx fs =
     (case prepare L ctx fs of
        (Inl f, fs') \<Rightarrow> (Inl f, None, fs')
      | (Inr su, fs') \<Rightarrow>
          (let (r, sv) = RunUntilShutdown (su_env su) (su_height su) (NewStakingIndexerServer (su_app su))
           in (r, Some sv, fs')))"

section \<open>btc-headers\<close>

definition btcHeaders :: "('fs, 'db) libs \<Rightarrow> Context \<Rightarrow> ('fs, unit) prog" where
  "btcHeaders L ctx =
     (if length (ctx_Args ctx) \<noteq> 2 then raise (Errorf ''not enough params, please specify [from] and [to]'')
      else
        bind (or_wrap ''unable to parse'' (lib_result (ParseUint (ctx_Args ctx ! 0)))) (\<lambda>fromBlock.
        bind (or_wrap ''unable to parse'' (lib_result (ParseUint (ctx_Args ctx ! 1)))) (\<lambda>toBlock.
        if fromBlock > toBlock then raise (Errorf ''the [from] should not be greater than the [to]'')
        else
          bind (or_return (home_path (lib_os L) ctx)) (\<lambda>homePath.
          bind (on_error (lift (LoadConfig (lib_pk L) homePath))
            (\<lambda>e. raise (Wrap ''failed to load configuration'' e))) (\<lambda>cfg.
          bind (on_error (NewRootLoggerWithFile (lib_os L) (LogFile homePath) (LogLevel cfg))
            (\<lambda>e. raise (Wrap ''failed to initialize the logger'' e))) (\<lambda>logger.
          bind (or_wrap ''failed to initialize the BTC client''
            (NewBTCClient (rpcclient_New L) (cfg_BTCConfig cfg))) (\<lambda>btcClient.
          bind (on_error (lift (fst (BtcHeaderInfoList (GetBlockHeaderByHeight (lib_retry L) btcClient)
              (header_bytes L) fromBlock toBlock (withHeightFlag ctx) 0)))
            (\<lambda>e. raise (Wrap ''failed to get BTC headers'' e))) (\<lambda>headers.
          bind (or_wrap ''failed to generate json'' (lib_result (MarshalIndent L headers))) (\<lambda>bz.
          on_error (file_op (WriteFile (lib_os L) (outputFileFlag ctx) bz))
            (\<lambda>e. raise (Wrap ''failed to write to output file'' e)))))))))))"

section \<open>What a start that gets as far as the server has set up\<close>

lemma step_Inr:
  "or_wrap msg r s = (Inr x, s') \<longleftrightarrow> r = Inr x \<and> s' = s"
  "or_return r s = (Inr x, s') \<longleftrightarrow> r = Inr x \<and> s' = s"
  "lift q s = (Inr x, s') \<longleftrightarrow> q = Inr x \<and> s' = s"
  "ret y s = (Inr x, s') \<longleftrightarrow> y = x \<and> s' = s"
  "raise e s \<noteq> (Inr x, s')"
  by (auto simp: or_wrap_def or_return_def lift_def ret_def raise_def split: sum.splits)

lemma bind_Inr_iff: "bind m k s = (Inr y, s') \<longleftrightarrow> (\<exists>x s1. m s = (Inr x, s1) \<and> k x s1 = (Inr y, s'))"
  by (auto simp: bind_def split: prod.splits sum.splits)

lemma file_op_Inr: "file_op f s = (Inr (), s') \<longleftrightarrow> f s = (s', None)"
  by (auto simp: file_op_def split: prod.splits option.splits)

lemma LoadConfig_valid: "LoadConfig pk homePath = Inr cfg \<Longrightarrow> \<exists>cfg0. Config_Validate pk cfg0 = (Inr (), cfg)"
  by (auto simp: LoadConfig_def Let_def split: if_splits sum.splits prod.splits)

definition wired :: "('fs, 'db) libs \<Rightarrow> Context \<Rightarrow> 'db startup \<Rightarrow> bool" where
  "wired L ctx su \<longleftrightarrow>
     (\<exists>cfg0 cfg c d v0 vs s.
        Config_Validate (lib_pk L) cfg0 = (Inr (), cfg) \<and>
        GetBoltBackend L (DBConfigToBoltBackenCondfig (DatabaseConfig cfg)) = Inr d \<and>
        NewParsedGlobalParamsFromFile L (paramsPathFlag ctx) = Inr (v0 # vs) \<and> NewBTCScanner = Inr s \<and>
        env_si (su_env su) = indexer_of L (v0 # vs) cfg \<and>
        env_client (su_env su) = scanner_client (lib_retry L) (connection L c) (cfg_BTCConfig cfg)
          ((lib_client L)\<lparr>confirmationDepth := ConfirmationDepth v0\<rparr>) \<and>
        env_metrics (su_env su) = cfg_MetricsConfig cfg \<and>
        NewStakingIndexer (env_si (su_env su)) d s = Inr (su_app su) \<and>
        (case startHeightFlag ctx of
           Some h \<Rightarrow> su_height su = h
         | None \<Rightarrow> GetStartHeight (env_si (su_env su)) (db (index (su_app su))) = Inr (su_height su)))"

lemma prepare_wired:
  assumes "prepare L ctx fs = (Inr su, fs')"
  shows "wired L ctx su"
proof -
  from assms obtain homePath cfg c d vs v0 s a h fs1 where
    cfg: "LoadConfig (lib_pk L) homePath = Inr cfg"
    and c: "NewBTCClient (rpcclient_New L) (cfg_BTCConfig cfg) = Inr c"
    and d: "GetDbBackend (GetBoltBackend L) (DatabaseConfig cfg) = Inr d"
    and vs: "NewParsedGlobalParamsFromFile L (paramsPathFlag ctx) = Inr vs" "slice_index vs 0 = Inr v0"
    and s: "NewBTCScanner = Inr s"
    and a: "NewStakingIndexer (indexer_of L vs cfg) d s = Inr a"
    and h: "(case startHeightFlag ctx of Some h \<Rightarrow> ret h
       | None \<Rightarrow> lift (GetStartHeight (indexer_of L vs cfg) (db (index a)))) fs1 =
       (Inr h, fs1)"
    and su: "su = \<lparr>su_env = (lib_server L)\<lparr>env_si := indexer_of L vs cfg,
         env_client := scanner_client (lib_retry L) (connection L (client c)) (btc_cfg c)
           ((lib_client L)\<lparr>confirmationDepth := ConfirmationDepth v0\<rparr>),
         env_metrics := cfg_MetricsConfig cfg\<rparr>, su_app = a, su_height = h\<rparr>"
    unfolding prepare_def Let_def
    by (auto simp: bind_Inr_iff step_Inr NewGlobalParamsRetriever_def VersionedParams_def
        split: option.splits sum.splits)
  obtain vs' where vs': "vs = v0 # vs'" using vs(2) by (cases vs) (auto simp: slice_index_def)
  have "btc_cfg c = cfg_BTCConfig cfg" using c by (auto simp: NewBTCClient_def split: sum.splits)
  moreover have "GetBoltBackend L (DBConfigToBoltBackenCondfig (DatabaseConfig cfg)) = Inr d"
    using d by (auto simp: GetDbBackend_def lib_result_def split: sum.splits)
  moreover obtain cfg0 where "Config_Validate (lib_pk L) cfg0 = (Inr (), cfg)"
    using LoadConfig_valid [OF cfg] by blast
  ultimately show ?thesis
    using vs s a h unfolding wired_def su vs'
    by (intro exI [of _ cfg0] exI [of _ cfg] exI [of _ "client c"] exI [of _ d] exI [of _ v0] exI [of _ vs'] exI [of _ s])
      (auto simp: step_Inr split: option.splits)
qed

text \<open>C2: the daemon as a whole, as the command \<open>start\<close> puts it together. Let the node answer with any
  blocks, or not answer, and let the confirmation depth of the first parameters be between 2
  and 100. In every state that the indexer and the scanner can reach from there, over any
  interleaving of the two event loops, retried calls, notifications, failed and repeated
  bootstraps, starts and stops, the confirmed blocks that the indexer has handled form one
  chain, linked by their parent hashes, and the store holds exactly what these blocks, one
  after the other, make of the ledger that it was opened with. This is one life of the
  process; a later life opens the store again and starts from that ledger. The database can be
  read throughout.\<close>

theorem start_indexes_one_chain:
  assumes "prepare L ctx fs = (Inr su, fs')"
    and "(app_step (env_client (su_env su)) (env_si (su_env su)))\<^sup>*\<^sup>* (su_app su) a"
    and "store_backend (store (lib_si L))" and "reads_ok (lib_si L)"
    and "\<And>cfg d. GetBoltBackend L cfg = Inr d \<Longrightarrow>
      contents_ok (store (lib_si L)) d \<and> ledger_wf (ledger_of (store (lib_si L)) d)"
    and "retry_ok (lib_retry L)" and "\<And>c. node_ok C (connection L c)" and "\<And>us u. receives (lib_client L) us u"
    and "2 \<le> confirmationDepth (env_client (su_env su))" and "confirmationDepth (env_client (su_env su)) \<le> 100"
  shows "linked (env_client (su_env su)) (handled a) \<and>
    chain_ledger (env_si (su_env su)) (handled a) (ledger_at (env_si (su_env su)) (index (su_app su))) =
      Some (ledger_at (env_si (su_env su)) (index a))"
proof -
  let ?si = "env_si (su_env su)" and ?cl = "env_client (su_env su)"
  obtain cfg0 cfg c d v0 vs s where cfg: "Config_Validate (lib_pk L) cfg0 = (Inr (), cfg)"
    and d: "GetBoltBackend L (DBConfigToBoltBackenCondfig (DatabaseConfig cfg)) = Inr d"
    and s: "NewBTCScanner = Inr s" and si: "?si = indexer_of L (v0 # vs) cfg"
    and cl: "?cl = scanner_client (lib_retry L) (connection L c) (cfg_BTCConfig cfg)
      ((lib_client L)\<lparr>confirmationDepth := ConfirmationDepth v0\<rparr>)"
    and app: "NewStakingIndexer ?si d s = Inr (su_app su)"
    using prepare_wired [OF assms(1)] unfolding wired_def by blast
  have store: "store ?si = store (lib_si L)" by (simp add: si indexer_of_def)
  have client: "client_ok ?cl" using assms(8-10) by (simp add: cl scanner_client_def client_ok_def)
  have "BTCConfig_Validate (cfg_BTCConfig cfg) = Inr ()"
    using cfg by (auto simp: Config_Validate_accepts config_ok_def BTCConfig_Validate_iff)
  then have answers: "answers ?cl (block_ok C)" unfolding cl by (rule scanner_client_answers [OF assms(6) _ assms(7)])
  have chain: "linked ?cl (handled a') \<and> chain_ledger ?si (handled a') (ledger_of (store ?si) d) = Some (ledger_at ?si (index a'))"
    if "(app_step ?cl ?si)\<^sup>*\<^sup>* (su_app su) a'" for a'
    using assms(3,4) assms(5) [OF d] that
    by (intro reachable_one_chain [OF _ _ client answers s app]) (simp_all add: store reads_ok_def)
  have "received (su_app su) = 0"
    using app by (auto simp: NewStakingIndexer_def split: prod.splits option.splits dest!: arg_cong [where f = received])
  then have "handled (su_app su) = []" by (simp add: handled_def)
  with chain [of "su_app su"] have "ledger_of (store ?si) d = ledger_at ?si (index (su_app su))" by simp
  with chain [OF assms(2)] show ?thesis by simp
qed

section \<open>From init to start\<close>

text \<open>
  The files as the operating system shows them later: \<open>gone\<close> and \<open>parse\<close> read the state that
  the commands leave. A configuration that \<open>go-flags\<close> writes and reads back is as it was, except
  for the network parameters, which are no option. This is asked of one configuration only, the
  default one below: a value with blanks around it would be trimmed when it is read.
\<close>

definition reads_back ::
    "('fs, 'db) libs \<Rightarrow> ('fs \<Rightarrow> string \<Rightarrow> bool) \<Rightarrow> ('fs \<Rightarrow> string \<Rightarrow> lib_error + Config) \<Rightarrow> Config \<Rightarrow> bool" where
  "reads_back L gone parse cfg \<longleftrightarrow>
     (\<forall>file fs fs'. IniWriteFile L cfg file fs = (fs', None) \<longrightarrow>
        \<not> gone fs' file \<and> parse fs' file = Inr (cfg\<lparr>cfg_BTCNetParams := []\<rparr>))"

text \<open>C35: after a successful \<open>init\<close>, the configuration that the other commands load from that home
  directory is the default configuration, network parameters included. Of \<open>go-flags\<close> it is used
  that it reads the default configuration back as it wrote it.\<close>

theorem init_then_load:
  assumes "initHome L c fs = (Inr (), fs')" and "home_path (lib_os L) c = Inr homePath"
    and "\<And>cfg. DefaultConfigWithHome (lib_pk L) homePath = Inr cfg \<Longrightarrow> reads_back L gone parse cfg"
  shows "LoadConfig ((lib_pk L)\<lparr>NotExist := gone fs', ParseFile := parse fs'\<rparr>) homePath =
    DefaultConfigWithHome (lib_pk L) homePath"
proof -
  let ?pk = "(lib_pk L)\<lparr>NotExist := gone fs', ParseFile := parse fs'\<rparr>"
  obtain cfg fs1 where cfg: "DefaultConfigWithHome (lib_pk L) homePath = Inr cfg"
    and wr: "IniWriteFile L cfg (ConfigFile homePath) fs1 = (fs', None)"
    using assms(1,2)
    by (auto simp: initHome_def bind_Inr_iff step_Inr file_op_Inr split: if_splits)
  from cfg obtain cfg0 where "Config_Validate (lib_pk L) cfg0 = (Inr (), cfg)"
    unfolding DefaultConfigWithHome_def Let_def by (auto split: prod.splits sum.splits)
  then have "config_ok (lib_pk L) cfg0" "cfg = cfg0\<lparr>cfg_BTCNetParams := the (net_of (lib_pk L) (BitcoinNetwork cfg0))\<rparr>"
    by (simp_all add: Config_Validate_accepts)
  moreover have "net_of ?pk name = net_of (lib_pk L) name" "queue_config_ok ?pk q = queue_config_ok (lib_pk L) q" for name q
    by (simp_all add: net_of_def queue_config_ok_def)
  ultimately have "Config_Validate ?pk (cfg\<lparr>cfg_BTCNetParams := []\<rparr>) = (Inr (), cfg)"
    by (simp add: Config_Validate_accepts config_ok_def)
  moreover have "FileExists ?pk (ConfigFile homePath)"
    "ParseFile ?pk (ConfigFile homePath) = Inr (cfg\<lparr>cfg_BTCNetParams := []\<rparr>)"
    using assms(3) [OF cfg] wr by (auto simp: reads_back_def FileExists_def)
  ultimately show ?thesis using cfg by (simp add: LoadConfig_def)
qed

section \<open>The home directory\<close>

text \<open>
  Every command makes its home directory absolute before it expands it. A tilde is therefore
  never expanded: the home directory of the user plays no role.
\<close>

lemma home_path_ignores_user:
  assumes "\<forall>wd. Getwd os = Inr wd \<longrightarrow> wd \<noteq> [] \<and> hd wd = CHR ''/''"
  shows "home_path (os\<lparr>CurrentUser := u\<rparr>) ctx = home_path os ctx"
proof (cases "Abs os (homeFlag ctx)")
  case (Inl e)
  then show ?thesis by (simp add: home_path_def Abs_def split: if_splits sum.splits)
next
  case (Inr p)
  have "Abs (os\<lparr>CurrentUser := u\<rparr>) (homeFlag ctx) = Abs os (homeFlag ctx)" by (simp add: Abs_def)
  moreover have "p \<noteq> [] \<and> hd p = CHR ''/''" by (rule Abs_rooted [OF Inr assms])
  ultimately show ?thesis using Inr by (simp add: home_path_def CleanAndExpandPath_def)
qed

end
