(* ===== verification/Resume.thy ===== *)
theory Resume
  imports Lifecycle
begin

text \<open>
  The heights of the blocks that the indexer handles, over a node whose blocks have the height
  of their parent plus one: no height is left out and none is handled twice, and after a stop
  at any point the indexer resumes with the height after the last block it handled.
\<close>

section \<open>Heights\<close>

text \<open>
  The height of a block is given by its hash, and it is one more than that of the parent. A
  node keeps this for all the blocks of its block tree.
\<close>

definition chain_heights :: "Client \<Rightarrow> (hash \<Rightarrow> i32) \<Rightarrow> bool" where
  "chain_heights cl height_of \<longleftrightarrow>
     answers cl (\<lambda>ib. height_of (BlockHash cl (Header ib)) = Height ib \<and>
       height_of (PrevBlock (Header ib)) + 1 = Height ib)"

lemma linked_consecutive:
  assumes "linked cl bs" and "\<forall>b\<in>set bs. height_of (BlockHash cl (Header b)) = Height b \<and>
      height_of (PrevBlock (Header b)) + 1 = Height b"
  shows "consecutive bs"
  using assms by (induction bs rule: consecutive.induct) auto

lemma chain_ledger_height:
  "chain_ledger si bs l = Some l' \<Longrightarrow> bs \<noteq> [] \<Longrightarrow> height l' = Some (u64_of_i32 (Height (last bs)))"
proof (induction bs arbitrary: l)
  case Nil
  then show ?case by simp
next
  case (Cons b bs)
  from Cons.prems(1) obtain params l1 where b: "run_steps (block_steps si params b) l = Some l1"
    and rest: "chain_ledger si bs l1 = Some l'"
    by (auto split: option.splits)
  show ?case
  proof (cases "bs = []")
    case True
    with b rest have "height l' = Some (u64_of_i32 (Height b))"
      by (auto simp: block_steps_def Let_def run_steps_append save_step_def split: option.splits)
    with True show ?thesis by simp
  qed (use Cons.IH [OF rest] in simp)
qed

section \<open>Every step keeps to the blocks of the node\<close>

definition app_blocks :: "(IndexedBlock \<Rightarrow> bool) \<Rightarrow> 'db app \<Rightarrow> bool" where
  "app_blocks P a \<longleftrightarrow> all_blocks P (scanner a)"

lemma app_blocks_on_scanner:
  "keeps_blocks P m \<Longrightarrow> run_in (\<lambda>a a'. app_blocks P a \<longrightarrow> app_blocks P a') (on_scanner m)"
  by (auto simp: run_in_def on_scanner_def app_blocks_def case_prod_beta Let_def)

lemma app_blocks_on_index: "run_in (\<lambda>a a'. app_blocks P a \<longrightarrow> app_blocks P a') (on_index m)"
  by (simp add: run_in_def on_index_def app_blocks_def case_prod_beta Let_def)

lemma app_blocks_fields [simp]:
  "app_blocks P (a\<lparr>startOnce := b\<rparr>) = app_blocks P a" "app_blocks P (a\<lparr>stopOnce := b\<rparr>) = app_blocks P a"
  "app_blocks P (a\<lparr>si_quit := b\<rparr>) = app_blocks P a" "app_blocks P (a\<lparr>startedAt := h\<rparr>) = app_blocks P a"
  "app_blocks P (a\<lparr>received := n\<rparr>) = app_blocks P a"
  by (simp_all add: app_blocks_def)

lemma app_blocks_Start:
  assumes "answers cl P"
  shows "run_in (\<lambda>a a'. app_blocks P a \<longrightarrow> app_blocks P a') (si_Start cl si fuel startHeight)"
  unfolding si_Start_def wrap_error_def
  by (rule keeps.run_bind [OF keeps.run_gets])
    (auto intro!: keeps.run_ret keeps.run_bind keeps.run_modify keeps.run_on_error keeps.run_gets keeps.run_lift
      keeps.run_raise app_blocks_on_scanner scanner_Start_blocks [OF assms] app_blocks_on_index)

lemma app_blocks_Stop: "run_in (\<lambda>a a'. app_blocks P a \<longrightarrow> app_blocks P a') si_Stop"
proof -
  have "keeps_blocks P scanner_Stop"
    by (simp add: scanner_Stop_def run_in_def prog_simps all_blocks_def)
  then show ?thesis
    unfolding si_Stop_def
    by (intro keeps.run_bind [OF keeps.run_gets])
      (auto intro!: keeps.run_ret keeps.run_bind keeps.run_modify app_blocks_on_scanner)
qed

lemma app_blocks_step:
  assumes "answers cl P" and "app_step cl si a a'" and "app_blocks P a"
  shows "app_blocks P a'"
  using assms(2,3)
proof cases
  case (start fuel startHeight r)
  then show ?thesis using run_inD [OF app_blocks_Start [OF assms(1)]] assms(3) by blast
next
  case (notified startHeight ep)
  from run_inD [OF app_blocks_on_scanner [OF handle_epoch_blocks [OF assms(1)]] notified(4)] assms(3)
  show ?thesis by blast
next
  case (received a1)
  from run_inD [OF app_blocks_on_index received(5)] assms(3) show ?thesis by (simp add: received(1))
next
  case (stop r)
  then show ?thesis using run_inD [OF app_blocks_Stop] assms(3) by blast
qed

lemma app_blocks_reachable:
  assumes "answers cl P" and "(app_step cl si)\<^sup>*\<^sup>* a a'" and "app_blocks P a"
  shows "app_blocks P a'"
  using assms(2,3) by (induction rule: rtranclp_induct) (auto intro: app_blocks_step [OF assms(1)])

lemma handled_blocks: "app_blocks P a \<Longrightarrow> \<forall>b\<in>set (handled a). P b"
  by (auto simp: app_blocks_def all_blocks_def handled_def dest: in_set_takeD)

section \<open>No height is left out\<close>

text \<open>C5: the blocks that the indexer has handled, in every state that it and the scanner can
  reach, have consecutive heights, and the height it would resume at after a stop in that state
  is the one after the last of them: over any interleaving, failed and repeated bootstraps and
  reorgs, no block between the first and the last is left out and none is handled twice. This
  is one life of the process; a later life opens the store again and starts at that height.
  The database can be read, and the confirmation depth is between 2 and 100 with the receiver
  of the channel there (\<open>client_ok\<close>).\<close>

theorem no_height_left_out:
  assumes B: "store_backend (store si)" and reads: "reads_ok si" and cl: "client_ok cl" "answers cl (block_ok C)"
    and heights: "chain_heights cl height_of"
    and new: "NewBTCScanner = Inr s" "NewStakingIndexer si d s = Inr a"
    and d: "contents_ok (store si) d" "ledger_wf (ledger_of (store si) d)"
    and steps: "(app_step cl si)\<^sup>*\<^sup>* a a'"
  shows "consecutive (handled a') \<and>
    (handled a' \<noteq> [] \<longrightarrow> GetStartHeight si (db (index a')) = Inr (u64_of_i32 (Height (last (handled a'))) + 1))"
proof -
  note chain = reachable_one_chain [OF B reads cl new d steps]
  let ?P = "\<lambda>ib. height_of (BlockHash cl (Header ib)) = Height ib \<and> height_of (PrevBlock (Header ib)) + 1 = Height ib"
  have "all_blocks ?P s"
    using new(1) by (auto simp: NewBTCScanner_def NewBTCCache_def defaultMaxEntries_def all_blocks_def)
  moreover have "scanner a = s" using new(2) by (auto simp: NewStakingIndexer_def split: prod.splits option.splits)
  ultimately have "app_blocks ?P a" by (simp add: app_blocks_def)
  then have "\<forall>b\<in>set (handled a'). ?P b"
    by (intro handled_blocks app_blocks_reachable [OF heights [unfolded chain_heights_def] steps])
  then have "consecutive (handled a')" using chain by (intro linked_consecutive) simp_all
  moreover have "GetStartHeight si (db (index a')) = Inr (u64_of_i32 (Height (last (handled a'))) + 1)"
    if "handled a' \<noteq> []"
  proof -
    have "db_ok si (index a')" using app_ok_reachable [OF B reads cl new d steps] by (simp add: app_ok_def)
    with chain_ledger_height [OF conjunct2 [OF chain] that] reads
      store_backend.GetLastProcessedHeight_ledger [OF B, of "db (index a')"]
    show ?thesis by (simp add: GetStartHeight_def reads_ok_def ledger_at_def db_ok_def)
  qed
  ultimately show ?thesis by blast
qed

end
