(* ===== verification/Scanner_Limits.thy ===== *)
theory Scanner_Limits
  imports Scanner_Correct
begin

text \<open>
  Two limits of the scanner.

  Confirmation depths beyond the size of the cache: the scanner never delivers a confirmed
  block. The cache holds at most \<open>defaultMaxEntries\<close> blocks, so that a trim that keeps as
  many finds nothing to give up, while adding a block to the full cache drops the oldest.

  A bootstrap that fails half-way: the blocks it has already taken out of the cache, but not
  yet sent, are gone, and a notification that extends the cache it leaves behind makes the
  scanner go on without them.
\<close>

section \<open>Depths beyond the cache\<close>

definition silent :: "BtcPoller \<Rightarrow> bool" where
  "silent s \<longleftrightarrow> cache_ok (unconfirmedBlockCache s) \<and>
     maxEntries (unconfirmedBlockCache s) = defaultMaxEntries \<and>
     (\<forall>u\<in>set (chainUpdateInfoChan s). ConfirmedBlocks u = [])"

definition too_deep :: "Client \<Rightarrow> bool" where
  "too_deep cl \<longleftrightarrow> confirmationDepth cl > ucast defaultMaxEntries"

abbreviation keeps_silent :: "(BtcPoller, 'a) prog \<Rightarrow> bool" where
  "keeps_silent m \<equiv> run_in (\<lambda>s s'. silent s \<longrightarrow> silent s') m"

lemma silent_calls: "silent s \<Longrightarrow> silent (s\<lparr>calls := n\<rparr>)"
  by (simp add: silent_def)

lemma too_deep_kept: "too_deep cl \<Longrightarrow> \<exists>k. kept cl = int k \<and> 100 \<le> k"
  by (intro exI [of _ "unat (confirmationDepth cl) - 1"])
    (simp add: too_deep_def kept_def word_less_nat_alt defaultMaxEntries_def of_nat_diff)

lemma client_call_silent: "keeps_silent (client_call f)"
  by (simp add: run_in_def client_call_def silent_calls)

lemma on_cache_silent:
  assumes "\<And>c. cache_ok c \<Longrightarrow> cache_ok (snd (m c)) \<and> maxEntries (snd (m c)) = maxEntries c"
  shows "keeps_silent (on_cache m)"
  using assms by (simp add: run_in_def on_cache_def silent_def case_prod_beta Let_def)

text \<open>Nothing is ever trimmed.\<close>

lemma add_and_trim_silent:
  assumes "too_deep cl" and "silent s"
  obtains s' where "add_and_trim cl ib s = (Inr [], s')" and "silent s'"
proof -
  let ?c = "unconfirmedBlockCache s"
  from too_deep_kept [OF assms(1)] obtain k where k: "kept cl = int k" "100 \<le> k" by blast
  have c: "cache_ok ?c" "maxEntries ?c = defaultMaxEntries" using assms(2) by (simp_all add: silent_def)
  from cache.ins_ok [OF c(1), of ib] obtain c1 where
    c1: "Add ib ?c = (Inr (), c1)" "cache_ok c1" "unat (maxEntries c1) = unat (maxEntries ?c)" by blast
  have "unat (maxEntries c1) \<le> k" using c1(3) c(2) k(2) by (simp add: defaultMaxEntries_def)
  from cache.trim_nothing [OF c1(2) this] cache.trim_ok [OF c1(2), of k] obtain c2 where
    c2: "TrimConfirmedBlocks (int k) c1 = (Inr [], c2)" "cache_ok c2"
      "unat (maxEntries c2) = unat (maxEntries c1)" by auto
  have "maxEntries c2 = defaultMaxEntries" using c2(3) c1(3) c(2) by (metis unsigned_word_eqI)
  then have "silent (s\<lparr>unconfirmedBlockCache := c2\<rparr>)" using assms(2) c2(2) by (simp add: silent_def)
  moreover have "add_and_trim cl ib s = (Inr [], s\<lparr>unconfirmedBlockCache := c2\<rparr>)"
    by (simp add: add_and_trim_def bind_def on_error_run on_cache_def c1(1) k(1) c2(1))
  ultimately show ?thesis using that by blast
qed

lemma commit_silent: "keeps_silent (commitChainUpdate cl [])"
  unfolding commitChainUpdate_def send_update_def if_P [OF refl]
  by (intro keeps.run_rules) (auto simp: silent_def)

lemma HandleNewBlock_silent:
  assumes "too_deep cl"
  shows "keeps_silent (HandleNewBlock cl ep)"
proof -
  have add: "silent s \<longrightarrow> silent (snd (bind (add_and_trim cl ib) (commitChainUpdate cl) s))" for s ib
  proof
    assume "silent s"
    then obtain s' where "add_and_trim cl ib s = (Inr [], s')" and "silent s'"
      by (rule add_and_trim_silent [OF assms])
    with commit_silent show "silent (snd (bind (add_and_trim cl ib) (commitChainUpdate cl) s))"
      by (simp add: bind_Inr run_in_def)
  qed
  show ?thesis
    unfolding HandleNewBlock_def
    by (rule keeps.run_bind, rule keeps.run_gets, split option.split, simp,
      intro conjI impI allI keeps.run_bind keeps.run_on_error keeps.run_raise keeps.run_ret client_call_silent)
      (auto simp: run_in_def add raise_def ret_def)
qed

lemma bootstrap_round_silent:
  assumes "too_deep cl" and "silent s"
  shows "silent (snd (bootstrap_round cl i [] s))"
    and "fst (bootstrap_round cl i [] s) = Inr confirmed \<Longrightarrow> confirmed = []"
proof -
  let ?s1 = "s\<lparr>calls := Suc (calls s)\<rparr>"
  have s1: "silent ?s1" using assms(2) by (rule silent_calls)
  have "silent (snd (bootstrap_round cl i [] s)) \<and>
      (fst (bootstrap_round cl i [] s) = Inr confirmed \<longrightarrow> confirmed = [])"
  proof (cases "GetBlockByHeight cl (calls s) i")
    case (Inl e)
    with s1 show ?thesis by (simp add: bootstrap_round_def bind_def on_error_run client_call_def)
  next
    case (Inr ib)
    obtain s2 where "add_and_trim cl ib ?s1 = (Inr [], s2)" and "silent s2"
      by (rule add_and_trim_silent [OF assms(1) s1])
    with Inr s1 show ?thesis
      by (auto simp: bootstrap_round_def bind_def [of "on_error _ _"] on_error_run client_call_def
          bind_Inr [OF gets_def] bind_Inr raise_def ret_def Let_def ConfirmedBlockBatchSize_def)
  qed
  then show "silent (snd (bootstrap_round cl i [] s))"
    and "fst (bootstrap_round cl i [] s) = Inr confirmed \<Longrightarrow> confirmed = []" by auto
qed

lemma bootstrap_loop_silent:
  assumes "too_deep cl" and "silent s"
  shows "silent (snd (bootstrap_loop cl fuel i tipHeight [] s)) \<and>
    (\<forall>confirmed. fst (bootstrap_loop cl fuel i tipHeight [] s) = Inr confirmed \<longrightarrow> confirmed = [])"
  using assms(2)
proof (induction fuel arbitrary: i s)
  case 0
  then show ?case by (simp add: out_of_fuel_def)
next
  case (Suc fuel)
  note round = bootstrap_round_silent [OF assms(1) Suc.prems, of i]
  show ?case
  proof (cases "bootstrap_round cl i [] s")
    case (Pair r s')
    with round Suc show ?thesis
      by (cases r) (auto simp: bind_def ret_def)
  qed
qed

lemma bootstrap_end_silent: "keeps_silent (bootstrap_end cl [])"
  unfolding bootstrap_end_def
  by (intro keeps.run_bind keeps.run_gets) (auto intro!: keeps.run_bind keeps.run_lift keeps.run_ret commit_silent)

lemma Bootstrap_silent:
  assumes "too_deep cl"
  shows "keeps_silent (Bootstrap cl startHeight)"
proof -
  have loop: "silent s \<longrightarrow> silent (snd (bind (bootstrap_loop cl fuel i t []) (bootstrap_end cl) s))" for s fuel i t
  proof
    assume "silent s"
    note l = bootstrap_loop_silent [OF assms this, of fuel i t]
    show "silent (snd (bind (bootstrap_loop cl fuel i t []) (bootstrap_end cl) s))"
    proof (cases "bootstrap_loop cl fuel i t [] s")
      case (Pair r s')
      with l bootstrap_end_silent [of cl] show ?thesis by (cases r) (auto simp: bind_def run_in_def)
    qed
  qed
  have "keeps_silent (on_cache RemoveAll)"
    by (rule on_cache_silent) (simp add: RemoveAll_def modify_def cache_ok_def)
  then show ?thesis
    unfolding Bootstrap_def
    by (intro keeps.run_bind keeps.run_on_error keeps.run_raise client_call_silent)
      (auto simp: run_in_def loop raise_def simp del: bootstrap_loop.simps)
qed

text \<open>C27: a scanner with a confirmation depth above the 100 blocks of its cache never sends a
  confirmed block, however long it runs.\<close>

theorem deep_scanner_never_confirms:
  assumes deep: "100 < confirmationDepth cl" and new: "NewBTCScanner = Inr s"
    and run: "bind (scanner_Start cl fuel startHeight activationHeight)
      (\<lambda>_. blockEventLoop cl reg startHeight epochs) s = (r, s')"
  shows "confirmed_stream s' = []"
proof -
  have cl: "too_deep cl" using deep by (simp add: too_deep_def defaultMaxEntries_def)
  have wait: "keeps_silent (waitUntilActivation cl fuel activationHeight)"
  proof (rule run_inI, rule impI)
    fix s
    assume "silent s"
    then show "silent (snd (waitUntilActivation cl fuel activationHeight s))"
      using waitUntilActivation_calls [of cl fuel activationHeight s] by (auto simp: silent_calls)
  qed
  have epoch: "keeps_silent (handle_epoch cl startHeight ep)" for ep
    unfolding handle_epoch_def Let_def
    by (intro keeps.run_on_error keeps.run_bind keeps.run_gets keeps.run_ret
      HandleNewBlock_silent [OF cl] Bootstrap_silent [OF cl])
  have started: "silent s \<Longrightarrow> silent (s\<lparr>isStarted := b\<rparr>)" for s b by (simp add: silent_def)
  have "keeps_silent (scanner_Start cl fuel startHeight activationHeight)"
    unfolding scanner_Start_def
    by (intro keeps.run_bind keeps.run_gets keeps.run_modify)
      (auto simp: started
        intro!: keeps.run_raise keeps.run_bind keeps.run_on_error wait Bootstrap_silent [OF cl])
  moreover have "keeps_silent (blockEventLoop cl reg startHeight epochs)"
    by (cases reg) (auto simp: blockEventLoop_def intro!: keeps.run_panic keeps.run_for_each epoch)
  ultimately have "keeps_silent (bind (scanner_Start cl fuel startHeight activationHeight)
      (\<lambda>_. blockEventLoop cl reg startHeight epochs))"
    by (intro keeps.run_bind)
  from run_inD [OF this run] have "silent s \<longrightarrow> silent s'" .
  moreover have "silent s"
    using new by (auto simp: NewBTCScanner_def NewBTCCache_def defaultMaxEntries_def silent_def cache_ok_def)
  ultimately show ?thesis by (simp add: silent_def confirmed_stream_def)
qed

section \<open>A bootstrap that fails half-way\<close>

lemma mod_cancel: "(a + b) mod k = a mod k \<Longrightarrow> b mod k = 0" for a b k :: nat
  using mod_eq_dvd_iff_nat [of a "a + b" k] by (simp add: mod_eq_0_iff_dvd)

text \<open>What a loop that ends with an error has sent, has lost and has left in the cache.\<close>

lemma bootstrap_loop_failed:
  assumes "client_ok cl" and "loop_ok cl confirmed s" and "length confirmed < 100"
    and "bootstrap_loop cl fuel i tipHeight confirmed s = (Inl (Error e), s')"
  shows "\<exists>ibs sent lost. fetched cl i ibs \<and> confirmed_stream s' = confirmed_stream s @ sent \<and>
    length sent mod 100 = 0 \<and> length lost < 100 \<and>
    sent @ lost @ blocks (unconfirmedBlockCache s') = confirmed @ blocks (unconfirmedBlockCache s) @ ibs \<and>
    length (blocks (unconfirmedBlockCache s')) =
      min (kept_blocks cl) (length (blocks (unconfirmedBlockCache s)) + length ibs)"
  using assms(2-4)
proof (induction fuel arbitrary: i confirmed s)
  case 0
  then show ?case by (simp add: out_of_fuel_def)
next
  case (Suc fuel)
  have up: "i \<le> tipHeight" using Suc.prems(3) by (simp add: ret_def split: if_splits)
  show ?case
  proof (cases rule: bootstrap_round_cases [OF assms(1) Suc.prems(1), of i])
    case (1 f s1)
    then have "f = Error e" "s1 = s'" using Suc.prems(3) up by (simp_all add: bind_Inl)
    with 1(5) Suc.prems(1,2) show ?thesis
      by (intro exI [of _ "[]"] exI [of _ confirmed])
        (simp add: loop_ok_def scanner_ok_def scanner_cache_ok_def)
  next
    case (2 ib confirmed1 s1 n)
    note batch = 2(7) [OF Suc.prems(2)]
    have "bootstrap_loop cl fuel (i + 1) tipHeight confirmed1 s1 = (Inl (Error e), s')"
      using Suc.prems(3) up 2(1) by (simp add: bind_Inr)
    from Suc.IH [OF 2(2) batch [THEN conjunct1] this] obtain ibs sent lost where
      ibs: "fetched cl (i + 1) ibs" "confirmed_stream s' = confirmed_stream s1 @ sent"
        "length sent mod 100 = 0" "length lost < 100"
        "sent @ lost @ blocks (unconfirmedBlockCache s') = confirmed1 @ blocks (unconfirmedBlockCache s1) @ ibs"
        "length (blocks (unconfirmedBlockCache s')) =
          min (kept_blocks cl) (length (blocks (unconfirmedBlockCache s1)) + length ibs)"
      by (elim exE conjE)
    from 2(6) obtain bs where bs: "confirmed_stream s1 = confirmed_stream s @ bs" by blast
    then have "length bs mod 100 = 0" using batch by (intro mod_cancel) auto
    moreover have "bs @ confirmed1 @ blocks (unconfirmedBlockCache s1) =
        confirmed @ blocks (unconfirmedBlockCache s) @ [ib]"
      using 2(4) bs by simp
    then have "(bs @ sent) @ lost @ blocks (unconfirmedBlockCache s') =
        confirmed @ blocks (unconfirmedBlockCache s) @ ib # ibs"
      using ibs(5) by (metis append.assoc append_Cons append_Nil)
    ultimately show ?thesis
      using ibs(2-4,6) bs 2(5) fetched_Cons [OF 2(3) ibs(1)]
      by (intro exI [of _ "ib # ibs"] exI [of _ "bs @ sent"] exI [of _ lost]) (simp add: mod_add_eq [symmetric])
  qed
qed

text \<open>The same of \<open>Bootstrap\<close>: its last step ends the process or returns, so that an error can
  only come from the tip or from the loop.\<close>

lemma Bootstrap_failed:
  assumes cl: "client_ok cl" and s: "scanner_ok cl s"
    and run: "Bootstrap cl startHeight s = (Inl (Error e), s1)"
  obtains ibs sent lost where "fetched cl startHeight ibs" and "confirmed_stream s1 = confirmed_stream s @ sent"
    and "length sent mod 100 = 0" and "length lost < 100"
    and "sent @ lost @ blocks (unconfirmedBlockCache s1) = ibs"
    and "length (blocks (unconfirmedBlockCache s1)) = min (kept_blocks cl) (length ibs)"
proof (cases rule: Bootstrap_run [OF s, of startHeight])
  case (1 s' f)
  with run that [of "[]" "[]" "[]"] show ?thesis by simp
next
  case (2 tipHeight s0)
  let ?loop = "bootstrap_loop cl (unat (tipHeight - startHeight) + 2) startHeight tipHeight []"
  have "?loop s0 = (Inl (Error e), s1)"
  proof (cases "?loop s0")
    case (Pair r s2)
    show ?thesis
    proof (cases r)
      case (Inl f)
      with run Pair show ?thesis unfolding 2(6) by (simp add: bind_Inl del: bootstrap_loop.simps)
    next
      case (Inr rest)
      have loop: "loop_ok cl rest s2" by (rule bootstrap_loop_ok(2) [OF cl 2(2) Pair Inr])
      then have "scanner_ok cl s2" "linked cl rest" by (auto simp: loop_ok_def linked_append)
      then have "fst (bootstrap_end cl rest s2) \<noteq> Inl (Error e)"
        by (cases rule: commitChainUpdate_cases [OF cl, of s2 rest]) (simp_all add: bootstrap_end_run [OF cl loop])
      with run Pair Inr show ?thesis unfolding 2(6) by (simp add: bind_Inr del: bootstrap_loop.simps)
    qed
  qed
  from bootstrap_loop_failed [OF cl 2(2) _ this, unfolded 2(3,4) append_Nil list.size(3) add_0, OF zero_less_numeral]
  obtain ibs sent lost where "fetched cl startHeight ibs" "confirmed_stream s1 = confirmed_stream s @ sent"
    "length sent mod 100 = 0" "length lost < 100" "sent @ lost @ blocks (unconfirmedBlockCache s1) = ibs"
    "length (blocks (unconfirmedBlockCache s1)) = min (kept_blocks cl) (length ibs)"
    by (elim exE conjE)
  then show ?thesis by (rule that)
qed

text \<open>C28: a bootstrap that fails loses blocks if the next notification extends what it
  has fetched. Let a bootstrap end with an error, at whatever call, and let the notification
  after it be handled without an error and bring a new block. Then, of the blocks the
  bootstrap had fetched, those beyond the last \<open>confirmationDepth - 1\<close> and beyond the last full
  batch of 100 confirmed ones are lost: what the scanner has sent as confirmed and holds as
  unconfirmed goes on with the blocks before and after them. The number of lost blocks is the
  remainder by 100 of the number of confirmed blocks fetched. (The confirmation depth is
  between 2 and 100 and the receiver of the channel is there; the hash of the notification
  identifies its block; depths above 100 are the theorem before.)\<close>

theorem failed_bootstrap_loses_blocks:
  assumes cl: "client_ok cl" and s: "scanner_ok cl s" and ep: "epoch_ok cl ep"
    and fails: "Bootstrap cl startHeight s = (Inl (Error e), s1)"
    and handled: "HandleNewBlock cl ep s1 = (Inr (), s2)" and new: "\<not> late ep s1"
  shows "\<exists>sent lost left ib n. fetched cl startHeight (sent @ lost @ left) \<and>
    length lost = (length (sent @ lost @ left) - kept_blocks cl) mod 100 \<and>
    length left = min (kept_blocks cl) (length (sent @ lost @ left)) \<and>
    GetBlockByHeight cl n (u64_of_i32 (epoch_Height ep)) = Inr ib \<and>
    confirmed_stream s2 @ blocks (unconfirmedBlockCache s2) = confirmed_stream s @ sent @ left @ [ib]"
proof -
  from Bootstrap_failed [OF cl s fails] obtain ibs sent lost where
    ibs: "fetched cl startHeight ibs" "confirmed_stream s1 = confirmed_stream s @ sent"
      "length sent mod 100 = 0" "length lost < 100" "sent @ lost @ blocks (unconfirmedBlockCache s1) = ibs"
      "length (blocks (unconfirmedBlockCache s1)) = min (kept_blocks cl) (length ibs)" .
  have s1: "scanner_ok cl s1" using Bootstrap_ok [OF cl s, of startHeight] fails by simp
  have lost: "length lost = (length ibs - kept_blocks cl) mod 100"
  proof -
    have "length ibs = length sent + length lost + min (kept_blocks cl) (length ibs)"
      using arg_cong [OF ibs(5), of length] ibs(6) by simp
    then have "length ibs - kept_blocks cl = length sent + length lost" by linarith
    then show ?thesis using ibs(3,4) by (simp add: mod_add_eq [symmetric])
  qed
  show ?thesis
  proof (cases rule: HandleNewBlock_cases [OF cl ep s1])
    case (1 r n)
    with handled new show ?thesis by simp
  next
    case (2 ib n s3 confirmed)
    have "commitChainUpdate cl confirmed s3 = (Inr (), s2)" using handled 2(2) by simp
    then have "confirmed_stream s2 = confirmed_stream s3 @ confirmed"
      "unconfirmedBlockCache s2 = unconfirmedBlockCache s3"
      by (cases rule: commitChainUpdate_cases [OF cl 2(4,6)]; simp)+
    then have "confirmed_stream s2 @ blocks (unconfirmedBlockCache s2) =
        confirmed_stream s @ sent @ blocks (unconfirmedBlockCache s1) @ [ib]"
      using 2(3,5) ibs(2) by (simp add: confirmed_stream_def)
    moreover note 2(1) lost ibs(1,6)
    ultimately show ?thesis
      unfolding ibs(5) [symmetric]
      by (intro exI [of _ sent] exI [of _ lost] exI [of _ "blocks (unconfirmedBlockCache s1)"] exI [of _ ib]
          exI [of _ n] conjI)
  qed
qed

end
