(* ===== verification/Sample_Scanner.thy ===== *)
theory Sample_Scanner
  imports Scanner_Limits
begin

text \<open>
  A concrete chain and two nodes on which the theorems about the scanner are applied: one
  that answers every call, and one that fails two of them.
\<close>

section \<open>A chain of 200 blocks\<close>

text \<open>The block at a height; the nonce identifies it, and its hash is the nonce's low byte.\<close>

definition chain_block :: "u64 \<Rightarrow> IndexedBlock" where
  "chain_block h =
     NewIndexedBlock (ucast h)
       \<lparr>h_Version = 1, PrevBlock = [ucast h - 1], MerkleRoot = [], Timestamp = 0, Bits = 0, Nonce = ucast h\<rparr> []"

definition chain_client :: "u16 \<Rightarrow> u64 \<Rightarrow> Client" where
  "chain_client depth tip =
     \<lparr>GetTipHeight = (\<lambda>n. Inr tip),
      GetBlockByHeight = (\<lambda>n h. if h \<le> 200 then Inr (chain_block h) else Inl (LibErr ''no such block'')),
      BlockHash = (\<lambda>hd. [ucast (Nonce hd)]),
      Hash_String = (\<lambda>h. hex_EncodeToString h),
      receives = (\<lambda>us u. True),
      confirmationDepth = depth\<rparr>"

definition chain_epoch :: "u64 \<Rightarrow> BlockEpoch" where
  "chain_epoch h =
     \<lparr>epoch_Hash = [ucast h], epoch_Height = ucast h, BlockHeader_of = Header (chain_block h)\<rparr>"

text \<open>A node whose calls 4 and 9 fail, and that reports these tips.\<close>

definition flaky_client :: Client where
  "flaky_client = (chain_client 3 0)\<lparr>
     GetTipHeight := (\<lambda>n. Inr (if n < 4 then 11 else 13)),
     GetBlockByHeight := (\<lambda>n h. if n = 4 \<or> n = 9 then Inl (LibErr ''connection refused'') else Inr (chain_block h))\<rparr>"

definition new_scanner :: BtcPoller where
  "new_scanner = projr NewBTCScanner"

lemma NewBTCScanner_new: "NewBTCScanner = Inr new_scanner"
  by (simp add: new_scanner_def NewBTCScanner_def NewBTCCache_def defaultMaxEntries_def)

lemma client_ok_chain: "client_ok (chain_client 3 tip)"
  by (simp add: client_ok_def chain_client_def)

lemma ucast_u8_u32: "(ucast (ucast (h :: u64) :: u32) :: u8) = ucast h"
  by (rule bit_word_eqI) (simp add: bit_simps)

lemma epoch_ok_chain: "epoch_ok (chain_client depth tip) (chain_epoch h)"
  by (auto simp: epoch_ok_def chain_client_def chain_epoch_def chain_block_def NewIndexedBlock_def
      hex_EncodeToString_inj ucast_u8_u32 simp del: hex_EncodeToString.simps split: if_splits)

section \<open>Applications\<close>

definition sample_run :: "Client \<Rightarrow> u64 \<Rightarrow> BlockEpoch list \<Rightarrow> unit outcome \<times> BtcPoller" where
  "sample_run cl startHeight epochs =
     bind (scanner_Start cl 9 startHeight 5) (\<lambda>_. blockEventLoop cl None startHeight epochs) new_scanner"

definition started_scanner :: BtcPoller where
  "started_scanner = snd (Bootstrap (chain_client 3 14) 10 new_scanner)"

lemma tips_chain: "tip \<noteq> - 1 \<Longrightarrow> \<forall>n. GetTipHeight (chain_client depth tip) n \<noteq> Inr (- 1)"
  by (simp add: chain_client_def)

lemma started_scanner_run: "Bootstrap (chain_client 3 14) 10 new_scanner = (Inr (), started_scanner)"
proof -
  have "fst (Bootstrap (chain_client 3 14) 10 new_scanner) = Inr ()" by code_simp
  then show ?thesis by (simp add: started_scanner_def prod_eq_iff)
qed

lemma scanner_ok_started: "scanner_ok (chain_client 3 tip) started_scanner"
proof -
  have "scanner_ok (chain_client 3 14) started_scanner"
    unfolding started_scanner_def by (rule Bootstrap_ok [OF client_ok_chain NewBTCScanner_ok [OF NewBTCScanner_new]])
  moreover have "linked (chain_client 3 tip) xs = linked (chain_client 3 14) xs" for xs
    by (induction xs rule: induct_list012) (simp_all add: chain_client_def)
  ultimately show ?thesis
    by (simp add: scanner_ok_def scanner_cache_ok_def stream_ok_def kept_blocks_def) (simp add: chain_client_def)
qed

theorem Bootstrap_returned_witness:
  "\<exists>tipHeight ibs confirmed. (\<exists>n. GetTipHeight (chain_client 3 14) n = Inr tipHeight) \<and> 10 \<le> tipHeight \<and>
    length ibs = Suc (unat (tipHeight - 10)) \<and> fetched (chain_client 3 14) 10 ibs \<and>
    confirmed_stream started_scanner = confirmed_stream new_scanner @ confirmed \<and>
    confirmed @ blocks (unconfirmedBlockCache started_scanner) = ibs \<and>
    length (blocks (unconfirmedBlockCache started_scanner)) = min (kept_blocks (chain_client 3 14)) (length ibs) \<and>
    UnconfirmedBlocks (last (chainUpdateInfoChan started_scanner)) = blocks (unconfirmedBlockCache started_scanner)"
  by (rule Bootstrap_returned [OF client_ok_chain NewBTCScanner_ok [OF NewBTCScanner_new] _ started_scanner_run])
    (rule tips_chain, simp)

theorem Bootstrap_ends_witness: "fst (Bootstrap (chain_client 3 14) 10 new_scanner) \<noteq> Inl OutOfFuel"
  by (rule Bootstrap_ends [OF client_ok_chain NewBTCScanner_ok [OF NewBTCScanner_new]]) (rule tips_chain, simp)

definition stepped_scanner :: BtcPoller where
  "stepped_scanner = snd (HandleNewBlock (chain_client 3 15) (chain_epoch 15) started_scanner)"

lemma stepped_scanner_run:
  "HandleNewBlock (chain_client 3 15) (chain_epoch 15) started_scanner = (Inr (), stepped_scanner)"
proof -
  have "fst (HandleNewBlock (chain_client 3 15) (chain_epoch 15) started_scanner) = Inr ()" by code_simp
  then show ?thesis by (simp add: stepped_scanner_def prod_eq_iff)
qed

theorem HandleNewBlock_delivers_witness:
  "late (chain_epoch 15) started_scanner \<and> chainUpdateInfoChan stepped_scanner = chainUpdateInfoChan started_scanner \<or>
    (\<exists>n ib u. GetBlockByHeight (chain_client 3 15) n (u64_of_i32 (epoch_Height (chain_epoch 15))) = Inr ib \<and>
       chainUpdateInfoChan stepped_scanner = chainUpdateInfoChan started_scanner @ [u] \<and>
       ConfirmedBlocks u @ UnconfirmedBlocks u = blocks (unconfirmedBlockCache started_scanner) @ [ib] \<and>
       length (UnconfirmedBlocks u) = min (unat (confirmationDepth (chain_client 3 15)) - 1)
         (Suc (length (blocks (unconfirmedBlockCache started_scanner)))))"
  by (rule HandleNewBlock_delivers [OF client_ok_chain epoch_ok_chain scanner_ok_started stepped_scanner_run])

theorem confirmed_blocks_linked_witness:
  "linked (chain_client 3 14) (concat (map ConfirmedBlocks (chainUpdateInfoChan
     (snd (sample_run (chain_client 3 14) 10 [chain_epoch 15, chain_epoch 18])))))"
  by (rule confirmed_blocks_linked [OF client_ok_chain _ NewBTCScanner_new,
      where epochs = "[chain_epoch 15, chain_epoch 18]" and fuel = 9 and startHeight = 10 and activationHeight = 5
        and reg = None and r = "fst (sample_run (chain_client 3 14) 10 [chain_epoch 15, chain_epoch 18])"])
    (simp_all add: epoch_ok_chain NewBTCScanner_new sample_run_def)

theorem waitUntilActivation_ends_witness:
  "waitUntilActivation flaky_client 9 12 new_scanner = (Inr (), new_scanner\<lparr>calls := calls new_scanner + Suc 4\<rparr>)"
proof (rule waitUntilActivation_ends)
  have "calls new_scanner = 0" by code_simp
  then show "\<forall>j<4. \<exists>t. GetTipHeight flaky_client (calls new_scanner + j) = Inr t \<and> t < 12"
    and "GetTipHeight flaky_client (calls new_scanner + 4) = Inr 13"
    by (simp_all add: flaky_client_def)
qed simp_all

theorem deep_scanner_never_confirms_witness:
  "confirmed_stream (snd (sample_run (chain_client 101 14) 10 [chain_epoch 15])) = []"
  by (rule deep_scanner_never_confirms [OF _ NewBTCScanner_new, where epochs = "[chain_epoch 15]"
      and fuel = 9 and startHeight = 10 and activationHeight = 5 and reg = None
      and r = "fst (sample_run (chain_client 101 14) 10 [chain_epoch 15])"])
    (simp_all add: chain_client_def sample_run_def)

theorem cache_holds_last_witness:
  "\<exists>c'. for_each (map chain_block [1, 2, 3]) Add \<lparr>blocks = [], maxEntries = 2\<rparr> = (Inr (), c') \<and>
    GetAllBlocks c' = drop (length (map chain_block [1, 2, 3]) - unat (2 :: u64)) (map chain_block [1, 2, 3]) \<and>
    length (GetAllBlocks c') = min (length (map chain_block [1, 2, 3])) (unat (2 :: u64))"
  by (rule cache_holds_last) (simp add: NewBTCCache_def)

section \<open>A lost block\<close>

text \<open>A node whose fifth call fails. With depth 3, start height 10 and tip 13, the bootstrap
  confirms block 10 and fails at block 13; the notification of block 13 is then handled on the
  cache that the failed bootstrap left behind.\<close>

definition broken_client :: Client where
  "broken_client = (chain_client 3 13)\<lparr>
     GetBlockByHeight := (\<lambda>n h. if n = 4 then Inl (LibErr ''connection refused'') else Inr (chain_block h))\<rparr>"

definition failed_scanner :: BtcPoller where
  "failed_scanner = snd (Bootstrap broken_client 10 new_scanner)"

definition resumed_scanner :: BtcPoller where
  "resumed_scanner = snd (HandleNewBlock broken_client (chain_epoch 13) failed_scanner)"

lemma client_ok_broken: "client_ok broken_client"
  using client_ok_chain [of 13] by (simp add: client_ok_def broken_client_def)

lemma epoch_ok_broken: "epoch_ok broken_client (chain_epoch h)"
  by (auto simp: epoch_ok_def broken_client_def chain_client_def chain_epoch_def chain_block_def NewIndexedBlock_def
      hex_EncodeToString_inj ucast_u8_u32 simp del: hex_EncodeToString.simps split: if_splits)

lemma failed_scanner_run:
  "Bootstrap broken_client 10 new_scanner =
    (Inl (Error (Wrap ''cannot get the block'' (LibErr ''connection refused''))), failed_scanner)"
proof -
  have "fst (Bootstrap broken_client 10 new_scanner) =
      Inl (Error (Wrap ''cannot get the block'' (LibErr ''connection refused'')))" by code_simp
  then show ?thesis by (simp add: failed_scanner_def prod_eq_iff)
qed

lemma resumed_scanner_run: "HandleNewBlock broken_client (chain_epoch 13) failed_scanner = (Inr (), resumed_scanner)"
proof -
  have "fst (HandleNewBlock broken_client (chain_epoch 13) failed_scanner) = Inr ()" by code_simp
  then show ?thesis by (simp add: resumed_scanner_def prod_eq_iff)
qed

theorem failed_bootstrap_loses_blocks_witness:
  "(\<exists>sent lost left ib n. fetched broken_client 10 (sent @ lost @ left) \<and>
    length lost = (length (sent @ lost @ left) - kept_blocks broken_client) mod 100 \<and>
    length left = min (kept_blocks broken_client) (length (sent @ lost @ left)) \<and>
    GetBlockByHeight broken_client n (u64_of_i32 (epoch_Height (chain_epoch 13))) = Inr ib \<and>
    confirmed_stream resumed_scanner @ blocks (unconfirmedBlockCache resumed_scanner) =
      confirmed_stream new_scanner @ sent @ left @ [ib]) \<and>
   map Height (confirmed_stream resumed_scanner) = [11] \<and>
   map Height (blocks (unconfirmedBlockCache resumed_scanner)) = [12, 13]"
proof (intro conjI)
  show "map Height (confirmed_stream resumed_scanner) = [11]" by code_simp
  show "map Height (blocks (unconfirmedBlockCache resumed_scanner)) = [12, 13]" by code_simp
  have new: "\<not> late (chain_epoch 13) failed_scanner" by code_simp
  show "\<exists>sent lost left ib n. fetched broken_client 10 (sent @ lost @ left) \<and>
    length lost = (length (sent @ lost @ left) - kept_blocks broken_client) mod 100 \<and>
    length left = min (kept_blocks broken_client) (length (sent @ lost @ left)) \<and>
    GetBlockByHeight broken_client n (u64_of_i32 (epoch_Height (chain_epoch 13))) = Inr ib \<and>
    confirmed_stream resumed_scanner @ blocks (unconfirmedBlockCache resumed_scanner) =
      confirmed_stream new_scanner @ sent @ left @ [ib]"
    by (rule failed_bootstrap_loses_blocks [OF client_ok_broken NewBTCScanner_ok [OF NewBTCScanner_new]
        epoch_ok_broken failed_scanner_run resumed_scanner_run new])
qed

text \<open>The same through the scanner's own loop: a first bootstrap up to block 11, a notification of
  block 12 whose call fails, the bootstrap that follows and fails at block 13, and the
  notification of block 13. The first confirmed block sent is 11.\<close>

lemma failed_bootstrap_example:
  "map (\<lambda>u. (map Height (ConfirmedBlocks u), map Height (UnconfirmedBlocks u)))
     (chainUpdateInfoChan (snd (sample_run flaky_client 10 [chain_epoch 12, chain_epoch 13]))) =
   [([], [10, 11]), ([11], [12, 13])]"
  by code_simp

end
