(* ===== verification/Sample_System.thy ===== *)
theory Sample_System
  imports System Resume Sample_Scanner
begin

text \<open>
  A run of the whole system: the node fails the first of every series of calls for the tip, the
  client tries again, the scanner starts on the sample chain, and the indexer takes the first
  update, which confirms three empty blocks.
\<close>

section \<open>A node and a configuration\<close>

definition chain_node :: "nat \<Rightarrow> rpc_Client" where
  "chain_node k =
     \<lparr>GetBlockCount = (\<lambda>i. if i = 0 then Inl ''connection refused'' else Inr 107),
      GetBlockHash = (\<lambda>i h. if 0 \<le> sint h \<and> sint h \<le> 200 then Inr [ucast h] else Inl ''no such block''),
      GetBlock = (\<lambda>i h. case h of [] \<Rightarrow> Inl ''no such block''
        | x # _ \<Rightarrow> Inr \<lparr>Header_of = Header (chain_block (ucast x)), Transactions = []\<rparr>),
      GetBlockHeader = (\<lambda>i h. case h of [] \<Rightarrow> Inl ''no such block''
        | x # _ \<Rightarrow> Inr (Header (chain_block (ucast x))))\<rparr>"

definition sample_retry :: retry_go where
  "sample_retry =
     \<lparr>do_count = (\<lambda>attempts delay. try_upto (unat attempts - 1)),
      do_hash = (\<lambda>attempts delay. try_upto (unat attempts - 1)),
      do_block = (\<lambda>attempts delay. try_upto (unat attempts - 1)),
      do_header = (\<lambda>attempts delay. try_upto (unat attempts - 1))\<rparr>"

lemma retry_ok_sample: "retry_ok sample_retry"
  by (simp add: retry_ok_def retry_law_def sample_retry_def)

definition sample_packages :: packages where
  "sample_packages =
     \<lparr>MainNetParams = ''mainnet'', TestNet3Params = ''testnet3'', RegressionNetParams = ''regtest'',
      SimNetParams = ''simnet'', SigNetParams = ''signet'', DefaultBoltAutoCompactMinAge = 0,
      DefaultDBTimeout = 0, ClassicQueueType = ''classic'', QuorumQueueType = ''quorum'',
      client_Validate = (\<lambda>_. None), ParseFile = (\<lambda>_. Inl ''no such file''), NotExist = (\<lambda>_. True),
      AppDataDir = ''/root/.sid''\<rparr>"

definition sample_config :: Config where
  "sample_config = (projr (DefaultConfig sample_packages))\<lparr>BitcoinNetwork := ''regtest'', cfg_ExtraEventEnabled := True,
     cfg_BTCNetParams := ''regtest''\<rparr>"

lemma sample_config_valid: "Config_Validate sample_packages sample_config = (Inr (), sample_config)"
  by code_simp

definition rpc_chain :: Client where
  "rpc_chain = scanner_client sample_retry chain_node (cfg_BTCConfig sample_config) (chain_client 6 107)"

section \<open>The client\<close>

abbreviation sample_client :: BTCClient where
  "sample_client \<equiv> \<lparr>client = chain_node 0, btc_cfg = DefaultBTCConfig\<rparr>"

lemma DefaultBTCConfig_valid: "BTCConfig_Validate DefaultBTCConfig = Inr ()"
  by (simp add: BTCConfig_Validate_iff default_btc_ok)

theorem GetTipHeight_retries_witness:
  "btc_GetTipHeight sample_retry sample_client 0 = (Inr 107, 2)"
proof -
  have "first_answer (GetBlockCount (chain_node 0)) 5 0 107 2"
    by (auto simp: first_answer_def chain_node_def)
  then show ?thesis
    using GetTipHeight_retries [OF retry_ok_sample, of sample_client 0 107 2] DefaultBTCConfig_valid
    by (simp add: DefaultBTCConfig_def)
qed

theorem GetBlockByHeight_fetches_witness:
  "btc_GetBlockByHeight sample_retry sample_client 7 0 = (Inr (chain_block 7), 2)"
proof -
  let ?b = "\<lparr>Header_of = Header (chain_block 7), Transactions = []\<rparr>"
  have "first_answer (\<lambda>i. GetBlockHash (chain_node 0) i 7) 5 0 [7] 1"
    and "first_answer (\<lambda>i. GetBlock (chain_node 0) i [7]) 5 1 ?b 2"
    and "Height (chain_block 7) = ucast (7 :: u64)" and "MsgBlock_of (chain_block 7) = ?b"
    and "Txs (chain_block 7) = GetWrappedTxs ?b"
    by (auto simp: first_answer_def chain_node_def chain_block_def NewIndexedBlock_def MsgBlock_of_def GetWrappedTxs_def)
  then show ?thesis
    using GetBlockByHeight_fetches [OF retry_ok_sample, of sample_client 7 0 "chain_block 7" 2] DefaultBTCConfig_valid
    by (simp add: DefaultBTCConfig_def) blast
qed

section \<open>The run\<close>

definition app_new :: "mem_db app" where
  "app_new = projr (NewStakingIndexer sample_si empty_db new_scanner)"

definition app_started :: "mem_db app" where
  "app_started = snd (si_Start rpc_chain sample_si 9 100 app_new)"

definition app_received :: "mem_db app" where
  "app_received =
     snd (on_index (handle_update sample_si (chainUpdateInfoChan (scanner app_started) ! received app_started)) app_started)
       \<lparr>received := Suc (received app_started)\<rparr>"

lemma app_new_run: "NewStakingIndexer sample_si empty_db new_scanner = Inr app_new"
proof -
  have "snd (NewIndexerStore sample_backend empty_db) = None"
    by (simp add: NewIndexerStore_def initBuckets_def sample_backend_def)
  then show ?thesis
    by (auto simp: app_new_def NewStakingIndexer_def split: prod.splits option.splits)
qed

lemma app_run: "(app_step rpc_chain sample_si)\<^sup>*\<^sup>* app_new app_received"
proof -
  let ?u = "chainUpdateInfoChan (scanner app_started) ! received app_started"
  have "app_step rpc_chain sample_si app_new app_started"
    by (rule app_step.start [of _ _ 9 100 _ "fst (si_Start rpc_chain sample_si 9 100 app_new)"])
      (simp add: app_started_def)
  moreover have "startOnce app_started" by code_simp
  moreover have "\<not> si_quit app_started" by code_simp
  moreover have "received app_started < length (chainUpdateInfoChan (scanner app_started))" by code_simp
  moreover have "fst (on_index (handle_update sample_si ?u) app_started) = Inr ()" by code_simp
  then have "on_index (handle_update sample_si ?u) app_started =
      (Inr (), snd (on_index (handle_update sample_si ?u) app_started))"
    by (simp add: prod_eq_iff)
  ultimately have "app_step rpc_chain sample_si app_started app_received"
    unfolding app_received_def by (intro app_step.received)
  with \<open>app_step rpc_chain sample_si app_new app_started\<close> show ?thesis
    by (meson converse_rtranclp_into_rtranclp rtranclp.rtrancl_refl)
qed

lemma app_received_handled: "map Height (handled app_received) = [100, 101, 102]"
  by code_simp

lemma node_ok_chain: "node_ok C chain_node"
  by (auto simp: node_ok_def chain_node_def split: list.splits)

section \<open>The heights\<close>

text \<open>The hash of a sample block is its height; the block before the first has the hash 255.\<close>

definition sample_height :: "hash \<Rightarrow> i32" where
  "sample_height h = (case h of x # _ \<Rightarrow> if x = 255 then - 1 else ucast x | [] \<Rightarrow> 0)"

lemma sample_height_block:
  fixes h :: u64
  assumes "h \<le> 200"
  shows "sample_height [ucast h] = ucast h" and "sample_height [ucast h - 1] + 1 = ucast h"
proof -
  define n where "n = unat h"
  have n: "n \<le> 200" using assms by (simp add: word_le_nat_alt n_def)
  have h: "h = word_of_nat n" by (simp add: n_def)
  have cast: "(ucast h :: u8) = word_of_nat n" "(ucast h :: i32) = word_of_nat n"
    by (simp_all add: n_def)
  have up: "(ucast (word_of_nat m :: u8) :: i32) = word_of_nat m" if "m \<le> 200" for m
    using that by (simp add: unsigned_of_nat take_bit_nat_eq_self)
  have "(word_of_nat m :: u8) \<noteq> 255" if "m \<le> 200" for m
  proof
    assume "(word_of_nat m :: u8) = 255"
    then have "unat (word_of_nat m :: u8) = unat (255 :: u8)" by simp
    with that show False by (simp add: unat_of_nat take_bit_nat_eq_self)
  qed
  note small = this up
  show "sample_height [ucast h] = ucast h" using n small by (simp add: sample_height_def cast)
  show "sample_height [ucast h - 1] + 1 = ucast h"
  proof (cases n)
    case 0
    then show ?thesis by (simp add: sample_height_def cast)
  next
    case (Suc m)
    then show ?thesis using n small [of m] by (simp add: sample_height_def cast)
  qed
qed

lemma chain_heights_rpc: "chain_heights rpc_chain sample_height"
proof -
  have "sample_height (BlockHash rpc_chain (Header ib)) = Height ib \<and>
      sample_height (PrevBlock (Header ib)) + 1 = Height ib"
    if fetched: "GetBlockByHeight rpc_chain k h = Inr ib" for k h ib
  proof -
    let ?cfg = "cfg_BTCConfig sample_config"
    have "BTCConfig_Validate ?cfg = Inr ()" by code_simp
    moreover obtain n' where "btc_GetBlockByHeight sample_retry \<lparr>client = chain_node k, btc_cfg = ?cfg\<rparr> h 0 = (Inr ib, n')"
      using fetched by (simp add: rpc_chain_def scanner_client_def) (metis prod.collapse)
    ultimately obtain g n1 b where
      hash: "first_answer (\<lambda>i. GetBlockHash (chain_node k) i h) (unat (MaxRetryTimes ?cfg)) 0 g n1"
      and block: "first_answer (\<lambda>i. GetBlock (chain_node k) i g) (unat (MaxRetryTimes ?cfg)) n1 b n'"
      and ib: "ib = NewIndexedBlockFromMsgBlock (ucast h) b"
      by (auto simp: GetBlockByHeight_Inr [OF retry_ok_sample])
    from hash have g: "g = [ucast h]" "0 \<le> sint h" "sint h \<le> 200"
      by (auto simp: first_answer_def chain_node_def split: if_splits)
    from block have b: "Header_of b = Header (chain_block (ucast (ucast h :: u8)))"
      by (auto simp: first_answer_def chain_node_def g(1))
    have "uint h = take_bit 64 (sint h)" by (simp add: uint_sint)
    with g(2,3) have small: "h \<le> 200" by (simp add: word_le_def take_bit_int_eq_self)
    have low: "(ucast (ucast (ucast h :: u8) :: u64) :: u8) = ucast h" by (rule bit_word_eqI) (auto simp: bit_simps)
    have "BlockHash rpc_chain (Header ib) = [ucast h]" and "PrevBlock (Header ib) = [ucast h - 1]"
      and "Height ib = ucast h"
      by (simp_all add: ib b NewIndexedBlockFromMsgBlock_def chain_block_def NewIndexedBlock_def rpc_chain_def
          scanner_client_def chain_client_def ucast_u8_u32 low)
    with sample_height_block [OF small] show ?thesis by simp
  qed
  then show ?thesis by (simp add: chain_heights_def answers_def)
qed

lemma sample_db: "contents_ok sample_backend empty_db \<and> ledger_wf (ledger_of sample_backend empty_db)"
proof -
  have "fresh_db sample_backend empty_db" by (simp add: fresh_db_def sample_backend_def empty_db_def)
  from sample.fresh_db_ledger [OF this] show ?thesis by simp
qed

theorem no_height_left_out_witness:
  "consecutive (handled app_received) \<and> GetStartHeight sample_si (db (index app_received)) = Inr 103"
proof -
  have cfg: "BTCConfig_Validate (cfg_BTCConfig sample_config) = Inr ()" by code_simp
  have "client_ok rpc_chain" by (simp add: client_ok_def rpc_chain_def scanner_client_def chain_client_def)
  moreover have "answers rpc_chain (block_ok sample_chain)"
    unfolding rpc_chain_def by (rule scanner_client_answers [OF retry_ok_sample cfg node_ok_chain])
  moreover have "handled app_received \<noteq> []" using app_received_handled by auto
  moreover from this have "Height (last (handled app_received)) = 102"
    using arg_cong [OF app_received_handled, of last] by (simp add: last_map)
  ultimately show ?thesis
    using no_height_left_out [OF sample_store reads_ok_sample _ _ chain_heights_rpc NewBTCScanner_new app_new_run _ _ app_run]
      sample_db by (simp add: u64_of_i32_def)
qed

end
