(* ===== verification/Sample_Server.thy ===== *)
theory Sample_Server
  imports Server Sample_System
begin

text \<open>
  A server on the sample chain, started once at a height that is accepted and once at one that
  is too low.
\<close>

definition sample_server :: "mem_db server_env" where
  "sample_server =
     \<lparr>env_si = sample_si, env_client = rpc_chain, env_fuel = 9, env_metrics = DefaultMetricsConfig,
      notifier_Start = None, notifier_Stop = None, consumer_Start = None, consumer_Stop = Some ''channel closed'',
      svr_Shutdown = None, svr_Close = None, db_Close = None, serve = (\<lambda>a. a)\<rparr>"

definition server_run :: "unit outcome \<times> mem_db Server" where
  "server_run = RunUntilShutdown sample_server 100 (NewStakingIndexerServer app_new)"

lemma server_run_ended: "ended (fst server_run)"
proof -
  have "fst server_run = Inr ()" by code_simp
  then show ?thesis by simp
qed

theorem RunUntilShutdown_stops_witness:
  "\<exists>k\<le>4. srv_log (snd server_run) =
      map Up (take k parts) @ (if k = 4 then [Signal] else []) @ map Down (rev (take k parts)) @ [Db_closed] \<and>
    (fst server_run = Inr () \<longleftrightarrow> k = 4) \<and>
    RunUntilShutdown sample_server 7 (snd server_run) = (Inr (), (snd server_run)\<lparr>srv_started := 2\<rparr>)"
  by (rule RunUntilShutdown_stops [where startHeight = 100 and a = app_new])
    (simp_all add: server_run_ended, simp add: server_run_def)

theorem failed_start_keeps_loop_witness:
  "srv_log (snd (RunUntilShutdown sample_server 5 (NewStakingIndexerServer app_new))) =
      [Up Prometheus, Up Notifier, Up Consumer, Down Consumer, Down Notifier, Down Prometheus, Db_closed] \<and>
    startOnce (srv_app (snd (RunUntilShutdown sample_server 5 (NewStakingIndexerServer app_new)))) \<and>
    \<not> si_quit (srv_app (snd (RunUntilShutdown sample_server 5 (NewStakingIndexerServer app_new))))"
proof -
  let ?r = "RunUntilShutdown sample_server 5 (NewStakingIndexerServer app_new)"
  have addr: "Address DefaultMetricsConfig = Inr ''127.0.0.1:2112''" by code_simp
  have quit: "\<not> si_quit app_new" by code_simp
  have start: "fst (si_Start rpc_chain sample_si 9 5 app_new) = Inl (Error (Wrap ''invalid start height''
      (Errorf ''the start height should not be lower than the earliest activation height'')))" by code_simp
  show ?thesis
    using failed_start_keeps_loop [of sample_server 5 app_new "fst ?r" "snd ?r", OF _ quit] addr start
    by (simp add: sample_server_def)
qed

end
