(* ===== verification/Sample_Commands.thy ===== *)
theory Sample_Commands
  imports Commands Sample_Server
begin

text \<open>
  The commands on sample libraries: a file system that remembers the configuration files, the
  sample node, the in-memory database and the sample parameters.
\<close>

type_synonym sample_fs = "(string \<times> Config) list"

definition sample_os :: "sample_fs os" where
  "sample_os =
     \<lparr>Getwd = Inr ''/srv'', CurrentUser = Inr ''/home/sid'', Getenv = (\<lambda>_. []), MkdirAll = (\<lambda>d fs. (fs, None)),
      Readlink = (\<lambda>f fs. Inl ''not a link''), OpenFile = (\<lambda>f fs. (fs, None)), WriteFile = (\<lambda>f b fs. (fs, None))\<rparr>"

definition sample_libs :: "(sample_fs, mem_db) libs" where
  "sample_libs =
     \<lparr>lib_os = sample_os,
      lib_pk = sample_packages\<lparr>NotExist := (\<lambda>f. f \<noteq> ''/srv/sid/sid.conf''), ParseFile := (\<lambda>f. Inr sample_config)\<rparr>,
      rpcclient_New = (\<lambda>_. Inr (chain_node 0)), connection = (\<lambda>_. chain_node), lib_retry = sample_retry,
      NewBitcoindConn = (\<lambda>_. Inr ()), bitcoindConn_Start = None, GetBoltBackend = (\<lambda>_. Inr empty_db),
      NewParsedGlobalParamsFromFile = (\<lambda>_. Inr [sample_params]),
      ParamsByHeight = (\<lambda>vs h. if h < 100 then None else Some sample_params),
      NewQueueManager = (\<lambda>_. None), Intercept = None, lib_si = sample_si, lib_client = chain_client 6 107,
      lib_server = sample_server, IniWriteFile = (\<lambda>cfg f fs. ((f, cfg) # fs, None)),
      header_bytes = (\<lambda>h. [ucast (Nonce h)]), MarshalIndent = (\<lambda>hs. Inr (concat (map info_Header hs)))\<rparr>"

definition sample_context :: Context where
  "sample_context =
     \<lparr>ctx_Args = [''5'', ''7''], homeFlag = ''sid'', forceFlag = False, startHeightFlag = None,
      paramsPathFlag = ''params.json'', outputFileFlag = ''headers.json'', withHeightFlag = True\<rparr>"

section \<open>start\<close>

definition sample_startup :: "mem_db startup" where
  "sample_startup =
     \<lparr>su_env = sample_server\<lparr>env_si := sample_si, env_client := rpc_chain, env_metrics := cfg_MetricsConfig sample_config\<rparr>,
      su_app = app_new, su_height = 100\<rparr>"

lemma sample_home: "home_path sample_os sample_context = Inr ''/srv/sid''"
  by code_simp

lemma sample_loaded: "LoadConfig (lib_pk sample_libs) ''/srv/sid'' = Inr sample_config"
  by code_simp

lemma sample_logger:
  "NewRootLoggerWithFile sample_os (LogFile ''/srv/sid'') (LogLevel sample_config) fs =
    (Inr \<lparr>log_encoder = ConsoleEncoder, log_level = InfoLevel\<rparr>, fs)"
proof -
  have "NewRootLogger ''console'' (LogLevel sample_config) = Inr \<lparr>log_encoder = ConsoleEncoder, log_level = InfoLevel\<rparr>"
    by code_simp
  then show ?thesis by (simp add: NewRootLoggerWithFile_def MakeDirectory_def sample_os_def bind_def ret_def)
qed

lemma sample_indexer: "indexer_of sample_libs [sample_params] sample_config = sample_si"
proof -
  have "cfg_ExtraEventEnabled sample_config" "cfg_BTCNetParams sample_config = ''regtest''" by code_simp+
  then show ?thesis by (simp add: indexer_of_def sample_libs_def sample_si_def)
qed

lemma sample_client: "scanner_client sample_retry chain_node (cfg_BTCConfig sample_config)
    ((chain_client 6 107)\<lparr>confirmationDepth := ConfirmationDepth sample_params\<rparr>) = rpc_chain"
  by (simp add: rpc_chain_def sample_params_def chain_client_def)

lemma sample_start_height: "GetStartHeight sample_si (db (index app_new)) = Inr 100"
  by code_simp

lemma sample_libs_sel:
  "lib_os sample_libs = sample_os" "rpcclient_New sample_libs c = Inr (chain_node 0)"
  "connection sample_libs r = chain_node" "lib_retry sample_libs = sample_retry"
  "NewBitcoindConn sample_libs b = Inr ()" "bitcoindConn_Start sample_libs = None"
  "GetBoltBackend sample_libs f = Inr empty_db" "NewParsedGlobalParamsFromFile sample_libs p = Inr [sample_params]"
  "NewQueueManager sample_libs q = None" "Intercept sample_libs = None" "lib_si sample_libs = sample_si"
  "lib_client sample_libs = chain_client 6 107" "lib_server sample_libs = sample_server"
  by (simp_all add: sample_libs_def)

lemma sample_prepared: "prepare sample_libs sample_context [] = (Inr sample_startup, [])"
proof -
  have "\<exists>q. ToQueueClientConfig (lib_pk sample_libs) (cfg_QueueConfig sample_config) = Inr q"
    by (simp add: ToQueueClientConfig_def sample_libs_def sample_packages_def)
  moreover have "startHeightFlag sample_context = None" by (simp add: sample_context_def)
  ultimately show ?thesis
    using sample_home sample_loaded sample_logger [of "[]"] sample_indexer sample_client sample_start_height
      NewBTCScanner_new app_new_run
    by (auto simp: prepare_def Let_def bind_Inr_iff step_Inr sample_libs_sel
        NewBTCClient_def NewBTCNotifier_def GetDbBackend_def lib_result_def NewGlobalParamsRetriever_def
        VersionedParams_def slice_index_def sample_startup_def)
qed

theorem start_indexes_one_chain_witness:
  "linked rpc_chain (handled app_received) \<and>
    chain_ledger sample_si (handled app_received) (ledger_at sample_si (index app_new)) =
      Some (ledger_at sample_si (index app_received))"
proof -
  have su: "env_si (su_env sample_startup) = sample_si" "env_client (su_env sample_startup) = rpc_chain"
    "su_app sample_startup = app_new" by (simp_all add: sample_startup_def)
  have "confirmationDepth rpc_chain = 6" "receives (chain_client 6 107) us u" for us u
    by (simp_all add: rpc_chain_def scanner_client_def chain_client_def)
  then show ?thesis
    using start_indexes_one_chain [OF sample_prepared, of app_received, unfolded su sample_libs_sel, OF app_run]
      sample_store reads_ok_sample retry_ok_sample node_ok_chain sample_db
    by simp
qed

section \<open>init\<close>

definition sample_gone :: "sample_fs \<Rightarrow> string \<Rightarrow> bool" where
  "sample_gone fs f \<longleftrightarrow> map_of fs f = None"

definition sample_parse :: "sample_fs \<Rightarrow> string \<Rightarrow> lib_error + Config" where
  "sample_parse fs f = (case map_of fs f of None \<Rightarrow> Inl ''no such file'' | Some cfg \<Rightarrow> Inr (cfg\<lparr>cfg_BTCNetParams := []\<rparr>))"

theorem init_then_load_witness:
  "LoadConfig ((lib_pk sample_libs)\<lparr>NotExist := sample_gone (snd (initHome sample_libs sample_context [])),
      ParseFile := sample_parse (snd (initHome sample_libs sample_context []))\<rparr>) ''/srv/sid'' =
    DefaultConfigWithHome (lib_pk sample_libs) ''/srv/sid''"
proof (rule init_then_load)
  have "fst (initHome sample_libs sample_context []) = Inr ()" by code_simp
  then show "initHome sample_libs sample_context [] = (Inr (), snd (initHome sample_libs sample_context []))"
    by (simp add: prod_eq_iff)
  show "home_path (lib_os sample_libs) sample_context = Inr ''/srv/sid''" by (simp add: sample_libs_sel sample_home)
  show "reads_back sample_libs sample_gone sample_parse cfg" for cfg
    by (auto simp: reads_back_def sample_libs_def sample_gone_def sample_parse_def)
qed

section \<open>btc-headers\<close>

theorem BtcHeaderInfoList_returned_witness:
  "\<exists>infos. fst (BtcHeaderInfoList (GetBlockHeaderByHeight sample_retry sample_client) (\<lambda>h. [ucast (Nonce h)]) 5 7 True 0) =
    Inr infos \<and> length infos = 3"
proof -
  let ?r = "BtcHeaderInfoList (GetBlockHeaderByHeight sample_retry sample_client) (\<lambda>h. [ucast (Nonce h)]) 5 7 True 0"
  have "\<not> isl (fst ?r)" by code_simp
  moreover have "(7 :: u64) - 5 + 1 \<le> max_cap" "(7 :: u64) \<noteq> - 1" by code_simp+
  ultimately show ?thesis
    using BtcHeaderInfoList_returned [of 5 7 "GetBlockHeaderByHeight sample_retry sample_client"
        "\<lambda>h. [ucast (Nonce h)]" True 0 "fst ?r" "snd ?r"]
    by auto
qed

end
