(* ===== verification/Program.thy ===== *)
theory Program
  imports Commands
begin

text \<open>
  The program \<open>sid\<close>: its commands as they are given to \<open>urfave/cli\<close>, and \<open>main\<close>. The package
  itself, which parses the arguments, is a parameter. Usage texts are left out.
\<close>

section \<open>The commands\<close>

datatype Flag =
    StringFlag string string
  | Uint64Flag string
  | BoolFlag string

record ('fs, 'db) Command =
  cmd_Name :: string
  cmd_Flags :: "Flag list"
  cmd_Action :: "('fs, 'db) libs \<Rightarrow> Context \<Rightarrow> 'fs \<Rightarrow> unit outcome \<times> 'db Server option \<times> 'fs"

definition StartCommand :: "packages \<Rightarrow> ('fs, 'db) Command" where
  "StartCommand pk =
     \<lparr>cmd_Name = ''start'',
      cmd_Flags = [StringFlag ''home'' (AppDataDir pk), Uint64Flag ''start-height'',
        StringFlag ''params-path'' (ParamsFile (AppDataDir pk))],
      cmd_Action = start\<rparr>"

text \<open>Two of the commands bring up no server.\<close>

definition no_server :: "('fs, unit) prog \<Rightarrow> 'fs \<Rightarrow> unit outcome \<times> 'db Server option \<times> 'fs" where
  "no_server m fs = (case m fs of (r, fs') \<Rightarrow> (r, None, fs'))"

definition InitCommand :: "packages \<Rightarrow> ('fs, 'db) Command" where
  "InitCommand pk =
     \<lparr>cmd_Name = ''init'', cmd_Flags = [StringFlag ''home'' (AppDataDir pk), BoolFlag ''force''],
      cmd_Action = (\<lambda>L c. no_server (initHome L c))\<rparr>"

definition BtcHeaderCommand :: "packages \<Rightarrow> ('fs, 'db) Command" where
  "BtcHeaderCommand pk =
     \<lparr>cmd_Name = ''btc-headers'',
      cmd_Flags = [StringFlag ''home'' (AppDataDir pk),
        StringFlag ''output'' (Join [AppDataDir pk, ''btc-headers.json'']), BoolFlag ''with-height''],
      cmd_Action = (\<lambda>L ctx. no_server (btcHeaders L ctx))\<rparr>"

section \<open>main\<close>

text \<open>How the process ends: \<open>os.Exit(1)\<close> after an error, 2 after a panic, 1 after \<open>log.Fatal\<close>.\<close>

definition exit_status :: "unit outcome \<Rightarrow> nat option" where
  "exit_status r =
     (case r of Inr _ \<Rightarrow> Some 0 | Inl (Error _) \<Rightarrow> Some 1 | Inl (Fatal _) \<Rightarrow> Some 1 | Inl (Panic _) \<Rightarrow> Some 2
      | Inl OutOfFuel \<Rightarrow> None)"

definition main ::
    "(('fs, 'db) Command list \<Rightarrow> ('fs, 'db) libs \<Rightarrow> string list \<Rightarrow> 'fs \<Rightarrow> unit outcome \<times> 'db Server option \<times> 'fs) \<Rightarrow>
      ('fs, 'db) libs \<Rightarrow> string list \<Rightarrow> 'fs \<Rightarrow> nat option \<times> 'db Server option \<times> 'fs" where
  "main run L args fs =
     (case run [StartCommand (lib_pk L), InitCommand (lib_pk L), BtcHeaderCommand (lib_pk L)] L args fs of
        (r, sv, fs') \<Rightarrow> (exit_status r, sv, fs'))"

text \<open>
  What the package documents: the command is found by its name, its flags are read from the
  other arguments, and its error is the result.
\<close>

definition dispatches ::
    "(Flag list \<Rightarrow> string list \<Rightarrow> lib_error + Context) \<Rightarrow>
     (('fs, 'db) Command list \<Rightarrow> ('fs, 'db) libs \<Rightarrow> string list \<Rightarrow> 'fs \<Rightarrow> unit outcome \<times> 'db Server option \<times> 'fs) \<Rightarrow> bool" where
  "dispatches parse run \<longleftrightarrow>
     (\<forall>cmds L p name args fs c.
        find (\<lambda>c. cmd_Name c = name) cmds = Some c \<longrightarrow>
        run cmds L (p # name # args) fs =
          (case parse (cmd_Flags c) args of
             Inl e \<Rightarrow> (Inl (Error (LibErr e)), None, fs)
           | Inr ctx \<Rightarrow> cmd_Action c L ctx fs))"

text \<open>A start that could not set up the application exits with an error and leaves no server; so
  does every command whose flags are refused.\<close>

lemma main_start_not_prepared:
  assumes "dispatches parse run" and "parse (cmd_Flags (StartCommand (lib_pk L) :: ('fs, 'db) Command)) args = Inr ctx"
    and "prepare L ctx fs = (Inl (Error e), fs')"
  shows "main run (L :: ('fs, 'db) libs) (p # ''start'' # args) fs = (Some 1, None, fs')"
  using assms by (simp add: main_def dispatches_def StartCommand_def start_def exit_status_def)

lemma main_bad_flags:
  assumes "dispatches parse run" and "c \<in> {StartCommand (lib_pk L), InitCommand (lib_pk L), BtcHeaderCommand (lib_pk L)}"
    and "parse (cmd_Flags c) args = Inl e"
  shows "main run L (p # cmd_Name c # args) fs = (Some 1, None, fs)"
  using assms
  by (auto simp: main_def dispatches_def StartCommand_def InitCommand_def BtcHeaderCommand_def exit_status_def)

text \<open>After \<open>init\<close> has exited with 0, the configuration of the home directory was written.\<close>

lemma main_init_exit:
  assumes "dispatches parse run" and "parse (cmd_Flags (InitCommand (lib_pk L) :: ('fs, 'db) Command)) args = Inr ctx"
  shows "main run (L :: ('fs, 'db) libs) (p # ''init'' # args) fs = (Some 0, sv, fs') \<longleftrightarrow>
    initHome L ctx fs = (Inr (), fs') \<and> sv = None"
  using assms
  by (auto simp: main_def dispatches_def StartCommand_def InitCommand_def no_server_def exit_status_def
      split: prod.splits sum.splits fault.splits)

end
