(* ===== verification/Test_Random.thy ===== *)
theory Test_Random
  imports Complex_Main Chain_Types
begin

text \<open>
  The sources of the test data of \<open>testutils/datagen\<close>: a \<open>math/rand\<close> generator, the key
  generator of \<open>btcec\<close> and the random data of Babylon's \<open>datagen\<close> package. A source is a
  record of functions on a state of type \<open>'r\<close>; what the generators rely on are the ranges of
  the numbers drawn, the laws of the locale \<open>random_source\<close>.
\<close>

section \<open>Sources\<close>

type_synonym PrivateKey = nat

record 'r random =
  next_Intn :: "int \<Rightarrow> 'r \<Rightarrow> int \<times> 'r"
  next_Int63n :: "i64 \<Rightarrow> 'r \<Rightarrow> i64 \<times> 'r"
  next_Int31n :: "i32 \<Rightarrow> 'r \<Rightarrow> i32 \<times> 'r"
  next_Int63 :: "'r \<Rightarrow> i64 \<times> 'r"
  next_Uint32 :: "'r \<Rightarrow> u32 \<times> 'r"
  next_Float64 :: "'r \<Rightarrow> real \<times> 'r"
  next_PrivateKey :: "'r \<Rightarrow> (lib_error + PrivateKey) \<times> 'r"
  next_ByteArray :: "u64 \<Rightarrow> 'r \<Rightarrow> bytes \<times> 'r"
  next_BtcdHeader :: "'r \<Rightarrow> BlockHeader \<times> 'r"

definition draw :: "('r \<Rightarrow> 'a \<times> 'r) \<Rightarrow> ('r, 'a) prog" where
  "draw f r = (case f r of (x, r') \<Rightarrow> (Inr x, r'))"

text \<open>\<open>r.Intn\<close>, \<open>r.Int63n\<close> and \<open>r.Int31n\<close> panic when the bound is not positive.\<close>

definition Intn :: "'r random \<Rightarrow> int \<Rightarrow> ('r, int) prog" where
  "Intn G n = (if n \<le> 0 then panic ''invalid argument to Intn'' else draw (next_Intn G n))"

definition Int63n :: "'r random \<Rightarrow> i64 \<Rightarrow> ('r, i64) prog" where
  "Int63n G n = (if sint n \<le> 0 then panic ''invalid argument to Int63n'' else draw (next_Int63n G n))"

definition Int31n :: "'r random \<Rightarrow> i32 \<Rightarrow> ('r, i32) prog" where
  "Int31n G n = (if sint n \<le> 0 then panic ''invalid argument to Int31n'' else draw (next_Int31n G n))"

text \<open>\<open>require.NoError(t, err)\<close> ends the test.\<close>

definition require_NoError :: "lib_error + 'a \<Rightarrow> ('r, 'a) prog" where
  "require_NoError x = (case x of Inl e \<Rightarrow> fatal ''Received unexpected error'' | Inr y \<Rightarrow> ret y)"

text \<open>\<open>require.NoError\<close> on a call of the program itself.\<close>

definition require_ok :: "'a outcome \<Rightarrow> ('s, 'a) prog" where
  "require_ok r = on_error (lift r) (\<lambda>_. fatal ''Received unexpected error'')"

definition NewPrivateKey :: "'r random \<Rightarrow> ('r, PrivateKey) prog" where
  "NewPrivateKey G = bind (draw (next_PrivateKey G)) require_NoError"

section \<open>The ranges\<close>

locale random_source =
  fixes G :: "'r random"
  assumes Intn_range: "0 < n \<Longrightarrow> next_Intn G n r = (x, r') \<Longrightarrow> 0 \<le> x \<and> x < n"
    and Int63n_range: "0 < sint m \<Longrightarrow> next_Int63n G m r = (y, r') \<Longrightarrow> 0 \<le> sint y \<and> sint y < sint m"
    and Int31n_range: "0 < sint k \<Longrightarrow> next_Int31n G k r = (z, r') \<Longrightarrow> 0 \<le> sint z \<and> sint z < sint k"
begin

lemma Intn_Inr: "Intn G n r = (Inr x, r') \<Longrightarrow> 0 \<le> x \<and> x < n"
  using Intn_range [of n r] by (auto simp: Intn_def draw_def panic_def split: if_splits prod.splits)

lemma Int63n_Inr: "Int63n G n r = (Inr x, r') \<Longrightarrow> 0 \<le> sint x \<and> sint x < sint n"
  using Int63n_range [of n r] by (auto simp: Int63n_def draw_def panic_def split: if_splits prod.splits)

lemma Int31n_Inr: "Int31n G n r = (Inr x, r') \<Longrightarrow> 0 \<le> sint x \<and> sint x < sint n"
  using Int31n_range [of n r] by (auto simp: Int31n_def draw_def panic_def split: if_splits prod.splits)

end

section \<open>Programs that return\<close>

lemma draw_eq [prog_simps]: "draw f r = (Inr (fst (f r)), snd (f r))"
  by (simp add: draw_def split: prod.split)

definition returns :: "('s, 'a) prog \<Rightarrow> bool" where
  "returns m \<longleftrightarrow> (\<forall>s. \<exists>x s'. m s = (Inr x, s'))"

lemma returnsD: "returns m \<Longrightarrow> \<exists>x s'. m s = (Inr x, s')"
  by (simp add: returns_def)

lemma returns_ret: "returns (ret x)"
  by (simp add: returns_def ret_def)

lemma returns_draw: "returns (draw f)"
  by (simp add: returns_def draw_eq)

lemma returns_lift: "x = Inr y \<Longrightarrow> returns (lift x)"
  by (simp add: returns_def lift_def)

lemma returns_require: "x = Inr y \<Longrightarrow> returns (require_NoError x)"
  by (simp add: returns_def require_NoError_def ret_def)

lemma returns_bind_run:
  assumes "returns m" and "\<And>s x s'. m s = (Inr x, s') \<Longrightarrow> returns (k x)"
  shows "returns (bind m k)"
  unfolding returns_def
proof
  fix s
  from returnsD [OF assms(1)] obtain x s1 where "m s = (Inr x, s1)" by blast
  with assms(2) [OF this] show "\<exists>y s'. bind m k s = (Inr y, s')" by (simp add: bind_def returns_def)
qed

lemma returns_bind: "returns m \<Longrightarrow> (\<And>x. returns (k x)) \<Longrightarrow> returns (bind m k)"
  by (rule returns_bind_run)

lemma returns_Intn: "0 < n \<Longrightarrow> returns (Intn G n)"
  by (simp add: Intn_def returns_draw)

lemma returns_Int63n: "0 < sint n \<Longrightarrow> returns (Int63n G n)"
  by (simp add: Int63n_def returns_draw)

lemmas returns_rules = returns_ret returns_draw returns_bind returns_Intn returns_Int63n

lemma require_NoError_Inr [simp]: "require_NoError x r = (Inr y, r') \<longleftrightarrow> x = Inr y \<and> r' = r"
  by (auto simp: require_NoError_def fatal_def ret_def split: sum.splits)

lemma require_ok_Inr: "require_ok r s = (Inr x, s') \<longleftrightarrow> r = Inr x \<and> s' = s"
  by (auto simp: require_ok_def on_error_def attempt_def bind_def lift_def fatal_def ret_def
      split: sum.splits fault.splits)

end
