(* ===== verification/Test_Node.thy ===== *)
theory Test_Node
  imports Test_Random Config
begin

text \<open>
  The bitcoind node and the queue of the end-to-end tests: \<open>itest/containers\<close>,
  \<open>itest/bitcoind_node_setup.go\<close> and \<open>itest/queue_setup.go\<close>.

  Docker and RabbitMQ are records of functions that change a world of type \<open>'w\<close>.
  \<open>require.Eventually\<close> repeats its condition at every tick until the timeout: the number of
  ticks that are reached, at most the timeout divided by the interval, is an argument. What
  \<open>t.Cleanup\<close> registers runs after the test and is left out, and so are the log lines.
\<close>

section \<open>Strings\<close>

text \<open>\<open>strings.Contains\<close>, \<open>strings.TrimSuffix\<close> and \<open>strconv.Atoi\<close>.\<close>

fun Contains :: "string \<Rightarrow> string \<Rightarrow> bool" where
  "Contains [] sub = (sub = [])"
| "Contains (c # s) sub = (take (length sub) (c # s) = sub \<or> Contains s sub)"

definition TrimSuffix :: "string \<Rightarrow> string \<Rightarrow> string" where
  "TrimSuffix s suf = (if length suf \<le> length s \<and> drop (length s - length suf) s = suf
     then take (length s - length suf) s else s)"

definition Atoi :: "string \<Rightarrow> lib_error + int" where
  "Atoi s =
     (let neg = (s \<noteq> [] \<and> hd s = CHR ''-'');
          ds = (if s \<noteq> [] \<and> (hd s = CHR ''-'' \<or> hd s = CHR ''+'') then tl s else s);
          v = (if neg then - int (nat_of_digits ds) else int (nat_of_digits ds)) in
      if ds = [] \<or> \<not> list_all digit ds then Inl ''invalid syntax''
      else if v < - (2 ^ 63) \<or> 2 ^ 63 \<le> v then Inl ''value out of range''
      else Inr v)"

section \<open>Containers\<close>

record ImageConfig =
  BitcoindRepository :: string
  BitcoindVersion :: string

definition NewImageConfig :: ImageConfig where
  "NewImageConfig = \<lparr>BitcoindRepository = ''lncm/bitcoind'', BitcoindVersion = ''v24.0.1''\<rparr>"

record RunOptions =
  opt_Name :: string
  Repository :: string
  opt_Tag :: string
  opt_User :: string
  Mounts :: "string list"
  ExposedPorts :: "string list"
  PortBindings :: "(string \<times> string) list"
  opt_Cmd :: "string list"

record HostConfig =
  RestartPolicy :: string

type_synonym Resource = string

text \<open>A container is known by its ID. \<open>map_order\<close> is the order in which a map is ranged over.\<close>

record 'w docker =
  NewPool :: "'w \<Rightarrow> (lib_error + unit) \<times> 'w"
  CreateExec :: "string \<Rightarrow> string list \<Rightarrow> 'w \<Rightarrow> (lib_error + string) \<times> 'w"
  StartExec :: "string \<Rightarrow> 'w \<Rightarrow> (lib_error option \<times> string \<times> string) \<times> 'w"
  RunWithOptions :: "RunOptions \<Rightarrow> (HostConfig \<Rightarrow> HostConfig) \<Rightarrow> 'w \<Rightarrow> (lib_error + Resource) \<times> 'w"
  Purge :: "Resource \<Rightarrow> 'w \<Rightarrow> lib_error option \<times> 'w"
  map_order :: "(string \<rightharpoonup> Resource) \<Rightarrow> string list"

record 'w Manager =
  man_cfg :: ImageConfig
  resources :: "string \<rightharpoonup> Resource"
  world :: 'w

text \<open>A call of Docker.\<close>

definition docker_call :: "('w \<Rightarrow> 'a \<times> 'w) \<Rightarrow> ('w Manager, 'a) prog" where
  "docker_call f m = (case f (world m) of (x, w) \<Rightarrow> (Inr x, m\<lparr>world := w\<rparr>))"

definition NewManager :: "'w docker \<Rightarrow> 'w \<Rightarrow> (go_error + 'w Manager) \<times> 'w" where
  "NewManager D w =
     (case NewPool D w of
        (Inl e, w') \<Rightarrow> (Inl (LibErr e), w')
      | (Inr _, w') \<Rightarrow> (Inr \<lparr>man_cfg = NewImageConfig, resources = Map.empty, world = w'\<rparr>, w'))"

definition errRegex_MatchString :: "string \<Rightarrow> bool" where
  "errRegex_MatchString s \<longleftrightarrow> Contains s ''Error'' \<or> Contains s ''error''"

text \<open>One attempt of \<open>ExecCmd\<close>: whether it succeeded, and both buffers, to which the command appends.\<close>

definition exec_attempt ::
    "'w docker \<Rightarrow> string \<Rightarrow> string list \<Rightarrow> string \<times> string \<Rightarrow> ('w Manager, bool \<times> string \<times> string) prog" where
  "exec_attempt D containerId command = (\<lambda>(outBuf, errBuf).
     bind (docker_call (CreateExec D containerId command)) (\<lambda>exec.
     case exec of
       Inl e \<Rightarrow> ret (False, outBuf, errBuf)
     | Inr execId \<Rightarrow>
         bind (docker_call (StartExec D execId)) (\<lambda>(err, out, er).
         let bufs = (outBuf @ out, errBuf @ er) in
         if err \<noteq> None then ret (False, bufs)
         else if errRegex_MatchString (errBuf @ er) then ret (False, bufs)
         else ret (True, bufs))))"

fun exec_loop ::
    "'w docker \<Rightarrow> string \<Rightarrow> string list \<Rightarrow> nat \<Rightarrow> string \<times> string \<Rightarrow> ('w Manager, string \<times> string) prog" where
  "exec_loop D containerId command 0 bufs = fatal ''command failed''"
| "exec_loop D containerId command (Suc ticks) bufs =
     bind (exec_attempt D containerId command bufs) (\<lambda>(ok, bufs').
     if ok then ret bufs' else exec_loop D containerId command ticks bufs')"

definition ExecCmd ::
    "'w docker \<Rightarrow> nat \<Rightarrow> string \<Rightarrow> string list \<Rightarrow> ('w Manager, string \<times> string) prog" where
  "ExecCmd D ticks containerName command =
     bind (gets resources) (\<lambda>rs.
     case rs containerName of
       None \<Rightarrow> raise (Errorf ''no resource found'')
     | Some containerId \<Rightarrow> exec_loop D containerId command ticks ([], []))"

definition bitcoindContainerName :: string where
  "bitcoindContainerName = ''bitcoind-test''"

definition ExecBitcoindCliCmd ::
    "'w docker \<Rightarrow> nat \<Rightarrow> string list \<Rightarrow> ('w Manager, string \<times> string) prog" where
  "ExecBitcoindCliCmd D ticks command =
     ExecCmd D ticks bitcoindContainerName
       ([''bitcoin-cli'', ''-chain=regtest'', ''-rpcuser=user'', ''-rpcpassword=pass''] @ command)"

definition noRestart :: "HostConfig \<Rightarrow> HostConfig" where
  "noRestart config = config\<lparr>RestartPolicy := ''no''\<rparr>"

definition RunBitcoindResource :: "'w docker \<Rightarrow> string \<Rightarrow> ('w Manager, Resource) prog" where
  "RunBitcoindResource D bitcoindCfgPath =
     bind (gets man_cfg) (\<lambda>cfg.
     let options =
       \<lparr>opt_Name = bitcoindContainerName, Repository = BitcoindRepository cfg, opt_Tag = BitcoindVersion cfg,
        opt_User = ''root:root'', Mounts = [bitcoindCfgPath @ ''/:/data/.bitcoin''],
        ExposedPorts = [''8332'', ''8333'', ''28332'', ''28333'', ''18443'', ''18444''],
        PortBindings = [(''8332/tcp'', ''8332''), (''8333/tcp'', ''8333''), (''28332/tcp'', ''28332''),
          (''28333/tcp'', ''28333''), (''18443/tcp'', ''18443''), (''18444/tcp'', ''18444'')],
        opt_Cmd = [''-regtest'', ''-txindex'', ''-rpcuser=user'', ''-rpcpassword=pass'', ''-rpcallowip=0.0.0.0/0'',
          ''-rpcbind=0.0.0.0'']\<rparr> in
     bind (docker_call (RunWithOptions D options noRestart)) (\<lambda>r.
     case r of
       Inl e \<Rightarrow> raise (LibErr e)
     | Inr bitcoindResource \<Rightarrow>
         bind (modify (resources_update (\<lambda>rs. rs(bitcoindContainerName \<mapsto> bitcoindResource)))) (\<lambda>_.
         ret bitcoindResource)))"

definition ClearResources :: "'w docker \<Rightarrow> ('w Manager, unit) prog" where
  "ClearResources D =
     bind (gets resources) (\<lambda>rs.
     for_each (map_order D rs) (\<lambda>name.
       bind (docker_call (Purge D (the (rs name)))) (\<lambda>err.
       case err of None \<Rightarrow> ret () | Some e \<Rightarrow> raise (LibErr e))))"

section \<open>The bitcoind node\<close>

record CreateWalletResponse =
  Name :: string
  Warning :: string

record GenerateBlockResponse =
  gen_Address :: string
  Blocks :: "string list"

definition NewBitcoindHandler :: "'w docker \<Rightarrow> ('w, 'w Manager) prog" where
  "NewBitcoindHandler D w = (case NewManager D w of (r, w') \<Rightarrow> require_ok (map_sum Error id r) w')"

definition GetBlockCount :: "'w docker \<Rightarrow> nat \<Rightarrow> ('w Manager, int) prog" where
  "GetBlockCount D ticks =
     bind (ExecBitcoindCliCmd D ticks [''getblockcount'']) (\<lambda>(buff, _).
     case Atoi (TrimSuffix buff [CHR 0x0A]) of Inl e \<Rightarrow> raise (LibErr e) | Inr num \<Rightarrow> ret num)"

fun wait_started :: "'w docker \<Rightarrow> nat \<Rightarrow> nat \<Rightarrow> ('w Manager, unit) prog" where
  "wait_started D ticks 0 = fatal ''bitcoind did not start''"
| "wait_started D ticks (Suc n) =
     bind (attempt (GetBlockCount D ticks)) (\<lambda>r.
     case r of Inl e \<Rightarrow> wait_started D ticks n | Inr _ \<Rightarrow> ret ())"

definition node_Start :: "'w docker \<Rightarrow> lib_error + string \<Rightarrow> nat \<Rightarrow> nat \<Rightarrow> ('w Manager, unit) prog" where
  "node_Start D MkdirTemp ticks startTicks =
     bind (require_NoError MkdirTemp) (\<lambda>tempPath.
     bind (on_error (RunBitcoindResource D tempPath) (\<lambda>_. fatal ''Received unexpected error'')) (\<lambda>_.
     wait_started D ticks startTicks))"

text \<open>\<open>json.Unmarshal\<close> of the answers is a parameter.\<close>

definition CreateWallet ::
    "'w docker \<Rightarrow> (string \<Rightarrow> lib_error + CreateWalletResponse) \<Rightarrow> nat \<Rightarrow> string \<Rightarrow> string \<Rightarrow>
      ('w Manager, CreateWalletResponse) prog" where
  "CreateWallet D unmarshal ticks walletName passphrase =
     bind (on_error (ExecBitcoindCliCmd D ticks
         [''createwallet'', walletName, ''false'', ''false'', passphrase, ''false'', ''false''])
       (\<lambda>_. fatal ''Received unexpected error'')) (\<lambda>(buff, _).
     require_NoError (unmarshal buff))"

definition GenerateBlocks ::
    "'w docker \<Rightarrow> (string \<Rightarrow> lib_error + GenerateBlockResponse) \<Rightarrow> nat \<Rightarrow> int \<Rightarrow>
      ('w Manager, GenerateBlockResponse) prog" where
  "GenerateBlocks D unmarshal ticks count =
     bind (on_error (ExecBitcoindCliCmd D ticks [''-generate'', show_int count])
       (\<lambda>_. fatal ''Received unexpected error'')) (\<lambda>(buff, _).
     require_NoError (unmarshal buff))"

section \<open>The queue\<close>

record ('w, 'q) rabbitmq =
  Dial :: "string \<Rightarrow> 'w \<Rightarrow> (lib_error + unit) \<times> 'w"
  conn_Close :: "'w \<Rightarrow> 'w"
  Channel :: "'w \<Rightarrow> (lib_error + unit) \<times> 'w"
  ch_Close :: "'w \<Rightarrow> 'w"
  QueuePurge :: "string \<Rightarrow> 'w \<Rightarrow> lib_error option \<times> 'w"
  new_QueueManager :: "ClientQueueConfig \<Rightarrow> 'w \<Rightarrow> (lib_error + 'q) \<times> 'w"
  ActiveStakingQueueName :: string

text \<open>\<open>defer f()\<close>: it runs however the function ends.\<close>

definition deferred :: "('w \<Rightarrow> 'w) \<Rightarrow> ('w, 'a) prog \<Rightarrow> ('w, 'a) prog" where
  "deferred f m w = (case m w of (r, w') \<Rightarrow> (r, f w'))"

definition purgeQueues :: "('w, 'q) rabbitmq \<Rightarrow> string list \<Rightarrow> ('w, unit) prog" where
  "purgeQueues A queues =
     bind (draw (Channel A)) (\<lambda>ch.
     case ch of
       Inl e \<Rightarrow> raise (Wrap ''failed to open a channel in test'' (LibErr e))
     | Inr _ \<Rightarrow>
         deferred (ch_Close A) (for_each queues (\<lambda>queue.
           bind (draw (QueuePurge A queue)) (\<lambda>err.
           case err of
             None \<Rightarrow> ret ()
           | Some e \<Rightarrow>
               if Contains e ''no queue'' then ret ()
               else raise (Wrap ''failed to purge queue in test'' (LibErr e))))))"

definition setupTestQueueConsumer :: "('w, 'q) rabbitmq \<Rightarrow> packages \<Rightarrow> QueueConfig \<Rightarrow> ('w, 'q) prog" where
  "setupTestQueueConsumer A pk cfg =
     (let amqpURI = ''amqp://'' @ User cfg @ '':'' @ Password cfg @ ''@'' @ Url cfg in
      bind (draw (Dial A amqpURI)) (\<lambda>conn.
      case conn of
        Inl e \<Rightarrow> fatal ''failed to connect to RabbitMQ in test''
      | Inr _ \<Rightarrow>
          deferred (conn_Close A)
            (bind (purgeQueues A [ActiveStakingQueueName A]) (\<lambda>_.
             bind (require_ok (map_sum Error id (ToQueueClientConfig pk cfg))) (\<lambda>validQueueCfg.
             bind (draw (new_QueueManager A validQueueCfg)) require_NoError)))))"

section \<open>Repeated commands\<close>

lemma Contains_append: "Contains s sub \<Longrightarrow> Contains (s @ t) sub"
proof (induction s)
  case Nil
  then show ?case by (cases t) simp_all
next
  case (Cons c s)
  have "take (length sub) ((c # s) @ t) = sub" if "take (length sub) (c # s) = sub"
    using that by (metis append_Nil2 append_eq_conv_conj take_all_iff take_append take_eq_Nil2 diff_is_0_eq nle_le take0)
  with Cons show ?case by auto
qed

lemma match_append: "errRegex_MatchString s \<Longrightarrow> errRegex_MatchString (s @ t)"
  by (auto simp: errRegex_MatchString_def Contains_append)

lemma exec_attempt_cases:
  assumes "exec_attempt D c cmd (out, err) m = (x, m')"
  obtains ok out' err' where "x = Inr (ok, out @ out', err @ err')" and "ok \<Longrightarrow> \<not> errRegex_MatchString (err @ err')"
    and "resources m' = resources m"
  using assms
  by (auto simp: exec_attempt_def docker_call_def bind_def ret_def Let_def
      split: prod.splits sum.splits if_splits) (metis append_Nil2)+

text \<open>
  The buffers are kept from one attempt to the next: once a command has written an error to
  its standard error, no later attempt of it can succeed, although the attempts go on until the
  timeout.
\<close>

lemma exec_loop_error_stays:
  assumes "errRegex_MatchString err"
  shows "fst (exec_loop D c cmd ticks (out, err) m) = Inl (Fatal ''command failed'')"
  using assms
proof (induction ticks arbitrary: out err m)
  case 0
  then show ?case by (simp add: fatal_def)
next
  case (Suc ticks)
  obtain x m' where x: "exec_attempt D c cmd (out, err) m = (x, m')" by (cases "exec_attempt D c cmd (out, err) m")
  from exec_attempt_cases [OF x] obtain ok out' err' where
    "x = Inr (ok, out @ out', err @ err')" "ok \<Longrightarrow> \<not> errRegex_MatchString (err @ err')" by blast
  moreover note match_append [OF Suc.prems, of err']
  ultimately show ?case using x Suc.IH [of "err @ err'"] by (cases ok) (auto simp: bind_def)
qed

text \<open>A command that returns wrote no error in any of its attempts.\<close>

lemma exec_loop_Inr:
  "exec_loop D c cmd ticks (out, err) m = (Inr (o', e'), m') \<Longrightarrow> \<not> errRegex_MatchString e' \<and> resources m' = resources m"
proof (induction ticks arbitrary: out err m)
  case 0
  then show ?case by (simp add: fatal_def)
next
  case (Suc ticks)
  obtain x m1 where x: "exec_attempt D c cmd (out, err) m = (x, m1)" by (cases "exec_attempt D c cmd (out, err) m")
  from exec_attempt_cases [OF x] obtain ok o1 e1 where
    "x = Inr (ok, out @ o1, err @ e1)" "ok \<Longrightarrow> \<not> errRegex_MatchString (err @ e1)" "resources m1 = resources m" by blast
  with Suc x show ?case by (cases ok) (auto simp: bind_def ret_def)
qed

lemma ExecCmd_Inr:
  assumes "ExecCmd D ticks name cmd m = (Inr (out, err), m')"
  shows "name \<in> dom (resources m) \<and> \<not> errRegex_MatchString err \<and> resources m' = resources m"
  using assms exec_loop_Inr [of D _ cmd ticks "[]" "[]" m]
  by (auto simp: ExecCmd_def bind_def gets_def raise_def split: option.splits)

text \<open>Commands for the node find its container once it was run, and not before.\<close>

lemma RunBitcoindResource_found:
  assumes "RunBitcoindResource D path m = (Inr r, m')"
  shows "resources m' = (resources m)(bitcoindContainerName \<mapsto> r)"
  using assms
  by (auto simp: RunBitcoindResource_def docker_call_def bind_def gets_def modify_def ret_def raise_def Let_def
      split: prod.splits sum.splits)

lemma ExecBitcoindCliCmd_not_run:
  assumes "NewManager D w = (Inr m, w')"
  shows "ExecBitcoindCliCmd D ticks cmd m = (Inl (Error (Errorf ''no resource found'')), m)"
  using assms
  by (auto simp: NewManager_def ExecBitcoindCliCmd_def ExecCmd_def bind_def gets_def raise_def
      split: prod.splits sum.splits)

section \<open>Block counts\<close>

lemma Atoi_show: "i < 2 ^ 63 \<Longrightarrow> - (2 ^ 63) \<le> i \<Longrightarrow> Atoi (show_int i) = Inr i"
proof -
  have hd: "hd (show_nat n) \<noteq> CHR ''-'' \<and> hd (show_nat n) \<noteq> CHR ''+''" for n
    using show_nat_digits [of n] by (cases "show_nat n") (auto simp: digit_def)
  show "i < 2 ^ 63 \<Longrightarrow> - (2 ^ 63) \<le> i \<Longrightarrow> Atoi (show_int i) = Inr i"
    using show_nat_digits [of "nat i"] show_nat_digits [of "nat (- i)"] hd [of "nat i"]
    by (auto simp: Atoi_def show_int_def nat_of_digits_show Let_def)
qed

text \<open>The block count that \<open>bitcoin-cli\<close> prints on a line is read back.\<close>

lemma GetBlockCount_reads:
  assumes "ExecBitcoindCliCmd D ticks [''getblockcount''] m = (Inr (show_nat n @ [CHR 0x0A], err), m')" and "n < 2 ^ 63"
  shows "GetBlockCount D ticks m = (Inr (int n), m')"
proof -
  have "TrimSuffix (show_nat n @ [CHR 0x0A]) [CHR 0x0A] = show_nat n" by (simp add: TrimSuffix_def)
  moreover have "Atoi (show_nat n) = Inr (int n)" using Atoi_show [of "int n"] assms(2) by (simp add: show_int_def)
  ultimately show ?thesis using assms(1) by (simp add: GetBlockCount_def bind_def ret_def)
qed

section \<open>Purged queues\<close>

text \<open>Every queue that exists was purged when \<open>purgeQueues\<close> returns; a queue that does not exist is no error.\<close>

lemma purgeQueues_Inr:
  assumes "purgeQueues A [q] w = (Inr (), w')"
  obtains w1 err w2 where "Channel A w = (Inr (), w1)" and "QueuePurge A q w1 = (err, w2)" and "w' = ch_Close A w2"
    and "err = None \<or> Contains (the err) ''no queue''"
  using assms
  by (auto simp: purgeQueues_def deferred_def bind_def draw_def ret_def raise_def
      split: prod.splits sum.splits option.splits if_splits)

end
