(* ===== verification/Datagen_Blocks.thy ===== *)
theory Datagen_Blocks
  imports Test_Random Scanner_Correct
begin

text \<open>
  The generator of chains of blocks, \<open>testutils/datagen/block.go\<close>, and \<open>GenRandomTx\<close> of
  \<open>testutils/datagen/staking.go\<close>. The search for a header that is valid takes fuel, as the
  loop of the code ends only when the source gives one. What the tests of the scanner rely on:
  the blocks have consecutive heights and every one names the hash of its predecessor.
\<close>

section \<open>The generators\<close>

record block_lib =
  HashH :: "bytes \<Rightarrow> hash"
  DoubleHashH :: "bytes \<Rightarrow> hash"
  header_BlockHash :: "BlockHeader \<Rightarrow> hash"
  BuildMerkleTreeStore :: "MsgTx list \<Rightarrow> hash option list"
  BigToCompact :: "int \<Rightarrow> u32"
  ValidateBTCHeader :: "BlockHeader \<Rightarrow> lib_error option"

definition GenRandomTx :: "'r random \<Rightarrow> block_lib \<Rightarrow> ('r, MsgTx) prog" where
  "GenRandomTx G L =
     bind (draw (next_ByteArray G 10)) (\<lambda>prev.
     bind (draw (next_Uint32 G)) (\<lambda>index.
     bind (draw (next_ByteArray G 10)) (\<lambda>script.
     bind (draw (next_Uint32 G)) (\<lambda>sequence.
     bind (draw (next_Int63 G)) (\<lambda>value.
     bind (draw (next_ByteArray G 80)) (\<lambda>pkScript.
     ret \<lparr>tx_Version = 1,
          TxIn = [\<lparr>PreviousOutPoint = \<lparr>Hash = HashH L prev, Index = index\<rparr>, SignatureScript = script,
                   Witness = [], Sequence = sequence\<rparr>],
          TxOut = [\<lparr>Value = value, PkScript = pkScript\<rparr>], LockTime = 0\<rparr>))))))"

definition calcMerkleRoot :: "block_lib \<Rightarrow> MsgTx list \<Rightarrow> hash outcome" where
  "calcMerkleRoot L txns =
     (if txns = [] then Inr (replicate 32 0)
      else let merkles = BuildMerkleTreeStore L txns in
        if merkles = [] then Inl (Panic ''index out of range'')
        else case last merkles of None \<Rightarrow> Inl (Panic ''nil pointer dereference'') | Some h \<Rightarrow> Inr h)"

text \<open>The loop that looks for a header; the difficulty is \<open>7fff...ff\<close>.\<close>

definition difficulty :: int where
  "difficulty = 2 ^ 255 - 1"

definition random_header ::
    "'r random \<Rightarrow> block_lib \<Rightarrow> hash \<Rightarrow> u32 \<Rightarrow> hash option \<Rightarrow> ('r, BlockHeader) prog" where
  "random_header G L merkleRoot workBits prevHash =
     bind (draw (next_BtcdHeader G)) (\<lambda>header.
     bind (case prevHash of
             None \<Rightarrow> bind (draw (next_ByteArray G 10)) (\<lambda>b. ret (DoubleHashH L b))
           | Some h \<Rightarrow> ret h) (\<lambda>prev.
     ret (header\<lparr>MerkleRoot := merkleRoot, Bits := workBits, PrevBlock := prev\<rparr>)))"

fun find_header ::
    "'r random \<Rightarrow> block_lib \<Rightarrow> nat \<Rightarrow> hash \<Rightarrow> u32 \<Rightarrow> hash option \<Rightarrow> ('r, BlockHeader) prog" where
  "find_header G L 0 merkleRoot workBits prevHash = out_of_fuel"
| "find_header G L (Suc fuel) merkleRoot workBits prevHash =
     bind (random_header G L merkleRoot workBits prevHash) (\<lambda>header.
     if ValidateBTCHeader L header = None then ret header
     else find_header G L fuel merkleRoot workBits prevHash)"

definition GenRandomBlock :: "'r random \<Rightarrow> block_lib \<Rightarrow> nat \<Rightarrow> hash option \<Rightarrow> ('r, MsgBlock) prog" where
  "GenRandomBlock G L fuel prevHash =
     bind (GenRandomTx G L) (\<lambda>coinbaseTx.
     let msgTxs = [coinbaseTx] in
     bind (lift (calcMerkleRoot L msgTxs)) (\<lambda>merkleRoot.
     let workBits = BigToCompact L difficulty in
     bind (find_header G L fuel merkleRoot workBits prevHash) (\<lambda>header.
     ret \<lparr>Header_of = header, Transactions = msgTxs\<rparr>)))"

text \<open>The loop of \<open>GetRandomIndexedBlocksFromHeight\<close> counts up to \<open>int(numBlocks)\<close>.\<close>

primrec blocks_loop ::
    "'r random \<Rightarrow> block_lib \<Rightarrow> nat \<Rightarrow> nat \<Rightarrow> i32 \<Rightarrow> hash \<Rightarrow> ('r, IndexedBlock list) prog" where
  "blocks_loop G L fuel 0 prevHeight prevHash = ret []"
| "blocks_loop G L fuel (Suc n) prevHeight prevHash =
     bind (GenRandomBlock G L fuel (Some prevHash)) (\<lambda>block.
     let newIb = NewIndexedBlockFromMsgBlock (prevHeight + 1) block in
     bind (blocks_loop G L fuel n (Height newIb) (header_BlockHash L (Header newIb))) (\<lambda>ibs.
     ret (newIb # ibs)))"

definition GetRandomIndexedBlocksFromHeight ::
    "'r random \<Rightarrow> block_lib \<Rightarrow> nat \<Rightarrow> u64 \<Rightarrow> i32 \<Rightarrow> hash \<Rightarrow> ('r, IndexedBlock list) prog" where
  "GetRandomIndexedBlocksFromHeight G L fuel numBlocks rootHeight rootHash =
     blocks_loop G L fuel (nat (sint numBlocks)) rootHeight rootHash"

definition GetRandomIndexedBlocks ::
    "'r random \<Rightarrow> block_lib \<Rightarrow> nat \<Rightarrow> u64 \<Rightarrow> u64 \<Rightarrow> ('r, IndexedBlock list) prog" where
  "GetRandomIndexedBlocks G L fuel startHeight numBlocks =
     (if numBlocks = 0 then ret []
      else
        bind (GenRandomBlock G L fuel None) (\<lambda>block.
        let ib = NewIndexedBlockFromMsgBlock (ucast startHeight) block in
        bind (GetRandomIndexedBlocksFromHeight G L fuel (numBlocks - 1) (ucast startHeight)
          (header_BlockHash L (Header ib))) (\<lambda>ibs.
        ret (ib # ibs))))"

section \<open>Blocks\<close>

text \<open>A generated block: its header is valid and carries the root of its transactions.\<close>

definition block_made :: "block_lib \<Rightarrow> IndexedBlock \<Rightarrow> bool" where
  "block_made L ib \<longleftrightarrow> ValidateBTCHeader L (Header ib) = None \<and>
     calcMerkleRoot L (map MsgTx_of (Txs ib)) = Inr (MerkleRoot (Header ib)) \<and> length (Txs ib) = 1"

lemma find_header_Inr:
  assumes "find_header G L fuel merkleRoot workBits prevHash r = (Inr header, r')"
  shows "ValidateBTCHeader L header = None" and "MerkleRoot header = merkleRoot"
    and "prevHash = Some h \<Longrightarrow> PrevBlock header = h"
  using assms
  by (induction fuel arbitrary: r)
    (auto simp: out_of_fuel_def random_header_def draw_def ret_def
      elim!: bind_Inr_cases split: if_splits option.splits prod.splits)

lemma GenRandomBlock_Inr:
  assumes "GenRandomBlock G L fuel prevHash r = (Inr b, r')"
  shows "block_made L (NewIndexedBlockFromMsgBlock h b)" and "prevHash = Some p \<Longrightarrow> PrevBlock (Header_of b) = p"
proof -
  from assms obtain tx merkleRoot r1 header where
    root: "calcMerkleRoot L [tx] = Inr merkleRoot" and
    hd: "find_header G L fuel merkleRoot (BigToCompact L difficulty) prevHash r1 = (Inr header, r')" and
    b: "b = \<lparr>Header_of = header, Transactions = [tx]\<rparr>"
    by (auto simp: GenRandomBlock_def Let_def lift_def ret_def elim!: bind_Inr_cases)
  note h = find_header_Inr [OF hd]
  show "block_made L (NewIndexedBlockFromMsgBlock h b)"
    using h(1,2) root by (simp add: block_made_def NewIndexedBlockFromMsgBlock_def b)
  show "prevHash = Some p \<Longrightarrow> PrevBlock (Header_of b) = p" using h(3) by (simp add: b)
qed

text \<open>The source gives a valid header within the fuel.\<close>

definition finds_headers :: "'r random \<Rightarrow> block_lib \<Rightarrow> nat \<Rightarrow> bool" where
  "finds_headers G L fuel \<longleftrightarrow>
     (\<forall>merkleRoot workBits prevHash. returns (find_header G L fuel merkleRoot workBits prevHash))"

definition merkle_ok :: "block_lib \<Rightarrow> bool" where
  "merkle_ok L \<longleftrightarrow> (\<forall>txs. txs \<noteq> [] \<longrightarrow> (\<exists>h. calcMerkleRoot L txs = Inr h))"

lemma returns_GenRandomBlock:
  assumes "finds_headers G L fuel" and "merkle_ok L"
  shows "returns (GenRandomBlock G L fuel prevHash)"
proof -
  have "returns (lift (calcMerkleRoot L [tx]))" for tx
    using assms(2) by (auto simp: merkle_ok_def dest: spec [of _ "[tx]"] intro: returns_lift)
  moreover have "returns (GenRandomTx G L)" unfolding GenRandomTx_def by (intro returns_rules)
  ultimately show ?thesis
    using assms(1) unfolding GenRandomBlock_def Let_def finds_headers_def by (intro returns_rules) simp_all
qed

section \<open>Chains\<close>

definition chain_made :: "block_lib \<Rightarrow> Client \<Rightarrow> IndexedBlock list \<Rightarrow> bool" where
  "chain_made L cl ibs \<longleftrightarrow> linked cl ibs \<and> consecutive ibs \<and> (\<forall>ib\<in>set ibs. block_made L ib)"

lemma blocks_loop_made:
  assumes "BlockHash cl = header_BlockHash L"
    and "blocks_loop G L fuel n prevHeight prevHash r = (Inr ibs, r')"
  shows "length ibs = n \<and> chain_made L cl ibs \<and>
    (ibs \<noteq> [] \<longrightarrow> Height (hd ibs) = prevHeight + 1 \<and> PrevBlock (Header (hd ibs)) = prevHash)"
  using assms(2)
proof (induction n arbitrary: prevHeight prevHash r ibs)
  case 0
  then show ?case by (simp add: ret_def chain_made_def)
next
  case (Suc n)
  from Suc.prems obtain b r1 rest where b: "GenRandomBlock G L fuel (Some prevHash) r = (Inr b, r1)"
    and ibs: "ibs = NewIndexedBlockFromMsgBlock (prevHeight + 1) b # rest"
    and rest: "blocks_loop G L fuel n (prevHeight + 1) (header_BlockHash L (Header_of b)) r1 = (Inr rest, r')"
    by (auto simp: Let_def ret_def NewIndexedBlockFromMsgBlock_def elim!: bind_Inr_cases)
  note IH = Suc.IH [OF rest]
  show ?case
    using IH GenRandomBlock_Inr [OF b] assms(1)
    by (cases rest) (auto simp: ibs chain_made_def NewIndexedBlockFromMsgBlock_def)
qed

lemma returns_blocks_loop:
  assumes "finds_headers G L fuel" and "merkle_ok L"
  shows "returns (blocks_loop G L fuel n prevHeight prevHash)"
  by (induction n arbitrary: prevHeight prevHash)
    (auto simp: Let_def intro!: returns_rules returns_GenRandomBlock [OF assms])

text \<open>C39: the generator of blocks returns, when its source gives a valid header within the fuel,
  and the blocks are a chain: as many as asked for, the first at the start height, with
  consecutive heights, every one naming the hash of its predecessor, and every header valid and
  with the Merkle root of the block.\<close>

theorem random_blocks_chain:
  assumes fuel: "finds_headers G L fuel" "merkle_ok L" and hash: "BlockHash cl = header_BlockHash L"
    and n: "unat numBlocks \<le> 2 ^ 63"
  shows "\<exists>ibs r'. GetRandomIndexedBlocks G L fuel startHeight numBlocks r = (Inr ibs, r') \<and>
    length ibs = unat numBlocks \<and> linked cl ibs \<and> consecutive ibs \<and> (\<forall>ib\<in>set ibs. block_made L ib) \<and>
    (ibs \<noteq> [] \<longrightarrow> Height (hd ibs) = ucast startHeight)"
proof (cases "numBlocks = 0")
  case True
  then show ?thesis by (simp add: GetRandomIndexedBlocks_def ret_def)
next
  case False
  have "unat (numBlocks - 1) = unat numBlocks - 1"
    using False by (simp add: unat_minus_one)
  then have m: "Suc (nat (sint (numBlocks - 1))) = unat numBlocks"
    using n False by (simp add: sint_uint signed_take_bit_int_eq_self uint_nat unat_gt_0)
  obtain b r1 where b: "GenRandomBlock G L fuel None r = (Inr b, r1)"
    using returnsD [OF returns_GenRandomBlock [OF fuel]] by blast
  obtain rest r2 where rest: "blocks_loop G L fuel (nat (sint (numBlocks - 1))) (ucast startHeight)
      (header_BlockHash L (Header_of b)) r1 = (Inr rest, r2)"
    using returnsD [OF returns_blocks_loop [OF fuel]] by blast
  let ?ib = "NewIndexedBlockFromMsgBlock (ucast startHeight) b"
  have "GetRandomIndexedBlocks G L fuel startHeight numBlocks r = (Inr (?ib # rest), r2)"
    using False rest by (simp add: GetRandomIndexedBlocks_def bind_def b Let_def
        GetRandomIndexedBlocksFromHeight_def NewIndexedBlockFromMsgBlock_def ret_def)
  moreover have "linked cl (?ib # rest) \<and> consecutive (?ib # rest) \<and> (\<forall>ib\<in>set (?ib # rest). block_made L ib)"
    using blocks_loop_made [OF hash rest] GenRandomBlock_Inr(1) [OF b] hash
    by (cases rest) (auto simp: chain_made_def NewIndexedBlockFromMsgBlock_def)
  moreover have "length (?ib # rest) = unat numBlocks"
    using blocks_loop_made [OF hash rest] m by simp
  ultimately show ?thesis by (intro exI conjI) (auto simp: NewIndexedBlockFromMsgBlock_def)
qed

end
