(* ===== verification/Datagen_Params.thy ===== *)
theory Datagen_Params
  imports Test_Random
begin

text \<open>
  The generator of global parameters, \<open>testutils/datagen/params.go\<close>. What it generates is
  well-formed: the versions are numbered, the activation heights and the caps that are not 0
  increase, and the limits of a version are ordered and leave room for the unbonding fee.
\<close>

section \<open>The generators\<close>

text \<open>Go's \<open>copy\<close>: as many elements as both slices have.\<close>

definition go_copy :: "'a list \<Rightarrow> 'a list \<Rightarrow> 'a list" where
  "go_copy dst src = take (length dst) src @ drop (length src) dst"

definition findLastStakingCap :: "ParsedVersionedGlobalParams list \<Rightarrow> i64" where
  "findLastStakingCap prevVersions =
     (case List.find (\<lambda>v. sint (StakingCap v) > 0) (rev prevVersions) of
        None \<Rightarrow> 0
      | Some v \<Rightarrow> StakingCap v)"

text \<open>\<open>privKey.PubKey()\<close> is the parameter \<open>PubKey\<close>.\<close>

definition replace_key ::
    "'r random \<Rightarrow> (PrivateKey \<Rightarrow> PublicKey) \<Rightarrow> PublicKey list \<Rightarrow> ('r, PublicKey list) prog" where
  "replace_key G PubKey keys =
     bind (Intn G (int (length keys))) (\<lambda>randIndex.
     bind (NewPrivateKey G) (\<lambda>privKey.
     ret (keys[nat randIndex := PubKey privKey])))"

definition rotateCovenantPks ::
    "'r random \<Rightarrow> (PrivateKey \<Rightarrow> PublicKey) \<Rightarrow> PublicKey list \<Rightarrow> ('r, PublicKey list) prog" where
  "rotateCovenantPks G PubKey oldKeys =
     bind (replace_key G PubKey oldKeys) (\<lambda>newKeys.
     if length newKeys = 1 then ret newKeys else replace_key G PubKey newKeys)"

primrec gen_keys :: "'r random \<Rightarrow> (PrivateKey \<Rightarrow> PublicKey) \<Rightarrow> nat \<Rightarrow> ('r, PublicKey list) prog" where
  "gen_keys G PubKey 0 = ret []"
| "gen_keys G PubKey (Suc n) =
     bind (NewPrivateKey G) (\<lambda>privKey.
     bind (gen_keys G PubKey n) (\<lambda>keys. ret (PubKey privKey # keys)))"

text \<open>The cap of a version: based on time with a chance of one in three, else on the value.\<close>

definition gen_cap ::
    "'r random \<Rightarrow> i32 \<Rightarrow> ParsedVersionedGlobalParams list \<Rightarrow> ('r, u64 \<times> i64) prog" where
  "gen_cap G activationHeight prevVersions =
     bind (Intn G 3) (\<lambda>c.
     if c = 0 then
       bind (Int63n G 100) (\<lambda>h. ret (u64_of_i32 activationHeight + (h + 100), 0))
     else
       bind (Int63n G 1000000000) (\<lambda>x. ret (0, findLastStakingCap prevVersions + (x + 1))))"

text \<open>The amounts and times of a version: fee, minimum and maximum; time, minimum and maximum.\<close>

definition gen_amounts :: "'r random \<Rightarrow> ('r, i64 \<times> i64 \<times> i64) prog" where
  "gen_amounts G =
     bind (Int63n G 10000) (\<lambda>f.
     let unbondingFee = f + 1 in
     bind (Int63n G 100000) (\<lambda>x.
     let minStakingAmount = (x + 1) + unbondingFee in
     bind (Int63n G 100000) (\<lambda>y.
     ret (unbondingFee, minStakingAmount, y + minStakingAmount))))"

definition gen_times :: "'r random \<Rightarrow> ('r, u16 \<times> u16) prog" where
  "gen_times G =
     bind (Intn G 1000) (\<lambda>x.
     let minStakingTime = word_of_int x + 1 in
     bind (Intn G 10000) (\<lambda>y.
     ret (minStakingTime, word_of_int y + minStakingTime + 1)))"

text \<open>One round of the loop over the versions; the variables are the last activation height, the
  last covenant keys and the versions so far.\<close>

definition gen_version ::
    "'r random \<Rightarrow> (PrivateKey \<Rightarrow> PublicKey) \<Rightarrow> u32 \<Rightarrow> u16 \<Rightarrow> u16 \<Rightarrow>
      i32 \<times> PublicKey list \<times> ParsedVersionedGlobalParams list \<Rightarrow>
      ('r, i32 \<times> PublicKey list \<times> ParsedVersionedGlobalParams list) prog" where
  "gen_version G PubKey covQuorum confirmationDepth version = (\<lambda>(lastActivationHeight, lastCovKeys, versions).
     bind (Intn G 1000) (\<lambda>t.
     let unbondingTime = word_of_int (t + 100) in
     bind (gen_amounts G) (\<lambda>(unbondingFee, minStakingAmount, maxStakingAmount).
     bind (gen_times G) (\<lambda>(minStakingTime, maxStakingTime).
     bind (Intn G 100) (\<lambda>a.
     let activationHeight = word_of_int a + lastActivationHeight + 1 in
     bind (gen_cap G activationHeight (take (unat version) versions)) (\<lambda>(capHeight, stakingCap).
     bind (rotateCovenantPks G PubKey lastCovKeys) (\<lambda>rotatedKeys.
     ret (activationHeight, go_copy lastCovKeys rotatedKeys, versions @
       [\<lparr>params_Version = ucast version, StakingCap = stakingCap, CapHeight = capHeight,
         ActivationHeight = u64_of_i32 activationHeight, Tag = [1, 2, 3, 4], CovenantPks = rotatedKeys,
         CovenantQuorum = covQuorum, UnbondingTime = unbondingTime, UnbondingFee = unbondingFee,
         MaxStakingAmount = maxStakingAmount, MinStakingAmount = minStakingAmount,
         MaxStakingTime = maxStakingTime, MinStakingTime = minStakingTime,
         ConfirmationDepth = confirmationDepth\<rparr>]))))))))"

definition GenerateGlobalParamsVersions ::
    "'r random \<Rightarrow> (PrivateKey \<Rightarrow> PublicKey) \<Rightarrow> ('r, ParsedVersionedGlobalParams list) prog" where
  "GenerateGlobalParamsVersions G PubKey =
     bind (Intn G 10) (\<lambda>n.
     let numVersions = word_of_int (n + 1) :: u16 in
     bind (Intn G 10) (\<lambda>c.
     let numCovenants = c + 1 in
     bind (gen_keys G PubKey (nat numCovenants)) (\<lambda>covPks.
     bind (Intn G numCovenants) (\<lambda>q.
     let covQuorum = word_of_int (q + 1) in
     bind (Intn G 10) (\<lambda>d.
     let confirmationDepth = word_of_int (d + 2) in
     bind (for_acc (map word_of_nat [0..<Suc (unat numVersions)])
       (gen_version G PubKey covQuorum confirmationDepth) (0, covPks, [])) (\<lambda>v.
     ret (snd (snd v))))))))"

section \<open>Arithmetic\<close>

lemma sint_add_small:
  fixes a b :: "'a :: len word"
  assumes "- (2 ^ (LENGTH('a) - 1)) \<le> sint a + sint b" and "sint a + sint b < 2 ^ (LENGTH('a) - 1)"
  shows "sint (a + b) = sint a + sint b"
proof -
  have "a + b = word_of_int (sint a + sint b)" by simp
  then show ?thesis
    using assms by (simp only: sint_sbintrunc' signed_take_bit_int_eq_self)
qed

lemma uint_small: "0 \<le> x \<Longrightarrow> x < 2 ^ LENGTH('a) \<Longrightarrow> uint (word_of_int x :: 'a :: len word) = x"
  by (simp add: unsigned_of_int take_bit_int_eq_self)

lemma sint_small:
  "0 \<le> x \<Longrightarrow> x < 2 ^ (LENGTH('a) - 1) \<Longrightarrow> sint (word_of_int x :: 'a :: len word) = x"
  by (simp add: sint_sbintrunc' signed_take_bit_int_eq_self)

section \<open>What is generated\<close>

text \<open>The limits of one version.\<close>

definition limits_ok :: "ParsedVersionedGlobalParams \<Rightarrow> bool" where
  "limits_ok p \<longleftrightarrow> 0 < sint (UnbondingFee p) \<and> sint (UnbondingFee p) < sint (MinStakingAmount p) \<and>
     sint (MinStakingAmount p) \<le> sint (MaxStakingAmount p) \<and>
     0 < uint (MinStakingTime p) \<and> uint (MinStakingTime p) < uint (MaxStakingTime p) \<and>
     0 < uint (UnbondingTime p) \<and>
     0 < uint (CovenantQuorum p) \<and> uint (CovenantQuorum p) \<le> int (length (CovenantPks p)) \<and>
     2 \<le> uint (ConfirmationDepth p) \<and> uint (ConfirmationDepth p) \<le> 11"

text \<open>An earlier and a later version.\<close>

definition versions_ordered :: "ParsedVersionedGlobalParams \<Rightarrow> ParsedVersionedGlobalParams \<Rightarrow> bool" where
  "versions_ordered p q \<longleftrightarrow> ActivationHeight p < ActivationHeight q \<and>
     (StakingCap q \<noteq> 0 \<longrightarrow> sint (StakingCap p) < sint (StakingCap q))"

lemma findLastStakingCap_upper:
  assumes "sorted_wrt versions_ordered vs" and "\<forall>p\<in>set vs. 0 \<le> sint (StakingCap p)"
  shows "0 \<le> sint (findLastStakingCap vs) \<and> (\<forall>p\<in>set vs. sint (StakingCap p) \<le> sint (findLastStakingCap vs))"
  using assms
proof (induction vs rule: rev_induct)
  case Nil
  then show ?case by (simp add: findLastStakingCap_def)
next
  case (snoc v vs)
  then have IH: "0 \<le> sint (findLastStakingCap vs)" "\<forall>p\<in>set vs. sint (StakingCap p) \<le> sint (findLastStakingCap vs)"
    by (simp_all add: sorted_wrt_append)
  show ?case
  proof (cases "0 < sint (StakingCap v)")
    case True
    with snoc.prems(1) have "sint (StakingCap p) < sint (StakingCap v)" if "p \<in> set vs" for p
      using that by (auto simp: sorted_wrt_append versions_ordered_def)
    with True show ?thesis by (fastforce simp: findLastStakingCap_def)
  next
    case False
    with snoc.prems(2) have "sint (StakingCap v) = 0" by force
    with False IH show ?thesis by (simp add: findLastStakingCap_def)
  qed
qed

lemma findLastStakingCap_bound: "\<forall>p\<in>set vs. sint (StakingCap p) \<le> b \<Longrightarrow> 0 \<le> b \<Longrightarrow> sint (findLastStakingCap vs) \<le> b"
proof -
  assume vs: "\<forall>p\<in>set vs. sint (StakingCap p) \<le> b" and b: "0 \<le> b"
  have "v \<in> set vs" if "List.find P (rev vs) = Some v" for P v
    using that by (metis find_Some_iff nth_mem set_rev)
  with vs b show ?thesis by (auto simp: findLastStakingCap_def split: option.split)
qed

text \<open>The invariant of the loop after \<open>k\<close> versions.\<close>

definition versions_inv ::
    "nat \<Rightarrow> nat \<Rightarrow> i32 \<times> PublicKey list \<times> ParsedVersionedGlobalParams list \<Rightarrow> bool" where
  "versions_inv numCovenants k v \<longleftrightarrow> (case v of (lastHeight, keys, vs) \<Rightarrow>
     0 \<le> sint lastHeight \<and> sint lastHeight \<le> 100 * int k \<and> length keys = numCovenants \<and>
     map params_Version vs = map word_of_nat [0..<k] \<and> sorted_wrt versions_ordered vs \<and>
     (\<forall>p\<in>set vs. limits_ok p \<and> uint (ActivationHeight p) \<le> sint lastHeight \<and>
        0 \<le> sint (StakingCap p) \<and> sint (StakingCap p) \<le> 1000000000 * int k))"

lemma length_go_copy [simp]: "length (go_copy dst src) = length dst"
  by (simp add: go_copy_def)

context random_source
begin

lemma replace_key_length: "replace_key G PubKey keys r = (Inr keys', r') \<Longrightarrow> length keys' = length keys"
  by (auto simp: replace_key_def ret_def elim!: bind_Inr_cases)

lemma rotateCovenantPks_length: "rotateCovenantPks G PubKey keys r = (Inr keys', r') \<Longrightarrow> length keys' = length keys"
  by (auto simp: rotateCovenantPks_def ret_def elim!: bind_Inr_cases split: if_splits) (metis replace_key_length)+

lemma gen_keys_length: "gen_keys G PubKey n r = (Inr keys, r') \<Longrightarrow> length keys = n"
  by (induction n arbitrary: r keys) (auto simp: ret_def elim!: bind_Inr_cases)

lemma gen_amounts_ok:
  assumes "gen_amounts G r = (Inr (fee, lo, hi), r')"
  shows "0 < sint fee" and "sint fee < sint lo" and "sint lo \<le> sint hi"
proof -
  from assms obtain f x y r1 r2 r3 where d: "Int63n G 10000 r = (Inr f, r1)" "Int63n G 100000 r1 = (Inr x, r2)"
    "Int63n G 100000 r2 = (Inr y, r3)" and v: "fee = f + 1" "lo = (x + 1) + fee" "hi = y + lo"
    by (auto simp: gen_amounts_def Let_def ret_def elim!: bind_Inr_cases)
  have r: "0 \<le> sint f" "sint f < 10000" "0 \<le> sint x" "sint x < 100000" "0 \<le> sint y" "sint y < 100000"
    using Int63n_Inr [OF d(1)] Int63n_Inr [OF d(2)] Int63n_Inr [OF d(3)] by simp_all
  have fee: "sint fee = sint f + 1" unfolding v(1) using r by (subst sint_add_small) simp_all
  have "sint (x + 1) = sint x + 1" using r by (subst sint_add_small) simp_all
  then have lo: "sint lo = sint x + 1 + sint fee" unfolding v(2) using r fee by (subst sint_add_small) simp_all
  have hi: "sint hi = sint y + sint lo" unfolding v(3) using r fee lo by (subst sint_add_small) simp_all
  show "0 < sint fee" "sint fee < sint lo" "sint lo \<le> sint hi" using r fee lo hi by simp_all
qed

lemma gen_times_ok:
  assumes "gen_times G r = (Inr (lo, hi), r')"
  shows "0 < uint lo" and "uint lo < uint hi"
proof -
  from assms obtain x y r1 r2 where d: "Intn G 1000 r = (Inr x, r1)" "Intn G 10000 r1 = (Inr y, r2)"
    and v: "lo = word_of_int (x + 1)" "hi = word_of_int (y + (x + 1) + 1)"
    by (auto simp: gen_times_def Let_def ret_def elim!: bind_Inr_cases)
  have r: "0 \<le> x" "x < 1000" "0 \<le> y" "y < 10000" using Intn_Inr [OF d(1)] Intn_Inr [OF d(2)] by simp_all
  have "uint lo = x + 1" "uint hi = y + (x + 1) + 1"
    unfolding v by (rule uint_small; use r in simp)+
  with r show "0 < uint lo" "uint lo < uint hi" by simp_all
qed

lemma gen_cap_ok:
  assumes "gen_cap G h vs r = (Inr (capHeight, cap), r')"
    and "0 \<le> sint (findLastStakingCap vs)" and "sint (findLastStakingCap vs) < 2 ^ 62"
  shows "cap = 0 \<or> sint (findLastStakingCap vs) < sint cap \<and> sint cap \<le> sint (findLastStakingCap vs) + 1000000000"
proof -
  have "cap = 0 \<or> (\<exists>x r1 r2. Int63n G 1000000000 r1 = (Inr x, r2) \<and> cap = findLastStakingCap vs + (x + 1))"
    using assms(1) by (fastforce simp: gen_cap_def ret_def elim!: bind_Inr_cases split: if_splits)
  then show ?thesis
  proof (elim disjE exE conjE)
    fix x r1 r2
    assume d: "Int63n G 1000000000 r1 = (Inr x, r2)" and cap: "cap = findLastStakingCap vs + (x + 1)"
    have x: "0 \<le> sint x" "sint x < 1000000000" using Int63n_Inr [OF d] by simp_all
    then have "sint (x + 1) = sint x + 1" by (subst sint_add_small) simp_all
    with assms(2,3) x have "sint cap = sint (findLastStakingCap vs) + (sint x + 1)"
      unfolding cap by (subst sint_add_small) simp_all
    with x show ?thesis by simp
  qed simp
qed

lemma gen_version_inv:
  assumes inv: "versions_inv n k v" and k: "k < 100"
    and q: "0 < uint quorum" "uint quorum \<le> int n" and d: "2 \<le> uint depth" "uint depth \<le> 11"
    and run: "gen_version G PubKey quorum depth (word_of_nat k) v r = (Inr v', r')"
  shows "versions_inv n (Suc k) v'"
proof -
  obtain last keys vs where v: "v = (last, keys, vs)" by (cases v)
  let ?k = "word_of_nat k :: u16"
  have "unat ?k = k" using k by (simp add: unat_of_nat take_bit_nat_eq_self)
  then have ver: "(ucast ?k :: u64) = word_of_nat k" by (metis of_nat_unat)
  have "length vs = k" using inv by (auto simp: v versions_inv_def dest: map_eq_imp_length_eq)
  then have take: "take (unat ?k) vs = vs" using \<open>unat ?k = k\<close> by simp
  from run obtain t fee lo hi tlo thi a capHeight cap keys' r1 r2 r3 r4 r5 r6 r7 where
    draws: "Intn G 1000 r = (Inr t, r1)" "gen_amounts G r1 = (Inr (fee, lo, hi), r2)"
      "gen_times G r2 = (Inr (tlo, thi), r3)" "Intn G 100 r3 = (Inr a, r4)"
      "gen_cap G (word_of_int a + last + 1) vs r5 = (Inr (capHeight, cap), r6)"
      "rotateCovenantPks G PubKey keys r6 = (Inr keys', r7)"
    and v': "v' = (word_of_int a + last + 1, go_copy keys keys', vs @
      [\<lparr>params_Version = ucast ?k, StakingCap = cap, CapHeight = capHeight,
        ActivationHeight = u64_of_i32 (word_of_int a + last + 1), Tag = [1, 2, 3, 4], CovenantPks = keys',
        CovenantQuorum = quorum, UnbondingTime = word_of_int (t + 100), UnbondingFee = fee,
        MaxStakingAmount = hi, MinStakingAmount = lo, MaxStakingTime = thi, MinStakingTime = tlo,
        ConfirmationDepth = depth\<rparr>])"
    unfolding gen_version_def v Let_def case_prod_conv take
    by (auto simp: ret_def elim!: bind_Inr_cases)
  have i: "0 \<le> sint last" "sint last \<le> 100 * int k" "length keys = n" "sorted_wrt versions_ordered vs"
      "map params_Version vs = map word_of_nat [0..<k]"
    and vs: "\<forall>p\<in>set vs. limits_ok p \<and> uint (ActivationHeight p) \<le> sint last \<and>
        0 \<le> sint (StakingCap p) \<and> sint (StakingCap p) \<le> 1000000000 * int k"
    using inv by (simp_all add: v versions_inv_def)
  have a: "0 \<le> a" "a < 100" and t: "0 \<le> t" "t < 1000" using Intn_Inr [OF draws(4)] Intn_Inr [OF draws(1)] by simp_all
  let ?h = "word_of_int a + last + 1 :: i32"
  have "sint (word_of_int a + last) = a + sint last"
    using a i k by (subst sint_add_small) (simp_all add: sint_small)
  then have h: "sint ?h = a + sint last + 1" using a i k by (subst sint_add_small) simp_all
  have H: "uint (u64_of_i32 ?h) = a + sint last + 1" unfolding u64_of_i32_def h by (rule uint_small) (use a i k in simp_all)
  note cap = findLastStakingCap_upper [OF i(4)] findLastStakingCap_bound [of vs "1000000000 * int k"]
  have c: "cap = 0 \<or> (\<forall>p\<in>set vs. sint (StakingCap p) < sint cap)" "0 \<le> sint cap" "sint cap \<le> 1000000000 * int (Suc k)"
    using gen_cap_ok [OF draws(5)] cap vs k by force+
  have "limits_ok \<lparr>params_Version = ucast ?k, StakingCap = cap, CapHeight = capHeight,
        ActivationHeight = u64_of_i32 ?h, Tag = [1, 2, 3, 4], CovenantPks = keys',
        CovenantQuorum = quorum, UnbondingTime = word_of_int (t + 100), UnbondingFee = fee,
        MaxStakingAmount = hi, MinStakingAmount = lo, MaxStakingTime = thi, MinStakingTime = tlo,
        ConfirmationDepth = depth\<rparr>"
    using gen_amounts_ok [OF draws(2)] gen_times_ok [OF draws(3)] rotateCovenantPks_length [OF draws(6)] i(3) q d t
      uint_small [of "t + 100", where ?'a = 16]
    by (simp add: limits_ok_def)
  with vs i c a h H show ?thesis
    unfolding v' versions_inv_def case_prod_conv
    by (auto simp: sorted_wrt_append versions_ordered_def word_less_def ver)
qed

lemma gen_versions_inv:
  assumes "versions_inv n k v" and "k + m \<le> 100"
    and "0 < uint quorum" "uint quorum \<le> int n" and "2 \<le> uint depth" "uint depth \<le> 11"
    and "for_acc (map word_of_nat [k..<k + m]) (gen_version G PubKey quorum depth) v r = (Inr v', r')"
  shows "versions_inv n (k + m) v'"
  using assms(1,2,7)
proof (induction m arbitrary: k v r)
  case 0
  then show ?case by (simp add: ret_def)
next
  case (Suc m)
  have "[k..<k + Suc m] = k # [Suc k..<Suc k + m]" by (simp add: upt_conv_Cons del: upt_Suc)
  with Suc.prems(3) obtain v1 r1 where v1: "gen_version G PubKey quorum depth (word_of_nat k) v r = (Inr v1, r1)"
    and rest: "for_acc (map word_of_nat [Suc k..<Suc k + m]) (gen_version G PubKey quorum depth) v1 r1 = (Inr v', r')"
    by (auto simp del: upt_Suc elim: bind_Inr_cases)
  have "versions_inv n (Suc k) v1"
    using gen_version_inv [OF Suc.prems(1) _ assms(3-6) v1] Suc.prems(2) by simp
  from Suc.IH [OF this _ rest] Suc.prems(2) show ?case by simp
qed

end

text \<open>The generator returns, as long as keys can be made.\<close>

lemma returns_replace_key: "returns (NewPrivateKey G) \<Longrightarrow> keys \<noteq> [] \<Longrightarrow> returns (replace_key G PubKey keys)"
  unfolding replace_key_def by (intro returns_rules) simp_all

lemma replace_key_nonempty: "replace_key G PubKey keys r = (Inr keys', r') \<Longrightarrow> keys' = [] \<longleftrightarrow> keys = []"
  by (auto simp: replace_key_def ret_def elim!: bind_Inr_cases)

lemma returns_rotate: "returns (NewPrivateKey G) \<Longrightarrow> keys \<noteq> [] \<Longrightarrow> returns (rotateCovenantPks G PubKey keys)"
  unfolding rotateCovenantPks_def
  by (rule returns_bind_run, erule (1) returns_replace_key)
    (auto dest: replace_key_nonempty intro!: returns_replace_key returns_ret)

lemma returns_gen_version:
  assumes "returns (NewPrivateKey G)" and "fst (snd v) \<noteq> []"
  shows "returns (gen_version G PubKey quorum depth version v)"
  using assms(2)
  by (cases v) (auto simp: gen_version_def gen_amounts_def gen_times_def gen_cap_def Let_def
      intro!: returns_rules returns_rotate [OF assms(1)] split: prod.split)

lemma gen_version_keys:
  "gen_version G PubKey quorum depth version v r = (Inr v', r') \<Longrightarrow> fst (snd v') = [] \<longleftrightarrow> fst (snd v) = []"
  by (cases v) (auto simp: gen_version_def Let_def ret_def go_copy_def elim!: bind_Inr_cases)

lemma returns_gen_versions:
  assumes "returns (NewPrivateKey G)"
  shows "fst (snd v) \<noteq> [] \<Longrightarrow> returns (for_acc vers (gen_version G PubKey quorum depth) v)"
proof (induction vers arbitrary: v)
  case Nil
  show ?case by (simp add: returns_ret)
next
  case (Cons x vers)
  from returns_gen_version [OF assms Cons.prems] show ?case
    unfolding for_acc.simps
  proof (rule returns_bind_run)
    fix r v' r'
    assume "gen_version G PubKey quorum depth x v r = (Inr v', r')"
    from gen_version_keys [OF this] Cons.prems have "fst (snd v') \<noteq> []" by simp
    then show "returns (for_acc vers (gen_version G PubKey quorum depth) v')" by (rule Cons.IH)
  qed
qed

lemma returns_gen_keys: "returns (NewPrivateKey G) \<Longrightarrow> returns (gen_keys G PubKey n)"
  by (induction n) (auto intro!: returns_rules)

lemma returns_GenerateGlobalParamsVersions:
  assumes "random_source G" and "returns (NewPrivateKey G)"
  shows "returns (GenerateGlobalParamsVersions G PubKey)"
proof -
  have "returns (bind (gen_keys G PubKey (nat (c + 1))) (\<lambda>covPks. bind (Intn G (c + 1)) (\<lambda>q. bind (Intn G 10) (\<lambda>d.
      bind (for_acc (map word_of_nat [0..<Suc (unat (word_of_int (n + 1) :: u16))])
        (gen_version G PubKey (word_of_int (q + 1)) (word_of_int (d + 2))) (0, covPks, [])) (\<lambda>v.
      ret (snd (snd v)))))))" if "0 \<le> c" for c n
  proof (rule returns_bind_run [OF returns_gen_keys [OF assms(2)]])
    fix r keys r'
    assume "gen_keys G PubKey (nat (c + 1)) r = (Inr keys, r')"
    from random_source.gen_keys_length [OF assms(1) this] that have "keys \<noteq> []" by auto
    with that show "returns (bind (Intn G (c + 1)) (\<lambda>q. bind (Intn G 10) (\<lambda>d.
        bind (for_acc (map word_of_nat [0..<Suc (unat (word_of_int (n + 1) :: u16))])
          (gen_version G PubKey (word_of_int (q + 1)) (word_of_int (d + 2))) (0, keys, [])) (\<lambda>v.
        ret (snd (snd v))))))"
      by (intro returns_rules returns_gen_versions [OF assms(2)]) simp_all
  qed
  then show ?thesis
    unfolding GenerateGlobalParamsVersions_def Let_def
    by (intro returns_bind [OF returns_Intn] returns_bind_run [OF returns_Intn])
      (auto dest: random_source.Intn_Inr [OF assms(1)])
qed

text \<open>
  The generator of global parameters returns, as long as keys can be made, and what it generates
  is well-formed: 2 to 11 versions, numbered from 0, in order, with ordered limits.
\<close>

lemma generated_params_ok:
  assumes "random_source G" and "returns (NewPrivateKey G)"
  shows "\<exists>vs r'. GenerateGlobalParamsVersions G PubKey r = (Inr vs, r') \<and> 2 \<le> length vs \<and> length vs \<le> 11 \<and>
    map params_Version vs = map word_of_nat [0..<length vs] \<and> sorted_wrt versions_ordered vs \<and>
    (\<forall>p\<in>set vs. limits_ok p)"
proof -
  obtain vs r' where run: "GenerateGlobalParamsVersions G PubKey r = (Inr vs, r')"
    using returnsD [OF returns_GenerateGlobalParamsVersions [OF assms]] by blast
  then obtain n c covPks q d v r1 r2 r3 r4 r5 r6 where
    draws: "Intn G 10 r = (Inr n, r1)" "Intn G 10 r1 = (Inr c, r2)"
      "gen_keys G PubKey (nat (c + 1)) r2 = (Inr covPks, r3)" "Intn G (c + 1) r3 = (Inr q, r4)"
      "Intn G 10 r4 = (Inr d, r5)"
    and acc: "for_acc (map word_of_nat [0..<Suc (unat (word_of_int (n + 1) :: u16))])
      (gen_version G PubKey (word_of_int (q + 1)) (word_of_int (d + 2))) (0, covPks, []) r5 = (Inr v, r6)"
    and vs: "vs = snd (snd v)"
    unfolding GenerateGlobalParamsVersions_def Let_def by (auto simp: ret_def elim!: bind_Inr_cases)
  note range = random_source.Intn_Inr [OF assms(1)]
  have r: "0 \<le> n" "n < 10" "0 \<le> c" "c < 10" "0 \<le> q" "q < c + 1" "0 \<le> d" "d < 10"
    using range [OF draws(1)] range [OF draws(2)] range [OF draws(4)] range [OF draws(5)] by simp_all
  have u: "uint (word_of_int (n + 1) :: u16) = n + 1" "uint (word_of_int (q + 1) :: u32) = q + 1"
    "uint (word_of_int (d + 2) :: u16) = d + 2" by (rule uint_small; use r in simp)+
  define m where "m = Suc (unat (word_of_int (n + 1) :: u16))"
  have m: "int m = n + 2" using u(1) r by (simp add: m_def nat_add_distrib)
  have "versions_inv (nat (c + 1)) 0 (0, covPks, [])"
    using random_source.gen_keys_length [OF assms(1) draws(3)] by (simp add: versions_inv_def)
  moreover have "0 + m \<le> 100" "0 < uint (word_of_int (q + 1) :: u32)" "uint (word_of_int (q + 1) :: u32) \<le> int (nat (c + 1))"
    "2 \<le> uint (word_of_int (d + 2) :: u16)" "uint (word_of_int (d + 2) :: u16) \<le> 11"
    unfolding u using m r by simp_all
  ultimately have "versions_inv (nat (c + 1)) (0 + m) v"
    by (rule random_source.gen_versions_inv [OF assms(1)]) (use acc in \<open>simp add: m_def del: upt_Suc\<close>)
  then have inv: "map params_Version vs = map word_of_nat [0..<m]" "sorted_wrt versions_ordered vs"
    "\<forall>p\<in>set vs. limits_ok p"
    by (simp_all add: versions_inv_def vs case_prod_beta)
  from map_eq_imp_length_eq [OF inv(1)] have "length vs = m" by simp
  with inv m r run show ?thesis by (intro exI [of _ vs] exI [of _ r']) simp
qed

end
