(* ===== verification/Datagen_Staking.thy ===== *)
theory Datagen_Staking
  imports Datagen_Blocks Datagen_Params Validation
begin

text \<open>
  The generators of staking data and transactions, \<open>testutils/datagen/staking.go\<close>, and what
  they are for: the generated data passes the validation of the indexer, and the generated
  unbonding and withdrawal transactions are accepted as such.
\<close>

section \<open>The libraries\<close>

text \<open>
  The calls of \<open>btcstaking\<close>, \<open>wire\<close>, \<open>btcutil\<close> and \<open>btcec\<close> beside those that the indexer
  makes. \<open>round64\<close> is the rounding of a real number to a \<open>float64\<close>.
\<close>

record staking_lib = btcstaking +
  BuildV0IdentifiableStakingOutputs ::
    "bytes \<Rightarrow> PublicKey \<Rightarrow> PublicKey \<Rightarrow> PublicKey list \<Rightarrow> u32 \<Rightarrow> u16 \<Rightarrow> i64 \<Rightarrow> net_params \<Rightarrow> lib_error + StakingInfo"
  BuildV0IdentifiableStakingOutputsAndTx ::
    "bytes \<Rightarrow> PublicKey \<Rightarrow> PublicKey \<Rightarrow> PublicKey list \<Rightarrow> u32 \<Rightarrow> u16 \<Rightarrow> i64 \<Rightarrow> net_params \<Rightarrow>
      lib_error + (StakingInfo \<times> MsgTx)"
  CreateWitness :: "SpendInfo \<Rightarrow> bytes list \<Rightarrow> lib_error + bytes list"
  NewMsgTx :: "i32 \<Rightarrow> MsgTx"
  NewTxIn :: "OutPoint \<Rightarrow> bytes \<Rightarrow> bytes list \<Rightarrow> TxIn"
  NewTx :: "MsgTx \<Rightarrow> btcutil_Tx"
  MulF64 :: "i64 \<Rightarrow> real \<Rightarrow> i64"
  PubKey :: "PrivateKey \<Rightarrow> PublicKey"
  SigNet :: net_params
  round64 :: "real \<Rightarrow> real"

section \<open>The generators\<close>

record TestStakingData =
  StakerKey :: PublicKey
  FinalityProviderKey :: PublicKey
  StakingAmount :: i64
  test_StakingTime :: u16

definition GenerateTestStakingData ::
    "'r random \<Rightarrow> staking_lib \<Rightarrow> ParsedVersionedGlobalParams \<Rightarrow> ('r, TestStakingData) prog" where
  "GenerateTestStakingData G L params =
     bind (NewPrivateKey G) (\<lambda>stakerPrivKey.
     bind (NewPrivateKey G) (\<lambda>fpPrivKey.
     bind (Int63n G (MaxStakingAmount params - MinStakingAmount params)) (\<lambda>a.
     let stakingAmount = a + MinStakingAmount params + 1 in
     bind (Intn G (uint (MaxStakingTime params - MinStakingTime params))) (\<lambda>t.
     let stakingTime = word_of_int (t + uint (MinStakingTime params)) in
     ret \<lparr>StakerKey = PubKey L stakerPrivKey, FinalityProviderKey = PubKey L fpPrivKey,
          StakingAmount = stakingAmount, test_StakingTime = stakingTime\<rparr>))))"

definition AddTxIn :: "TxIn \<Rightarrow> MsgTx \<Rightarrow> MsgTx" where
  "AddTxIn txIn tx = tx\<lparr>TxIn := TxIn tx @ [txIn]\<rparr>"

definition AddTxOut :: "TxOut \<Rightarrow> MsgTx \<Rightarrow> MsgTx" where
  "AddTxOut txOut tx = tx\<lparr>TxOut := TxOut tx @ [txOut]\<rparr>"

text \<open>\<open>wire.OutPoint{Hash: chainhash.HashH(GenRandomByteArray(r, 10)), Index: r.Uint32()}\<close>\<close>

definition random_OutPoint :: "'r random \<Rightarrow> block_lib \<Rightarrow> ('r, OutPoint) prog" where
  "random_OutPoint G K =
     bind (draw (next_ByteArray G 10)) (\<lambda>b.
     bind (draw (next_Uint32 G)) (\<lambda>index. ret \<lparr>Hash = HashH K b, Index = index\<rparr>))"

definition GenerateStakingTxFromTestData ::
    "'r random \<Rightarrow> block_lib \<Rightarrow> staking_lib \<Rightarrow> ParsedVersionedGlobalParams \<Rightarrow> TestStakingData \<Rightarrow>
      ('r, StakingInfo \<times> btcutil_Tx) prog" where
  "GenerateStakingTxFromTestData G K L params stakingData =
     bind (require_NoError (BuildV0IdentifiableStakingOutputsAndTx L (Tag params) (StakerKey stakingData)
       (FinalityProviderKey stakingData) (CovenantPks params) (CovenantQuorum params)
       (test_StakingTime stakingData) (StakingAmount stakingData) (SigNet L))) (\<lambda>(stakingInfo, tx).
     bind (random_OutPoint G K) (\<lambda>previous.
     bind (draw (next_ByteArray G 10)) (\<lambda>script.
     bind (draw (next_Uint32 G)) (\<lambda>sequence.
     let txIn = \<lparr>PreviousOutPoint = previous, SignatureScript = script, Witness = [], Sequence = sequence\<rparr> in
     ret (stakingInfo, NewTx L (AddTxIn txIn tx))))))"

definition staking_outputs ::
    "staking_lib \<Rightarrow> ParsedVersionedGlobalParams \<Rightarrow> TestStakingData \<Rightarrow> ('r, StakingInfo) prog" where
  "staking_outputs L params stakingData =
     require_NoError (BuildV0IdentifiableStakingOutputs L (Tag params) (StakerKey stakingData)
       (FinalityProviderKey stakingData) (CovenantPks params) (CovenantQuorum params)
       (test_StakingTime stakingData) (StakingAmount stakingData) (SigNet L))"

definition unbonding_info ::
    "staking_lib \<Rightarrow> ParsedVersionedGlobalParams \<Rightarrow> TestStakingData \<Rightarrow> i64 \<Rightarrow> ('r, UnbondingInfo) prog" where
  "unbonding_info L params stakingData amount =
     require_NoError (BuildUnbondingInfo L (StakerKey stakingData) [FinalityProviderKey stakingData]
       (CovenantPks params) (CovenantQuorum params) (UnbondingTime params) amount (SigNet L))"

definition GenerateUnbondingTxFromStaking ::
    "staking_lib \<Rightarrow> ParsedVersionedGlobalParams \<Rightarrow> TestStakingData \<Rightarrow> hash \<Rightarrow> u32 \<Rightarrow> ('r, btcutil_Tx) prog" where
  "GenerateUnbondingTxFromStaking L params stakingData stakingTxHash stakingOutputIdx =
     bind (staking_outputs L params stakingData) (\<lambda>stakingInfo.
     bind (require_NoError (UnbondingPathSpendInfo stakingInfo)) (\<lambda>unbondingSpendInfo.
     bind (unbonding_info L params stakingData (StakingAmount stakingData - UnbondingFee params)) (\<lambda>unbondingInfo.
     bind (require_NoError (CreateWitness L unbondingSpendInfo [])) (\<lambda>witness.
     let tx1 = AddTxIn (NewTxIn L \<lparr>Hash = stakingTxHash, Index = stakingOutputIdx\<rparr> [] witness) (NewMsgTx L 2);
         tx2 = tx1\<lparr>TxIn := (TxIn tx1)[0 := (TxIn tx1 ! 0)\<lparr>Sequence := MaxTxInSequenceNum\<rparr>]\<rparr>;
         unbondingTx = AddTxOut (UnbondingOutput unbondingInfo) tx2 in
     ret (NewTx L unbondingTx)))))"

text \<open>A withdrawal has a second input that spends something else.\<close>

definition withdrawal_tx ::
    "'r random \<Rightarrow> block_lib \<Rightarrow> staking_lib \<Rightarrow> OutPoint \<Rightarrow> SpendInfo \<Rightarrow> ('r, btcutil_Tx) prog" where
  "withdrawal_tx G K L outPoint spendInfo =
     bind (require_NoError (CreateWitness L spendInfo [])) (\<lambda>witness.
     let tx1 = AddTxIn (NewTxIn L outPoint [] witness) (NewMsgTx L 2) in
     bind (random_OutPoint G K) (\<lambda>randomOutput.
     bind (draw (next_ByteArray G 10)) (\<lambda>script.
     ret (NewTx L (AddTxIn (NewTxIn L randomOutput script []) tx1)))))"

definition GenerateWithdrawalTxFromStaking ::
    "'r random \<Rightarrow> block_lib \<Rightarrow> staking_lib \<Rightarrow> ParsedVersionedGlobalParams \<Rightarrow> TestStakingData \<Rightarrow> hash \<Rightarrow> u32 \<Rightarrow>
      ('r, btcutil_Tx) prog" where
  "GenerateWithdrawalTxFromStaking G K L params stakingData stakingTxHash stakingOutputIdx =
     bind (staking_outputs L params stakingData) (\<lambda>stakingInfo.
     bind (require_NoError (TimeLockPathSpendInfo stakingInfo)) (\<lambda>timelockSpendInfo.
     withdrawal_tx G K L \<lparr>Hash = stakingTxHash, Index = stakingOutputIdx\<rparr> timelockSpendInfo))"

definition GenerateWithdrawalTxFromUnbonding ::
    "'r random \<Rightarrow> block_lib \<Rightarrow> staking_lib \<Rightarrow> ParsedVersionedGlobalParams \<Rightarrow> TestStakingData \<Rightarrow> hash \<Rightarrow>
      ('r, btcutil_Tx) prog" where
  "GenerateWithdrawalTxFromUnbonding G K L params stakingData unbondingTxHash =
     bind (unbonding_info L params stakingData (MulF64 L (StakingAmount stakingData) 0.9)) (\<lambda>unbondingInfo.
     bind (require_NoError (unbonding_TimeLockPathSpendInfo unbondingInfo)) (\<lambda>withdrawSpendInfo.
     withdrawal_tx G K L \<lparr>Hash = unbondingTxHash, Index = 0\<rparr> withdrawSpendInfo))"

text \<open>Stored transactions. The value is drawn in bitcoin, between 0.1 and 1000, as a \<open>float64\<close>,
  and truncated to satoshi.\<close>

definition random_value :: "staking_lib \<Rightarrow> real \<Rightarrow> i64" where
  "random_value L x =
     (let randomBTC = round64 L (round64 L (x * round64 L 999.8) + round64 L 0.1) in
      word_of_int \<lfloor>round64 L (randomBTC * 100000000)\<rfloor>)"

definition genStoredStakingTx ::
    "'r random \<Rightarrow> block_lib \<Rightarrow> staking_lib \<Rightarrow> u16 \<Rightarrow> u64 \<Rightarrow> ('r, StoredStakingTransaction) prog" where
  "genStoredStakingTx G K L maxStakingTime inclusionHeight =
     bind (GenRandomTx G K) (\<lambda>btcTx.
     bind (draw (next_Uint32 G)) (\<lambda>outputIdx.
     bind (Int31n G (ucast maxStakingTime)) (\<lambda>x.
     let stakingTime = x + 1 in
     bind (NewPrivateKey G) (\<lambda>stakerPrivKey.
     bind (NewPrivateKey G) (\<lambda>fpPrivKey.
     bind (draw (next_Float64 G)) (\<lambda>f.
     ret \<lparr>Tx = btcTx, StakingOutputIdx = outputIdx, InclusionHeight = inclusionHeight,
          StakerPk = PubKey L stakerPrivKey, StakingTime = stakingTime,
          FinalityProviderPk = PubKey L fpPrivKey, IsOverflow = False, StakingValue = random_value L f\<rparr>))))))"

definition genStoredUnbondingTx :: "'r random \<Rightarrow> block_lib \<Rightarrow> hash \<Rightarrow> ('r, StoredUnbondingTransaction) prog" where
  "genStoredUnbondingTx G K stakingTxHash =
     bind (GenRandomTx G K) (\<lambda>btcTx. ret \<lparr>unbonding_Tx = btcTx, StakingTxHash = stakingTxHash\<rparr>)"

text \<open>A loop that stores the result of every round in a slice.\<close>

primrec collect :: "'a list \<Rightarrow> ('a \<Rightarrow> ('s, 'b) prog) \<Rightarrow> ('s, 'b list) prog" where
  "collect [] body = ret []"
| "collect (x # xs) body = bind (body x) (\<lambda>y. bind (collect xs body) (\<lambda>ys. ret (y # ys)))"

definition GenNStoredStakingTxs ::
    "'r random \<Rightarrow> block_lib \<Rightarrow> staking_lib \<Rightarrow> int \<Rightarrow> u16 \<Rightarrow> ('r, StoredStakingTransaction list) prog" where
  "GenNStoredStakingTxs G K L n maxStakingTime =
     (if n < 0 then panic ''makeslice: len out of range''
      else
        bind (Int63n G 10000) (\<lambda>x.
        let startingHeight = x + 1 in
        collect [0..<nat n] (\<lambda>i. genStoredStakingTx G K L maxStakingTime (startingHeight + word_of_nat i))))"

definition GenStoredUnbondingTxs ::
    "'r random \<Rightarrow> block_lib \<Rightarrow> (MsgTx \<Rightarrow> hash) \<Rightarrow> StoredStakingTransaction list \<Rightarrow>
      ('r, StoredUnbondingTransaction list) prog" where
  "GenStoredUnbondingTxs G K txHash stakingTxs =
     collect stakingTxs (\<lambda>st. genStoredUnbondingTx G K (txHash (Tx st)))"

section \<open>Staking data\<close>

lemma sint_sub_small:
  fixes a b :: "'a :: len word"
  assumes "- (2 ^ (LENGTH('a) - 1)) \<le> sint a - sint b" and "sint a - sint b < 2 ^ (LENGTH('a) - 1)"
  shows "sint (a - b) = sint a - sint b"
proof -
  have "a - b = word_of_int (sint a - sint b)" by simp
  then show ?thesis
    using assms by (simp only: sint_sbintrunc' signed_take_bit_int_eq_self)
qed

lemma sint_upper: "sint (x :: i64) < 2 ^ 63"
  using sint_lt [of x] by simp

text \<open>An amount and a time drawn between ordered limits.\<close>

lemma drawn_amount:
  fixes lo hi a :: i64
  assumes "0 < sint lo" and "0 \<le> sint a" and "sint a < sint hi - sint lo"
  shows "sint lo \<le> sint (a + lo + 1)" and "sint (a + lo + 1) \<le> sint hi"
proof -
  have "sint (a + lo) = sint a + sint lo"
    by (rule sint_add_small) (use assms sint_upper [of hi] in simp_all)
  moreover from this have "sint (a + lo + 1) = sint (a + lo) + sint (1 :: i64)"
    by (intro sint_add_small) (use assms sint_upper [of hi] in simp_all)
  ultimately have "sint (a + lo + 1) = sint a + sint lo + 1" by simp
  with assms show "sint lo \<le> sint (a + lo + 1)" "sint (a + lo + 1) \<le> sint hi" by simp_all
qed

lemma drawn_time:
  fixes lo hi :: u16
  assumes "0 \<le> t" and "t < uint hi - uint lo"
  shows "uint lo \<le> uint (word_of_int (t + uint lo) :: u16)" and "uint (word_of_int (t + uint lo) :: u16) \<le> uint hi"
proof -
  have "uint hi < 2 ^ 16" using uint_lt2p [of hi] by simp
  then have "uint (word_of_int (t + uint lo) :: u16) = t + uint lo"
    by (intro uint_small) (use assms in simp_all)
  with assms show "uint lo \<le> uint (word_of_int (t + uint lo) :: u16)" "uint (word_of_int (t + uint lo) :: u16) \<le> uint hi"
    by simp_all
qed

lemma limits_diff:
  assumes "limits_ok params"
  shows "sint (MaxStakingAmount params - MinStakingAmount params) =
      sint (MaxStakingAmount params) - sint (MinStakingAmount params)"
    and "uint (MaxStakingTime params - MinStakingTime params) = uint (MaxStakingTime params) - uint (MinStakingTime params)"
proof -
  show "sint (MaxStakingAmount params - MinStakingAmount params) =
      sint (MaxStakingAmount params) - sint (MinStakingAmount params)"
    by (rule sint_sub_small) (use assms sint_upper [of "MaxStakingAmount params"] in \<open>simp_all add: limits_ok_def\<close>)
  show "uint (MaxStakingTime params - MinStakingTime params) = uint (MaxStakingTime params) - uint (MinStakingTime params)"
    using assms by (simp add: limits_ok_def uint_sub_if_size)
qed

lemma data_valid:
  assumes G: "random_source G" and keys: "returns (NewPrivateKey G)" and p: "limits_ok params"
  shows "if MinStakingAmount params = MaxStakingAmount params
    then \<exists>r'. GenerateTestStakingData G L params r = (Inl (Panic ''invalid argument to Int63n''), r')
    else \<exists>data r'. GenerateTestStakingData G L params r = (Inr data, r') \<and>
      (\<forall>sd. Value (StakingOutput sd) = StakingAmount data \<longrightarrow>
        op_StakingTime (OpReturnData sd) = test_StakingTime data \<longrightarrow> validateStakingTx params sd = Inr ())"
proof -
  let ?lo = "MinStakingAmount params" and ?hi = "MaxStakingAmount params"
  let ?tlo = "MinStakingTime params" and ?thi = "MaxStakingTime params"
  note diff = limits_diff [OF p]
  have l: "0 < sint ?lo" "sint ?lo \<le> sint ?hi" "uint ?tlo < uint ?thi" using p by (auto simp: limits_ok_def)
  obtain k1 r1 where k1: "NewPrivateKey G r = (Inr k1, r1)" using returnsD [OF keys] by blast
  obtain k2 r2 where k2: "NewPrivateKey G r1 = (Inr k2, r2)" using returnsD [OF keys] by blast
  show ?thesis
  proof (cases "?lo = ?hi")
    case True
    then show ?thesis by (simp add: GenerateTestStakingData_def bind_def k1 k2 Int63n_def panic_def)
  next
    case False
    then have "sint ?lo \<noteq> sint ?hi" using signed_word_eqI by blast
    then have "returns (Int63n G (?hi - ?lo))" using l diff by (intro returns_Int63n) simp
    from returnsD [OF this, of r2] obtain a r3 where a: "Int63n G (?hi - ?lo) r2 = (Inr a, r3)" by blast
    have "returns (Intn G (uint (?thi - ?tlo)))" using l diff by (intro returns_Intn) simp
    from returnsD [OF this, of r3] obtain t r4 where t: "Intn G (uint (?thi - ?tlo)) r3 = (Inr t, r4)" by blast
    let ?data = "\<lparr>StakerKey = PubKey L k1, FinalityProviderKey = PubKey L k2, StakingAmount = a + ?lo + 1,
      test_StakingTime = word_of_int (t + uint ?tlo)\<rparr>"
    have run: "GenerateTestStakingData G L params r = (Inr ?data, r4)"
      by (simp add: GenerateTestStakingData_def bind_def k1 k2 a t Let_def ret_def)
    have amount: "sint ?lo \<le> sint (a + ?lo + 1)" "sint (a + ?lo + 1) \<le> sint ?hi"
      using random_source.Int63n_Inr [OF G a] diff l
      by (intro drawn_amount [of ?lo a ?hi]; simp)+
    have time: "uint ?tlo \<le> uint (word_of_int (t + uint ?tlo) :: u16)" "uint (word_of_int (t + uint ?tlo) :: u16) \<le> uint ?thi"
      using random_source.Intn_Inr [OF G t] diff
      by (intro drawn_time [of t ?thi ?tlo]; simp)+
    have up: "uint (ucast x :: u64) = uint x" for x :: u16
      by (simp add: unsigned_ucast_eq take_bit_int_eq_self uint_lt2p [THEN less_trans])
    have "validateStakingTx params sd = Inr ()"
      if "Value (StakingOutput sd) = a + ?lo + 1" "op_StakingTime (OpReturnData sd) = word_of_int (t + uint ?tlo)" for sd
      unfolding validateStakingTx_def Let_def that word_less_def up using amount time by simp
    with run False show ?thesis by auto
  qed
qed

text \<open>C38: the generators of test data agree with the indexer. The generator of global parameters
  returns 2 to 11 versions with increasing activation heights, increasing staking caps and
  ordered limits; for each of them the generator of staking data returns an amount and a time
  that pass the validation of the indexer, except where the minimum and the maximum amount are
  equal, which the generator of parameters allows: there it panics.\<close>

theorem generated_data_valid:
  assumes "random_source G" and "returns (NewPrivateKey G)"
  shows "\<exists>vs r1. GenerateGlobalParamsVersions G (PubKey L) r = (Inr vs, r1) \<and> 2 \<le> length vs \<and> length vs \<le> 11 \<and>
    map params_Version vs = map word_of_nat [0..<length vs] \<and> sorted_wrt versions_ordered vs \<and>
    (\<forall>params\<in>set vs. limits_ok params \<and>
      (if MinStakingAmount params = MaxStakingAmount params
       then \<exists>r'. GenerateTestStakingData G L params r1 = (Inl (Panic ''invalid argument to Int63n''), r')
       else \<exists>data r'. GenerateTestStakingData G L params r1 = (Inr data, r') \<and>
         (\<forall>sd. Value (StakingOutput sd) = StakingAmount data \<longrightarrow>
           op_StakingTime (OpReturnData sd) = test_StakingTime data \<longrightarrow> validateStakingTx params sd = Inr ())))"
proof -
  from generated_params_ok [OF assms, of "PubKey L" r] obtain vs r1 where
    vs: "GenerateGlobalParamsVersions G (PubKey L) r = (Inr vs, r1)" "2 \<le> length vs" "length vs \<le> 11"
      "map params_Version vs = map word_of_nat [0..<length vs]" "sorted_wrt versions_ordered vs"
      "\<forall>p\<in>set vs. limits_ok p" by blast
  show ?thesis
    by (intro exI [of _ vs] exI [of _ r1] conjI ballI data_valid [OF assms]) (use vs in simp_all)
qed

section \<open>Stored transactions\<close>

lemma collect_all2:
  "collect xs body r = (Inr ys, r') \<Longrightarrow> list_all2 (\<lambda>x y. \<exists>r r'. body x r = (Inr y, r')) xs ys"
  by (induction xs arbitrary: r ys) (auto simp: ret_def elim!: bind_Inr_cases, blast)

text \<open>The generated staking transactions are as many as asked for, at consecutive heights; the
  unbonding transactions refer to them one by one.\<close>

lemma GenNStoredStakingTxs_made:
  assumes "GenNStoredStakingTxs G K L n maxStakingTime r = (Inr sts, r')"
  obtains h where "length sts = nat n" and "map InclusionHeight sts = map (\<lambda>i. h + word_of_nat i) [0..<nat n]"
    and "\<forall>st\<in>set sts. \<not> IsOverflow st"
proof -
  from assms obtain h r1 where "collect [0..<nat n] (\<lambda>i. genStoredStakingTx G K L maxStakingTime (h + word_of_nat i)) r1 = (Inr sts, r')"
    by (auto simp: GenNStoredStakingTxs_def panic_def Let_def elim!: bind_Inr_cases split: if_splits)
  from collect_all2 [OF this] have all: "list_all2 (\<lambda>i st. InclusionHeight st = h + word_of_nat i \<and> \<not> IsOverflow st) [0..<nat n] sts"
    by (rule list_all2_mono) (auto simp: genStoredStakingTx_def Let_def ret_def elim!: bind_Inr_cases)
  then have "length sts = nat n" by (auto dest: list_all2_lengthD)
  moreover from all have "map InclusionHeight sts = map (\<lambda>i. h + word_of_nat i) [0..<nat n]"
    by (auto simp: list_all2_conv_all_nth intro!: nth_equalityI)
  moreover from all have "\<forall>st\<in>set sts. \<not> IsOverflow st"
    by (auto simp: list_all2_conv_all_nth in_set_conv_nth)
  ultimately show ?thesis by (rule that)
qed

lemma GenStoredUnbondingTxs_made:
  assumes "GenStoredUnbondingTxs G K txHash sts r = (Inr uts, r')"
  shows "map StakingTxHash uts = map (\<lambda>st. txHash (Tx st)) sts"
proof -
  have "list_all2 (\<lambda>st ut. StakingTxHash ut = txHash (Tx st)) sts uts"
    using collect_all2 [OF assms [unfolded GenStoredUnbondingTxs_def]]
    by (rule list_all2_mono) (auto simp: genStoredUnbondingTx_def ret_def elim!: bind_Inr_cases)
  then show ?thesis by (auto simp: list_all2_conv_all_nth intro!: nth_equalityI)
qed

section \<open>Transactions\<close>

text \<open>
  What the libraries document: \<open>wire\<close>'s constructors, the position of the script in a
  witness, what a transfer is, that the staking outputs are spent like the staking info built
  from the same data, and that the paths of an unbonding output do not depend on its value.
\<close>

locale staking_tools =
  fixes L :: staking_lib
  assumes new_tx: "NewMsgTx L v = \<lparr>tx_Version = v, TxIn = [], TxOut = [], LockTime = 0\<rparr>"
    and new_txin: "NewTxIn L op script wit =
      \<lparr>PreviousOutPoint = op, SignatureScript = script, Witness = wit, Sequence = MaxTxInSequenceNum\<rparr>"
    and wrapped: "MsgTx_of (NewTx L tx) = tx"
    and witness_script: "CreateWitness L spend sigs = Inr w \<Longrightarrow>
      \<not> length w < 2 \<and> w ! (length w - 2) = GetPkScriptPath spend"
    and transfer: "length (TxIn tx) = 1 \<Longrightarrow> length (TxOut tx) = 1 \<Longrightarrow> IsTransferTx L tx = None"
    and staking_paths: "BuildV0IdentifiableStakingOutputs L tag pk fp cov q time amount net = Inr info \<Longrightarrow>
      \<exists>info'. BuildStakingInfo L pk [fp] cov q time amount net = Inr info' \<and>
        TimeLockPathSpendInfo info' = TimeLockPathSpendInfo info \<and>
        UnbondingPathSpendInfo info' = UnbondingPathSpendInfo info"
    and unbonding_paths: "BuildUnbondingInfo L pk fps cov q utime amount net = Inr u \<Longrightarrow>
      \<exists>u'. BuildUnbondingInfo L pk fps cov q utime amount' net = Inr u' \<and>
        unbonding_TimeLockPathSpendInfo u' = unbonding_TimeLockPathSpendInfo u"

text \<open>An indexer on the same library, and the stored transaction of the test data.\<close>

definition same_lib :: "'db StakingIndexer \<Rightarrow> staking_lib \<Rightarrow> bool" where
  "same_lib si L \<longleftrightarrow> lib si = btcstaking.truncate L \<and> BTCNetParams si = SigNet L"

definition stored_data :: "TestStakingData \<Rightarrow> StoredStakingTransaction \<Rightarrow> bool" where
  "stored_data data st \<longleftrightarrow> StakerPk st = StakerKey data \<and> FinalityProviderPk st = FinalityProviderKey data \<and>
     StakingTime st = ucast (test_StakingTime data) \<and> StakingValue st = StakingAmount data \<and>
     unat (StakingOutputIdx st) < length (TxOut (Tx st)) \<and>
     Value (TxOut (Tx st) ! unat (StakingOutputIdx st)) = StakingAmount data"

lemma same_lib_calls:
  assumes "same_lib si L" and "stored_data data st"
  shows "IsTransferTx (lib si) = IsTransferTx L"
    and "rebuildStakingInfo si st params = BuildStakingInfo L (StakerKey data) [FinalityProviderKey data]
      (CovenantPks params) (CovenantQuorum params) (test_StakingTime data) (StakingAmount data) (SigNet L)"
    and "rebuildUnbondingInfo si st params amount = BuildUnbondingInfo L (StakerKey data) [FinalityProviderKey data]
      (CovenantPks params) (CovenantQuorum params) (UnbondingTime params) amount (SigNet L)"
proof -
  have "(ucast (ucast (test_StakingTime data) :: u32) :: u16) = test_StakingTime data"
    by (rule bit_word_eqI) (auto simp: bit_simps)
  with assms show "rebuildStakingInfo si st params = BuildStakingInfo L (StakerKey data) [FinalityProviderKey data]
      (CovenantPks params) (CovenantQuorum params) (test_StakingTime data) (StakingAmount data) (SigNet L)"
    by (simp add: rebuildStakingInfo_def same_lib_def stored_data_def btcstaking.truncate_def)
qed (use assms in \<open>simp_all add: same_lib_def stored_data_def btcstaking.truncate_def rebuildUnbondingInfo_def\<close>)

context staking_tools
begin

lemma witness_length: "CreateWitness L spend sigs = Inr w \<Longrightarrow> length w - 2 < length w"
  using witness_script [of spend sigs w] by arith

text \<open>A transaction of the form of an unbonding transaction is accepted.\<close>

lemma unbonding_form_accepted:
  assumes "same_lib si L"
    and tx: "TxIn tx = [\<lparr>PreviousOutPoint = \<lparr>Hash = TxHash (store si) (Tx st), Index = StakingOutputIdx st\<rparr>,
      SignatureScript = script, Witness = w, Sequence = MaxTxInSequenceNum\<rparr>]"
      "TxOut tx = [UnbondingOutput u]" "LockTime tx = 0"
    and info: "rebuildStakingInfo si st params = Inr info" "UnbondingPathSpendInfo info = Inr spend"
    and w: "\<not> length w < 2 \<and> w ! (length w - 2) = GetPkScriptPath spend"
    and out: "unat (StakingOutputIdx st) < length (TxOut (Tx st))" "Value (TxOut (Tx st) ! unat (StakingOutputIdx st)) = amount"
    and fee: "0 < sint (amount - UnbondingFee params)"
    and u: "rebuildUnbondingInfo si st params (amount - UnbondingFee params) = Inr u"
  shows "IsValidUnbondingTx si tx st params = Inr True"
proof -
  have "IsTransferTx (lib si) tx = None"
    using assms(1) transfer [of tx] tx(1,2) by (simp add: same_lib_def btcstaking.truncate_def)
  moreover have "length w - 2 < length w" using w by arith
  ultimately show ?thesis
    using assms by (simp add: IsValidUnbondingTx_def slice_index_def script_from_witness_def Let_def)
qed

lemma unbonding_accepted:
  assumes si: "same_lib si L" "stored_data data st"
    and fee: "0 < sint (StakingAmount data - UnbondingFee params)"
    and run: "GenerateUnbondingTxFromStaking L params data (TxHash (store si) (Tx st)) (StakingOutputIdx st) r = (Inr tx, r')"
  shows "IsValidUnbondingTx si (MsgTx_of tx) st params = Inr True"
proof -
  note calls = same_lib_calls [OF si]
  from run obtain info spend uinfo w where
    info: "BuildV0IdentifiableStakingOutputs L (Tag params) (StakerKey data) (FinalityProviderKey data)
      (CovenantPks params) (CovenantQuorum params) (test_StakingTime data) (StakingAmount data) (SigNet L) = Inr info"
    and spend: "UnbondingPathSpendInfo info = Inr spend" and w: "CreateWitness L spend [] = Inr w"
    and uinfo: "BuildUnbondingInfo L (StakerKey data) [FinalityProviderKey data] (CovenantPks params)
      (CovenantQuorum params) (UnbondingTime params) (StakingAmount data - UnbondingFee params) (SigNet L) = Inr uinfo"
    and tx: "MsgTx_of tx = \<lparr>tx_Version = 2,
      TxIn = [\<lparr>PreviousOutPoint = \<lparr>Hash = TxHash (store si) (Tx st), Index = StakingOutputIdx st\<rparr>,
        SignatureScript = [], Witness = w, Sequence = MaxTxInSequenceNum\<rparr>],
      TxOut = [UnbondingOutput uinfo], LockTime = 0\<rparr>"
    by (auto simp: GenerateUnbondingTxFromStaking_def staking_outputs_def unbonding_info_def Let_def AddTxIn_def
        AddTxOut_def new_tx new_txin wrapped ret_def elim!: bind_Inr_cases)
  from staking_paths [OF info] spend obtain info' where info': "rebuildStakingInfo si st params = Inr info'"
    "UnbondingPathSpendInfo info' = Inr spend" by (auto simp: calls)
  show ?thesis
    by (rule unbonding_form_accepted [OF si(1) _ _ _ info' witness_script [OF w], where amount = "StakingAmount data"])
      (use si(2) fee uinfo in \<open>simp_all add: tx stored_data_def calls\<close>)
qed

text \<open>The first input of a withdrawal carries the script of its path.\<close>

lemma withdrawal_tx_script:
  assumes "withdrawal_tx G K L op info r = (Inr tx, r')"
  shows "script_from_witness (MsgTx_of tx) 0 = Inr (GetPkScriptPath info)"
proof -
  from assms obtain w txIn2 where w: "CreateWitness L info [] = Inr w"
    and tx: "TxIn (MsgTx_of tx) = [\<lparr>PreviousOutPoint = op, SignatureScript = [], Witness = w,
      Sequence = MaxTxInSequenceNum\<rparr>, txIn2]"
    by (auto simp: withdrawal_tx_def AddTxIn_def new_tx new_txin wrapped Let_def ret_def elim!: bind_Inr_cases)
  from witness_script [OF w] witness_length [OF w] show ?thesis
    by (simp add: script_from_witness_def slice_index_def tx)
qed

lemma withdrawal_from_staking_accepted:
  assumes si: "same_lib si L" "stored_data data st"
    and run: "GenerateWithdrawalTxFromStaking G K L params data h idx r = (Inr tx, r')"
  shows "ValidateWithdrawalTxFromStaking si (MsgTx_of tx) st 0 params = Inr ()"
proof -
  from run obtain info spend r1 where
    info: "BuildV0IdentifiableStakingOutputs L (Tag params) (StakerKey data) (FinalityProviderKey data)
      (CovenantPks params) (CovenantQuorum params) (test_StakingTime data) (StakingAmount data) (SigNet L) = Inr info"
    and spend: "TimeLockPathSpendInfo info = Inr spend"
    and tx: "withdrawal_tx G K L \<lparr>Hash = h, Index = idx\<rparr> spend r1 = (Inr tx, r')"
    by (auto simp: GenerateWithdrawalTxFromStaking_def staking_outputs_def elim!: bind_Inr_cases)
  from staking_paths [OF info] spend withdrawal_tx_script [OF tx] show ?thesis
    by (auto simp: ValidateWithdrawalTxFromStaking_def same_lib_calls [OF si])
qed

lemma withdrawal_from_unbonding_accepted:
  assumes si: "same_lib si L" "stored_data data st"
    and run: "GenerateWithdrawalTxFromUnbonding G K L params data h r = (Inr tx, r')"
  shows "ValidateWithdrawalTxFromUnbonding si (MsgTx_of tx) st 0 params = Inr ()"
proof -
  from run obtain uinfo spend r1 where
    uinfo: "BuildUnbondingInfo L (StakerKey data) [FinalityProviderKey data] (CovenantPks params)
      (CovenantQuorum params) (UnbondingTime params) (MulF64 L (StakingAmount data) 0.9) (SigNet L) = Inr uinfo"
    and spend: "unbonding_TimeLockPathSpendInfo uinfo = Inr spend"
    and tx: "withdrawal_tx G K L \<lparr>Hash = h, Index = 0\<rparr> spend r1 = (Inr tx, r')"
    by (auto simp: GenerateWithdrawalTxFromUnbonding_def unbonding_info_def elim!: bind_Inr_cases)
  from unbonding_paths [OF uinfo, of "StakingValue st - UnbondingFee params"] spend withdrawal_tx_script [OF tx]
  show ?thesis
    by (auto simp: ValidateWithdrawalTxFromUnbonding_def same_lib_calls [OF si])
qed

end

text \<open>C37: the generated transactions are what the indexer accepts. For a staking transaction that is
  stored with the test data, on the same library and network, the generated unbonding transaction
  is a valid unbonding transaction, if the staked amount exceeds the fee, and the generated
  withdrawals unlock the time-lock paths of the staking and of the unbonding output.\<close>

theorem generated_txs_accepted:
  assumes "staking_tools L" and "same_lib si L" and "stored_data data st"
    and "0 < sint (StakingAmount data - UnbondingFee params)"
    and "GenerateUnbondingTxFromStaking L params data (TxHash (store si) (Tx st)) (StakingOutputIdx st) r = (Inr ub, r1)"
    and "GenerateWithdrawalTxFromStaking G K L params data (TxHash (store si) (Tx st)) (StakingOutputIdx st) r1 = (Inr w1, r2)"
    and "GenerateWithdrawalTxFromUnbonding G K L params data (TxHash (store si) (MsgTx_of ub)) r2 = (Inr w2, r3)"
  shows "IsValidUnbondingTx si (MsgTx_of ub) st params = Inr True \<and>
    ValidateWithdrawalTxFromStaking si (MsgTx_of w1) st 0 params = Inr () \<and>
    ValidateWithdrawalTxFromUnbonding si (MsgTx_of w2) st 0 params = Inr ()"
  using staking_tools.unbonding_accepted [OF assms(1-5)] staking_tools.withdrawal_from_staking_accepted [OF assms(1-3,6)]
    staking_tools.withdrawal_from_unbonding_accepted [OF assms(1-3,7)] by blast

end
