(* ===== verification/Test_Wallet.thy ===== *)
theory Test_Wallet
  imports Datagen_Staking Paths Config "HOL-Library.Multiset"
begin

text \<open>
  The wallet helpers of the end-to-end tests, \<open>testutils/utils.go\<close>: collecting the spendable
  outputs of a wallet, the source of inputs from which a transaction is funded, and building and
  signing unbonding and withdrawal transactions, and the database of a test. What \<open>t.Cleanup\<close>
  registers runs after the test and is left out.
\<close>

section \<open>Data and libraries\<close>

record Utxo =
  utxo_Amount :: i64
  utxo_OutPoint :: OutPoint
  utxo_PkScript :: bytes
  RedeemScript :: bytes
  utxo_Address :: string

record TapLeaf =
  LeafVersion :: u8
  Script :: bytes

record FundingInfo =
  FundTxOutput :: TxOut
  FundTxHash :: hash
  FundTxOutputIndex :: u32
  FundTxSpendInfo :: SpendInfo
  fund_LockTime :: u16
  fund_Value :: i64

record ListUnspentResult =
  TxID :: string
  Vout :: u32
  unspent_Address :: string
  unspent_ScriptPubKey :: string
  unspent_RedeemScript :: string
  unspent_Amount :: real
  Spendable :: bool

text \<open>The variables of the closure that \<open>makeInputSource\<close> returns.\<close>

record input_source =
  currentTotal :: i64
  currentInputs :: "TxIn list"
  currentScripts :: "bytes list"
  currentInputValues :: "i64 list"
  source_utxos :: "Utxo list"

type_synonym signature = bytes

record wallet_lib = staking_lib +
  ListUnspent :: "lib_error + ListUnspentResult list"
  SignRawTransactionWithWallet :: "MsgTx \<Rightarrow> lib_error + (MsgTx \<times> bool)"
  NewAmount :: "real \<Rightarrow> lib_error + i64"
  NewHashFromStr :: "string \<Rightarrow> lib_error + hash"
  PayToAddrScript :: "string \<Rightarrow> lib_error + bytes"
  NewAddressPubKey :: "bytes \<Rightarrow> net_params \<Rightarrow> lib_error + string"
  SerializeCompressed :: "PublicKey \<Rightarrow> bytes"
  schnorr_SerializePubKey :: "PublicKey \<Rightarrow> bytes"
  Sort :: "(Utxo \<Rightarrow> Utxo \<Rightarrow> bool) \<Rightarrow> Utxo list \<Rightarrow> Utxo list"
  NewUnsignedTransaction ::
    "TxOut list \<Rightarrow> i64 \<Rightarrow> (i64 \<Rightarrow> input_source \<Rightarrow> (i64 \<times> TxIn list \<times> i64 list \<times> bytes list) \<times> input_source) \<Rightarrow>
      input_source \<Rightarrow> bytes \<times> nat \<Rightarrow> lib_error + MsgTx"
  RevealedLeaf :: "SpendInfo \<Rightarrow> TapLeaf"
  SignTxWithOneScriptSpendInputStrict ::
    "MsgTx \<Rightarrow> MsgTx \<Rightarrow> u32 \<Rightarrow> bytes \<Rightarrow> PrivateKey \<Rightarrow> lib_error + signature"
  SignTxWithOneScriptSpendInputFromScript ::
    "MsgTx \<Rightarrow> TxOut \<Rightarrow> PrivateKey \<Rightarrow> bytes \<Rightarrow> lib_error + signature"
  CreateUnbondingPathWitness :: "SpendInfo \<Rightarrow> signature list \<Rightarrow> signature \<Rightarrow> lib_error + bytes list"
  CreateTimeLockPathWitness :: "SpendInfo \<Rightarrow> signature \<Rightarrow> lib_error + bytes list"
  NewTxSigHashes :: "MsgTx \<Rightarrow> (OutPoint \<rightharpoonup> TxOut) \<Rightarrow> bytes"
  RawTxInTapscriptSignature ::
    "MsgTx \<Rightarrow> bytes \<Rightarrow> nat \<Rightarrow> i64 \<Rightarrow> bytes \<Rightarrow> TapLeaf \<Rightarrow> PrivateKey \<Rightarrow> lib_error + bytes"
  ParseSignature :: "bytes \<Rightarrow> lib_error + signature"

section \<open>The database of a test\<close>

definition MakeTestBackend ::
    "packages \<Rightarrow> (BoltBackendConfig \<Rightarrow> lib_error + 'db) \<Rightarrow> string \<Rightarrow> ('r, 'db) prog" where
  "MakeTestBackend pk open_bolt tempDirName =
     (let cfg = (DefaultDBConfig pk)\<lparr>DBPath := tempDirName\<rparr> in
      require_ok (map_sum Error id (GetDbBackend open_bolt cfg)))"

section \<open>Keys\<close>

definition PubKeysEqual :: "'x wallet_lib_scheme \<Rightarrow> PublicKey \<Rightarrow> PublicKey \<Rightarrow> bool" where
  "PubKeysEqual W pk1 pk2 \<longleftrightarrow> schnorr_SerializePubKey W pk1 = schnorr_SerializePubKey W pk2"

text \<open>The loop over the indices, on slices of the same length.\<close>

fun keys_loop :: "'x wallet_lib_scheme \<Rightarrow> PublicKey list \<Rightarrow> PublicKey list \<Rightarrow> bool" where
  "keys_loop W (a # as) (b # bs) = (if \<not> PubKeysEqual W a b then False else keys_loop W as bs)"
| "keys_loop W _ _ = True"

definition PubKeysSliceEqual :: "'x wallet_lib_scheme \<Rightarrow> PublicKey list \<Rightarrow> PublicKey list \<Rightarrow> bool" where
  "PubKeysSliceEqual W pk1 pk2 = (if length pk1 \<noteq> length pk2 then False else keys_loop W pk1 pk2)"

section \<open>Funding\<close>

text \<open>The order by amount; \<open>sort.Reverse\<close> swaps the arguments of \<open>Less\<close>.\<close>

definition byAmount_Less :: "Utxo \<Rightarrow> Utxo \<Rightarrow> bool" where
  "byAmount_Less a b \<longleftrightarrow> sint (utxo_Amount a) < sint (utxo_Amount b)"

definition Reverse :: "('a \<Rightarrow> 'a \<Rightarrow> bool) \<Rightarrow> 'a \<Rightarrow> 'a \<Rightarrow> bool" where
  "Reverse Less a b = Less b a"

fun resultsToUtxos :: "'x wallet_lib_scheme \<Rightarrow> ListUnspentResult list \<Rightarrow> bool \<Rightarrow> go_error + Utxo list" where
  "resultsToUtxos W [] onlySpendable = Inr []"
| "resultsToUtxos W (result # results) onlySpendable =
     (if onlySpendable \<and> \<not> Spendable result then resultsToUtxos W results onlySpendable
      else case NewAmount W (unspent_Amount result) of Inl e \<Rightarrow> Inl (LibErr e) | Inr amount \<Rightarrow>
        (case NewHashFromStr W (TxID result) of Inl e \<Rightarrow> Inl (LibErr e) | Inr txHash \<Rightarrow>
        (case hex_DecodeString (unspent_ScriptPubKey result) of Inl e \<Rightarrow> Inl (LibErr e) | Inr script \<Rightarrow>
        (case hex_DecodeString (unspent_RedeemScript result) of Inl e \<Rightarrow> Inl (LibErr e) | Inr redeemScript \<Rightarrow>
        (case resultsToUtxos W results onlySpendable of Inl e \<Rightarrow> Inl e | Inr utxos \<Rightarrow>
           Inr (\<lparr>utxo_Amount = amount, utxo_OutPoint = \<lparr>Hash = txHash, Index = Vout result\<rparr>,
                 utxo_PkScript = script, RedeemScript = redeemScript,
                 utxo_Address = unspent_Address result\<rparr> # utxos))))))"

definition makeInputSource :: "Utxo list \<Rightarrow> input_source" where
  "makeInputSource utxos =
     \<lparr>currentTotal = 0, currentInputs = [], currentScripts = [], currentInputValues = [], source_utxos = utxos\<rparr>"

text \<open>The loop of the closure, on the credits that are left, and the closure.\<close>

fun take_credits :: "'x wallet_lib_scheme \<Rightarrow> i64 \<Rightarrow> Utxo list \<Rightarrow> input_source \<Rightarrow> input_source" where
  "take_credits W target [] s = s"
| "take_credits W target (nextCredit # utxos) s =
     (if sint (currentTotal s) < sint target
      then take_credits W target utxos
        \<lparr>currentTotal = currentTotal s + utxo_Amount nextCredit,
         currentInputs = currentInputs s @ [NewTxIn W (utxo_OutPoint nextCredit) [] []],
         currentScripts = currentScripts s @ [utxo_PkScript nextCredit],
         currentInputValues = currentInputValues s @ [utxo_Amount nextCredit],
         source_utxos = utxos\<rparr>
      else s)"

definition input_source_call ::
    "'x wallet_lib_scheme \<Rightarrow> i64 \<Rightarrow> input_source \<Rightarrow> (i64 \<times> TxIn list \<times> i64 list \<times> bytes list) \<times> input_source" where
  "input_source_call W target s =
     (let s' = take_credits W target (source_utxos s) s in
      ((currentTotal s', currentInputs s', currentInputValues s', currentScripts s'), s'))"

definition buildTxFromOutputs ::
    "'x wallet_lib_scheme \<Rightarrow> Utxo list \<Rightarrow> TxOut list \<Rightarrow> i64 \<Rightarrow> bytes \<Rightarrow> go_error + MsgTx" where
  "buildTxFromOutputs W utxos outputs feeRatePerKb changeScript =
     (if utxos = [] then Inl (Errorf ''there must be at least 1 usable UTXO to build transaction'')
      else if outputs = [] then Inl (Errorf ''there must be at least 1 output in transaction'')
      else lib_result (NewUnsignedTransaction W outputs feeRatePerKb (input_source_call W) (makeInputSource utxos)
             (changeScript, length changeScript)))"

definition CreateTxFromOutputsAndSign ::
    "'x wallet_lib_scheme \<Rightarrow> TxOut list \<Rightarrow> i64 \<Rightarrow> string \<Rightarrow> go_error + MsgTx" where
  "CreateTxFromOutputsAndSign W outputs feeRatePerKb changeAddress =
     (case ListUnspent W of Inl e \<Rightarrow> Inl (LibErr e) | Inr utxoResults \<Rightarrow>
     (case resultsToUtxos W utxoResults True of Inl e \<Rightarrow> Inl e | Inr utxos \<Rightarrow>
     (case PayToAddrScript W changeAddress of Inl e \<Rightarrow> Inl (LibErr e) | Inr changeScript \<Rightarrow>
     (case buildTxFromOutputs W (Sort W (Reverse byAmount_Less) utxos) outputs feeRatePerKb changeScript of Inl e \<Rightarrow> Inl e | Inr tx \<Rightarrow>
     (case SignRawTransactionWithWallet W tx of Inl e \<Rightarrow> Inl (LibErr e) | Inr (fundedTx, isSigned) \<Rightarrow>
        if \<not> isSigned then Inl (Errorf ''not all transactions inputs could be signed'') else Inr fundedTx)))))"

section \<open>Signing\<close>

definition signTxWithOneScriptSpendInputFromTapLeafInternalWithIdx ::
    "'x wallet_lib_scheme \<Rightarrow> MsgTx \<Rightarrow> TxOut \<Rightarrow> nat \<Rightarrow> (OutPoint \<rightharpoonup> TxOut) \<Rightarrow> PrivateKey \<Rightarrow> TapLeaf \<Rightarrow>
      go_error + signature" where
  "signTxWithOneScriptSpendInputFromTapLeafInternalWithIdx W txToSign fundingOutput idx fetcher privKey tapLeaf =
     (let sigHashes = NewTxSigHashes W txToSign fetcher in
      case RawTxInTapscriptSignature W txToSign sigHashes idx (Value fundingOutput) (PkScript fundingOutput) tapLeaf privKey of
        Inl e \<Rightarrow> Inl (LibErr e)
      | Inr sig \<Rightarrow> lib_result (ParseSignature W sig))"

text \<open>The loop that fills the map of the spent outputs, and the one that signs.\<close>

fun outputs_loop :: "nat \<Rightarrow> TxIn list \<Rightarrow> TxOut list \<Rightarrow> (OutPoint \<rightharpoonup> TxOut) \<Rightarrow> (OutPoint \<rightharpoonup> TxOut) outcome" where
  "outputs_loop idx [] fundingOutputs m = Inr m"
| "outputs_loop idx (txIn # txIns) fundingOutputs m =
     (case slice_index fundingOutputs idx of
        Inl f \<Rightarrow> Inl f
      | Inr out \<Rightarrow> outputs_loop (Suc idx) txIns fundingOutputs (m(PreviousOutPoint txIn \<mapsto> out)))"

fun sign_loop ::
    "'x wallet_lib_scheme \<Rightarrow> MsgTx \<Rightarrow> (OutPoint \<rightharpoonup> TxOut) \<Rightarrow> TxOut list \<Rightarrow> PrivateKey list \<Rightarrow> TapLeaf list \<Rightarrow>
      nat list \<Rightarrow> signature list outcome" where
  "sign_loop W txToSign fetcher fundingOutputs privKeys tapLeafs [] = Inr []"
| "sign_loop W txToSign fetcher fundingOutputs privKeys tapLeafs (idx # idxs) =
     (case slice_index fundingOutputs idx of Inl f \<Rightarrow> Inl f | Inr out \<Rightarrow>
     (case slice_index privKeys idx of Inl f \<Rightarrow> Inl f | Inr key \<Rightarrow>
     (case slice_index tapLeafs idx of Inl f \<Rightarrow> Inl f | Inr leaf \<Rightarrow>
     (case signTxWithOneScriptSpendInputFromTapLeafInternalWithIdx W txToSign out idx fetcher key leaf of
        Inl e \<Rightarrow> Inl (Error e)
      | Inr sig \<Rightarrow>
        (case sign_loop W txToSign fetcher fundingOutputs privKeys tapLeafs idxs of
           Inl f \<Rightarrow> Inl f | Inr sigs \<Rightarrow> Inr (sig # sigs))))))"

definition SignTxWithMultipleScriptSpendInputFromTapLeaf ::
    "'x wallet_lib_scheme \<Rightarrow> MsgTx option \<Rightarrow> TxOut list \<Rightarrow> PrivateKey list \<Rightarrow> TapLeaf list \<Rightarrow> signature list outcome" where
  "SignTxWithMultipleScriptSpendInputFromTapLeaf W txToSign fundingOutputs privKeys tapLeafs =
     (case txToSign of
        None \<Rightarrow> Inl (Error (Errorf ''tx to sign must not be nil''))
      | Some tx \<Rightarrow>
          if fundingOutputs = [] then Inl (Error (Errorf ''funding output must not be nil''))
          else if privKeys = [] then Inl (Error (Errorf ''private key must not be nil''))
          else case outputs_loop 0 (TxIn tx) fundingOutputs Map.empty of
                 Inl f \<Rightarrow> Inl f
               | Inr outputs \<Rightarrow>
                   sign_loop W tx outputs fundingOutputs privKeys tapLeafs [0..<length (TxIn tx)])"

section \<open>Unbonding and withdrawal transactions\<close>

text \<open>The signatures of the covenant members, one per key.\<close>

fun covenant_sigs ::
    "'x wallet_lib_scheme \<Rightarrow> MsgTx \<Rightarrow> MsgTx \<Rightarrow> u32 \<Rightarrow> bytes \<Rightarrow> PrivateKey list \<Rightarrow> ('r, signature list) prog" where
  "covenant_sigs W unbondingTx stakingTx stakingOutputIdx script [] = ret []"
| "covenant_sigs W unbondingTx stakingTx stakingOutputIdx script (privKey # privKeys) =
     bind (require_NoError (SignTxWithOneScriptSpendInputStrict W unbondingTx stakingTx stakingOutputIdx script privKey)) (\<lambda>sig.
     bind (covenant_sigs W unbondingTx stakingTx stakingOutputIdx script privKeys) (\<lambda>sigs. ret (sig # sigs)))"

definition set_witness :: "nat \<Rightarrow> bytes list \<Rightarrow> MsgTx \<Rightarrow> MsgTx" where
  "set_witness i witness tx = tx\<lparr>TxIn := (TxIn tx)[i := (TxIn tx ! i)\<lparr>Witness := witness\<rparr>]\<rparr>"

definition BuildUnbondingTx ::
    "'x wallet_lib_scheme \<Rightarrow> ParsedVersionedGlobalParams \<Rightarrow> PrivateKey \<Rightarrow> PublicKey \<Rightarrow> i64 \<Rightarrow> hash \<Rightarrow> u32 \<Rightarrow>
      StakingInfo \<Rightarrow> MsgTx \<Rightarrow> PrivateKey list \<Rightarrow> net_params \<Rightarrow> ('r, MsgTx \<times> UnbondingInfo) prog" where
  "BuildUnbondingTx W params stakerPrivKey fpKey stakingAmount stakingTxHash stakingOutputIdx stakingInfo stakingTx
     covPrivKeys btcParams =
     bind (require_NoError (UnbondingPathSpendInfo stakingInfo)) (\<lambda>unbondingSpendInfo.
     let expectedOutputValue = stakingAmount - UnbondingFee params in
     bind (require_NoError (BuildUnbondingInfo W (PubKey W stakerPrivKey) [fpKey] (CovenantPks params)
       (CovenantQuorum params) (UnbondingTime params) expectedOutputValue btcParams)) (\<lambda>unbondingInfo.
     let tx1 = AddTxIn (NewTxIn W \<lparr>Hash = stakingTxHash, Index = stakingOutputIdx\<rparr> [] []) (NewMsgTx W 2);
         tx2 = tx1\<lparr>TxIn := (TxIn tx1)[0 := (TxIn tx1 ! 0)\<lparr>Sequence := MaxTxInSequenceNum\<rparr>]\<rparr>;
         unbondingTx = AddTxOut (UnbondingOutput unbondingInfo) tx2 in
     bind (covenant_sigs W unbondingTx stakingTx stakingOutputIdx (GetPkScriptPath unbondingSpendInfo) covPrivKeys)
       (\<lambda>unbondingCovSigs.
     bind (lift (slice_index (TxOut stakingTx) (unat stakingOutputIdx))) (\<lambda>stakingOutput.
     bind (require_NoError (SignTxWithOneScriptSpendInputFromScript W unbondingTx stakingOutput stakerPrivKey
       (Script (RevealedLeaf W unbondingSpendInfo)))) (\<lambda>stakerUnbondingSig.
     bind (require_NoError (CreateUnbondingPathWitness W unbondingSpendInfo unbondingCovSigs stakerUnbondingSig)) (\<lambda>witness.
     ret (set_witness 0 witness unbondingTx, unbondingInfo)))))))"

text \<open>The loops of \<open>BuildWithdrawTx\<close>: the total, the inputs with what is needed to sign them,
  and the witnesses.\<close>

fun total_value :: "FundingInfo list \<Rightarrow> i64 \<Rightarrow> i64" where
  "total_value [] totalValue = totalValue"
| "total_value (f # fundings) totalValue = total_value fundings (totalValue + fund_Value f)"

fun add_fundings ::
    "'x wallet_lib_scheme \<Rightarrow> PrivateKey \<Rightarrow> FundingInfo list \<Rightarrow> MsgTx \<times> TxOut list \<times> PrivateKey list \<times> TapLeaf list \<Rightarrow>
      MsgTx \<times> TxOut list \<times> PrivateKey list \<times> TapLeaf list" where
  "add_fundings W stakerPrivKey [] acc = acc"
| "add_fundings W stakerPrivKey (fundingInfo # fundings) (withdrawTx, fundingOutputs, privKeys, revealedLeaves) =
     (let txInput = (NewTxIn W \<lparr>Hash = FundTxHash fundingInfo, Index = FundTxOutputIndex fundingInfo\<rparr> [] [])
            \<lparr>Sequence := ucast (fund_LockTime fundingInfo)\<rparr> in
      add_fundings W stakerPrivKey fundings
        (AddTxIn txInput withdrawTx, fundingOutputs @ [FundTxOutput fundingInfo], privKeys @ [stakerPrivKey],
         revealedLeaves @ [RevealedLeaf W (FundTxSpendInfo fundingInfo)]))"

fun witness_loop ::
    "'x wallet_lib_scheme \<Rightarrow> FundingInfo list \<Rightarrow> nat \<Rightarrow> signature list \<Rightarrow> MsgTx \<Rightarrow> ('r, MsgTx) prog" where
  "witness_loop W fundings i [] withdrawTx = ret withdrawTx"
| "witness_loop W fundings i (s # sigs) withdrawTx =
     bind (lift (slice_index fundings i)) (\<lambda>funding.
     bind (require_NoError (CreateTimeLockPathWitness W (FundTxSpendInfo funding) s)) (\<lambda>witness.
     bind (lift (slice_index (TxIn withdrawTx) i)) (\<lambda>_.
     witness_loop W fundings (Suc i) sigs (set_witness i witness withdrawTx))))"

definition BuildWithdrawTx ::
    "'x wallet_lib_scheme \<Rightarrow> PrivateKey \<Rightarrow> FundingInfo list \<Rightarrow> net_params \<Rightarrow> ('r, MsgTx) prog" where
  "BuildWithdrawTx W stakerPrivKey fundings btcParams =
     bind (require_NoError (NewAddressPubKey W (SerializeCompressed W (PubKey W stakerPrivKey)) btcParams)) (\<lambda>destAddress.
     bind (require_NoError (PayToAddrScript W destAddress)) (\<lambda>destAddressScript.
     let totalValue = total_value fundings 0;
         tx1 = AddTxOut \<lparr>Value = MulF64 W totalValue 0.5, PkScript = destAddressScript\<rparr> (NewMsgTx W 2);
         (withdrawTx, fundingOutputs, privKeys, revealedLeaves) = add_fundings W stakerPrivKey fundings (tx1, [], [], []) in
     bind (require_ok (SignTxWithMultipleScriptSpendInputFromTapLeaf W (Some withdrawTx) fundingOutputs privKeys revealedLeaves))
       (\<lambda>sigs.
     witness_loop W fundings 0 sigs withdrawTx)))"

section \<open>Opening and comparing\<close>

text \<open>The database is opened in the given directory, with the default file name and options.\<close>

lemma MakeTestBackend_opens:
  "MakeTestBackend pk open_bolt dir r = (Inr d, r') \<longleftrightarrow>
     open_bolt ((DBConfigToBoltBackenCondfig (DefaultDBConfig pk))\<lparr>bolt_DBPath := dir\<rparr>) = Inr d \<and> r' = r"
  by (auto simp: MakeTestBackend_def require_ok_Inr GetDbBackend_def lib_result_def DBConfigToBoltBackenCondfig_def
      map_sum_def split: sum.splits)

lemma PubKeysSliceEqual_iff:
  "PubKeysSliceEqual W pk1 pk2 \<longleftrightarrow>
     map (schnorr_SerializePubKey W) pk1 = map (schnorr_SerializePubKey W) pk2"
proof -
  have "keys_loop W pk1 pk2 \<longleftrightarrow> map (schnorr_SerializePubKey W) pk1 = map (schnorr_SerializePubKey W) pk2"
    if "length pk1 = length pk2"
    using that by (induction pk1 pk2 rule: list_induct2) (auto simp: PubKeysEqual_def)
  then show ?thesis by (auto simp: PubKeysSliceEqual_def dest: map_eq_imp_length_eq)
qed

section \<open>The spendable outputs\<close>

text \<open>One unspent output as it is collected, when the libraries read it.\<close>

definition utxo_of :: "'x wallet_lib_scheme \<Rightarrow> ListUnspentResult \<Rightarrow> Utxo \<Rightarrow> bool" where
  "utxo_of W result u \<longleftrightarrow> NewAmount W (unspent_Amount result) = Inr (utxo_Amount u) \<and>
     NewHashFromStr W (TxID result) = Inr (Hash (utxo_OutPoint u)) \<and> Index (utxo_OutPoint u) = Vout result \<and>
     hex_DecodeString (unspent_ScriptPubKey result) = Inr (utxo_PkScript u) \<and>
     hex_DecodeString (unspent_RedeemScript result) = Inr (RedeemScript u) \<and> utxo_Address u = unspent_Address result"

lemma resultsToUtxos_collects:
  assumes "resultsToUtxos W results onlySpendable = Inr utxos"
  shows "list_all2 (utxo_of W) (filter (\<lambda>r. onlySpendable \<longrightarrow> Spendable r) results) utxos"
  using assms
  by (induction W results onlySpendable arbitrary: utxos rule: resultsToUtxos.induct)
    (auto simp: utxo_of_def split: if_splits sum.splits)

section \<open>The source of inputs\<close>

text \<open>The state of the source after it has taken the first \<open>k\<close> outputs.\<close>

definition drawn :: "'x wallet_lib_scheme \<Rightarrow> Utxo list \<Rightarrow> nat \<Rightarrow> input_source" where
  "drawn W us k = \<lparr>currentTotal = sum_list (map utxo_Amount (take k us)),
     currentInputs = map (\<lambda>u. NewTxIn W (utxo_OutPoint u) [] []) (take k us),
     currentScripts = map utxo_PkScript (take k us), currentInputValues = map utxo_Amount (take k us),
     source_utxos = drop k us\<rparr>"

lemma drawn_0: "makeInputSource us = drawn W us 0"
  by (simp add: makeInputSource_def drawn_def)

lemma take_credits_drawn:
  assumes "k \<le> length us"
  shows "\<exists>k'. take_credits W target (drop k us) (drawn W us k) = drawn W us k' \<and> k \<le> k' \<and> k' \<le> length us \<and>
    (sint target \<le> sint (currentTotal (drawn W us k')) \<or> k' = length us) \<and>
    (\<forall>j. k \<le> j \<longrightarrow> j < k' \<longrightarrow> sint (currentTotal (drawn W us j)) < sint target)"
  using assms
proof (induction "length us - k" arbitrary: k)
  case 0
  then have "k = length us" by simp
  then show ?case by (intro exI [of _ k]) auto
next
  case (Suc n)
  then have k: "k < length us" by simp
  show ?case
  proof (cases "sint (currentTotal (drawn W us k)) < sint target")
    case False
    with k show ?thesis by (intro exI [of _ k]) (auto simp: Cons_nth_drop_Suc [symmetric])
  next
    case True
    have step: "drawn W us (Suc k) = \<lparr>currentTotal = currentTotal (drawn W us k) + utxo_Amount (us ! k),
         currentInputs = currentInputs (drawn W us k) @ [NewTxIn W (utxo_OutPoint (us ! k)) [] []],
         currentScripts = currentScripts (drawn W us k) @ [utxo_PkScript (us ! k)],
         currentInputValues = currentInputValues (drawn W us k) @ [utxo_Amount (us ! k)],
         source_utxos = drop (Suc k) us\<rparr>"
      using k by (simp add: drawn_def take_Suc_conv_app_nth)
    from Suc(2) k have "n = length us - Suc k" "Suc k \<le> length us" by simp_all
    from Suc(1) [OF this] obtain k' where k': "take_credits W target (drop (Suc k) us) (drawn W us (Suc k)) = drawn W us k'"
      "Suc k \<le> k'" "k' \<le> length us" "sint target \<le> sint (currentTotal (drawn W us k')) \<or> k' = length us"
      "\<forall>j. Suc k \<le> j \<longrightarrow> j < k' \<longrightarrow> sint (currentTotal (drawn W us j)) < sint target"
      by blast
    have "take_credits W target (drop k us) (drawn W us k) = drawn W us k'"
      using k True k'(1) by (simp add: Cons_nth_drop_Suc [symmetric] step)
    moreover have "sint (currentTotal (drawn W us j)) < sint target" if "k \<le> j" "j < k'" for j
      using that True k'(5) by (cases "j = k") auto
    ultimately show ?thesis using k'(2-4) Suc_leD by blast
  qed
qed

text \<open>The sum of the amounts of any \<open>n\<close> outputs is at most that of the \<open>n\<close> largest.\<close>

lemma sum_mset_le_largest:
  fixes xs :: "int list"
  assumes "sorted_wrt (\<ge>) xs" and "M \<subseteq># mset xs" and "\<forall>x\<in>set xs. 0 \<le> x" and "size M \<le> n"
  shows "sum_mset M \<le> sum_list (take n xs)"
  using assms
proof (induction xs arbitrary: M n)
  case (Cons x xs)
  show ?case
  proof (cases "M = {#}")
    case True
    have "\<forall>y\<in>set (take n (x # xs)). 0 \<le> y" using Cons.prems(3) in_set_takeD by fastforce
    then show ?thesis using True by (simp add: sum_list_nonneg)
  next
    case False
    with Cons.prems(4) obtain m where n: "n = Suc m" by (cases n) auto
    obtain y where y: "y \<in># M" "x \<in># M \<longrightarrow> y = x" using False by (cases "x \<in># M") auto
    have "y \<in> set (x # xs)" using y(1) Cons.prems(2) mset_subset_eqD by fastforce
    then have le: "y \<le> x" using Cons.prems(1) by auto
    have "M - {#y#} \<subseteq># mset xs"
    proof (cases "x \<in># M")
      case True
      with y Cons.prems(2) show ?thesis by (simp add: subset_eq_diff_conv)
    next
      case False
      then have "M \<subseteq># mset xs"
        using Cons.prems(2) by (metis add_mset_add_single diff_single_trivial mset.simps(2) subset_eq_diff_conv)
      then show ?thesis by (rule subset_mset.order_trans [OF diff_subset_eq_self])
    qed
    moreover have "size (M - {#y#}) \<le> m" using y(1) Cons.prems(4) n by (simp add: size_Diff_singleton)
    ultimately have "sum_mset (M - {#y#}) \<le> sum_list (take m xs)" using Cons by simp
    moreover have "sum_mset M = y + sum_mset (M - {#y#})" using y(1) by (simp add: sum_mset.remove)
    ultimately show ?thesis using le n by simp
  qed
qed simp

text \<open>What \<open>sort.Sort\<close> promises for a strict weak order.\<close>

locale sorting =
  fixes W :: "'x wallet_lib_scheme"
  assumes sort_mset: "mset (Sort W Less us) = mset us"
    and sort_sorted: "(\<And>a b c. Less a b \<Longrightarrow> \<not> Less c b \<Longrightarrow> Less a c) \<Longrightarrow> (\<And>a b. Less a b \<Longrightarrow> \<not> Less b a) \<Longrightarrow>
      sorted_wrt (\<lambda>a b. \<not> Less b a) (Sort W Less us)"
begin

lemma sort_descending: "sorted_wrt (\<ge>) (map (sint \<circ> utxo_Amount) (Sort W (Reverse byAmount_Less) us))"
  using sort_sorted [of "Reverse byAmount_Less" us]
  by (simp add: Reverse_def byAmount_Less_def sorted_wrt_map not_less)

lemma sort_set: "set (Sort W Less us) = set us"
  using arg_cong [OF sort_mset [of Less us], of set_mset] by simp

end

lemma sint_sum_list:
  fixes xs :: "i64 list"
  assumes "\<forall>x\<in>set xs. 0 \<le> sint x" and "sum_list (map sint xs) < 2 ^ 63"
  shows "sint (sum_list xs) = sum_list (map sint xs)"
  using assms
proof (induction xs)
  case (Cons x xs)
  then have rest: "0 \<le> sum_list (map sint xs)" by (intro sum_list_nonneg) auto
  with Cons have sum: "sint (sum_list xs) = sum_list (map sint xs)" by simp
  have "sint (x + sum_list xs) = sint x + sint (sum_list xs)"
    by (rule sint_add_small) (use Cons.prems rest sum in simp_all)
  with sum show ?case by simp
qed simp

text \<open>Amounts that are not negative and do not overflow together.\<close>

definition amounts_fit :: "Utxo list \<Rightarrow> bool" where
  "amounts_fit us \<longleftrightarrow> (\<forall>u\<in>set us. 0 \<le> sint (utxo_Amount u)) \<and> (\<Sum>u\<leftarrow>us. sint (utxo_Amount u)) < 2 ^ 63"

lemma amounts_fit_mset: "mset us = mset vs \<Longrightarrow> amounts_fit us \<longleftrightarrow> amounts_fit vs"
  by (simp add: amounts_fit_def sum_mset_sum_list [symmetric] set_mset_mset [symmetric]
    del: sum_mset_sum_list set_mset_mset)

lemma prefix_le:
  assumes "amounts_fit us" and "j \<le> k"
  shows "(\<Sum>u\<leftarrow>take j us. sint (utxo_Amount u)) \<le> (\<Sum>u\<leftarrow>take k us. sint (utxo_Amount u))"
proof -
  have "take k us = take j us @ take (k - j) (drop j us)" using assms(2) by (metis le_add_diff_inverse take_add)
  moreover have "0 \<le> (\<Sum>u\<leftarrow>take (k - j) (drop j us). sint (utxo_Amount u))"
    using assms(1) by (intro sum_list_nonneg) (auto simp: amounts_fit_def dest!: in_set_takeD in_set_dropD)
  ultimately show ?thesis by simp
qed

lemma drawn_total:
  assumes "amounts_fit us"
  shows "sint (currentTotal (drawn W us k)) = (\<Sum>u\<leftarrow>take k us. sint (utxo_Amount u))"
proof -
  have "(\<Sum>u\<leftarrow>take k us. sint (utxo_Amount u)) < 2 ^ 63"
    using prefix_le [OF assms, of k "k + length us"] assms by (simp add: amounts_fit_def)
  then show ?thesis
    using assms sint_sum_list [of "map utxo_Amount (take k us)"]
    by (auto simp: drawn_def amounts_fit_def o_def dest: in_set_takeD)
qed

text \<open>A run of calls of the source, as the library makes them with rising targets.\<close>

definition draw_all :: "'x wallet_lib_scheme \<Rightarrow> i64 list \<Rightarrow> input_source \<Rightarrow> input_source" where
  "draw_all W targets s = fold (\<lambda>target s. snd (input_source_call W target s)) targets s"

lemma draw_all_drawn:
  assumes "amounts_fit us" and "k \<le> length us"
  shows "\<exists>k'. draw_all W targets (drawn W us k) = drawn W us k' \<and> k \<le> k' \<and> k' \<le> length us \<and>
    ((\<forall>t\<in>set targets. sint t \<le> sint (currentTotal (drawn W us k'))) \<or> k' = length us) \<and>
    (\<forall>j. k \<le> j \<longrightarrow> j < k' \<longrightarrow> (\<exists>t\<in>set targets. sint (currentTotal (drawn W us j)) < sint t))"
  using assms(2)
proof (induction targets arbitrary: k)
  case Nil
  then show ?case by (intro exI [of _ k]) (simp add: draw_all_def)
next
  case (Cons t ts)
  from take_credits_drawn [OF Cons.prems, of W t] obtain k1 where
    k1: "take_credits W t (drop k us) (drawn W us k) = drawn W us k1" "k \<le> k1" "k1 \<le> length us"
      "sint t \<le> sint (currentTotal (drawn W us k1)) \<or> k1 = length us"
      "\<forall>j. k \<le> j \<longrightarrow> j < k1 \<longrightarrow> sint (currentTotal (drawn W us j)) < sint t" by blast
  from Cons.IH [OF k1(3)] obtain k2 where
    k2: "draw_all W ts (drawn W us k1) = drawn W us k2" "k1 \<le> k2" "k2 \<le> length us"
      "(\<forall>t\<in>set ts. sint t \<le> sint (currentTotal (drawn W us k2))) \<or> k2 = length us"
      "\<forall>j. k1 \<le> j \<longrightarrow> j < k2 \<longrightarrow> (\<exists>t\<in>set ts. sint (currentTotal (drawn W us j)) < sint t)" by blast
  have "draw_all W (t # ts) (drawn W us k) = drawn W us k2"
    using k1(1) k2(1) by (simp add: draw_all_def input_source_call_def Let_def drawn_def)
  moreover have "sint t \<le> sint (currentTotal (drawn W us k2)) \<or> k2 = length us"
    using k1(4) k2(2,3) prefix_le [OF assms(1) k2(2)] by (auto simp: drawn_total [OF assms(1)])
  moreover have "\<exists>t\<in>set (t # ts). sint (currentTotal (drawn W us j)) < sint t" if "k \<le> j" "j < k2" for j
    using that k1(5) k2(5) by (cases "j < k1") auto
  ultimately show ?case using k1(2) k2(2-4) by (intro exI [of _ k2]) auto
qed

text \<open>C40: the transactions of the tests are funded with the largest outputs first. Whatever targets the
  library asks for one after the other, the inputs, values and scripts of the source belong to
  one part of the wallet's outputs, the others are left in the source, the total is the sum of
  the values, it reaches every target unless the wallet is exhausted, and no choice of outputs
  that reaches all targets has fewer inputs.\<close>

theorem funding_uses_fewest_inputs:
  assumes "sorting W" and "amounts_fit utxos"
    and "draw_all W targets (makeInputSource (Sort W (Reverse byAmount_Less) utxos)) = s"
  shows "\<exists>used. mset used + mset (source_utxos s) = mset utxos \<and>
    currentInputs s = map (\<lambda>u. NewTxIn W (utxo_OutPoint u) [] []) used \<and>
    currentInputValues s = map utxo_Amount used \<and> currentScripts s = map utxo_PkScript used \<and>
    sint (currentTotal s) = (\<Sum>u\<leftarrow>used. sint (utxo_Amount u)) \<and>
    ((\<forall>t\<in>set targets. sint t \<le> sint (currentTotal s)) \<or> source_utxos s = []) \<and>
    (\<forall>M. M \<subseteq># mset utxos \<longrightarrow> (\<forall>t\<in>set targets. sint t \<le> (\<Sum>u\<in>#M. sint (utxo_Amount u))) \<longrightarrow>
      length used \<le> size M)"
proof -
  let ?us = "Sort W (Reverse byAmount_Less) utxos"
  have same: "mset ?us = mset utxos" by (rule sorting.sort_mset [OF assms(1)])
  then have fit: "amounts_fit ?us" using assms(2) amounts_fit_mset by blast
  from draw_all_drawn [OF fit, of 0 W targets] assms(3) obtain k where
    k: "s = drawn W ?us k" "k \<le> length ?us"
      "(\<forall>t\<in>set targets. sint t \<le> sint (currentTotal s)) \<or> k = length ?us"
      "\<forall>j<k. \<exists>t\<in>set targets. sint (currentTotal (drawn W ?us j)) < sint t"
    by (auto simp: drawn_0 [of _ W])
  have fewest: "k \<le> size M"
    if M: "M \<subseteq># mset utxos" "\<forall>t\<in>set targets. sint t \<le> (\<Sum>u\<in>#M. sint (utxo_Amount u))" for M
  proof (rule ccontr)
    assume "\<not> k \<le> size M"
    then have "size M < k" by simp
    with k(4) obtain t where t: "t \<in> set targets" "sint (currentTotal (drawn W ?us (size M))) < sint t" by blast
    let ?f = "sint \<circ> utxo_Amount"
    have "image_mset ?f M \<subseteq># mset (map ?f ?us)" using M(1) same by (simp add: image_mset_subseteq_mono)
    then have "sum_mset (image_mset ?f M) \<le> sum_list (take (size M) (map ?f ?us))"
      using fit by (intro sum_mset_le_largest [OF sorting.sort_descending [OF assms(1)]]) (auto simp: amounts_fit_def)
    with t M(2) show False by (auto simp: drawn_total [OF fit] take_map o_def)
  qed
  have "mset (take k ?us) + mset (source_utxos s) = mset utxos"
    by (simp add: k(1) drawn_def same flip: mset_append)
  moreover have "length (take k ?us) = k" using k(2) by simp
  moreover have "sint (currentTotal s) = (\<Sum>u\<leftarrow>take k ?us. sint (utxo_Amount u))"
    unfolding k(1) by (rule drawn_total [OF fit])
  ultimately show ?thesis
    using k(3) fewest by (intro exI [of _ "take k ?us"]) (auto simp: k(1) drawn_def)
qed

section \<open>Signed transactions\<close>

lemma outputs_loop_eq:
  "idx + length txIns \<le> length outs \<Longrightarrow>
     outputs_loop idx txIns outs m = Inr (m(map PreviousOutPoint txIns [\<mapsto>] drop idx outs))"
  by (induction idx txIns outs m rule: outputs_loop.induct)
    (simp_all add: slice_index_def Cons_nth_drop_Suc [symmetric])

lemma sign_loop_length:
  "sign_loop W tx m outs keys leaves idxs = Inr sigs \<Longrightarrow> length sigs = length idxs"
  by (induction idxs arbitrary: sigs) (auto split: sum.splits)

lemma sign_length:
  "SignTxWithMultipleScriptSpendInputFromTapLeaf W (Some tx) outs keys leaves = Inr sigs \<Longrightarrow>
     length sigs = length (TxIn tx) \<and> outs \<noteq> []"
  by (auto simp: SignTxWithMultipleScriptSpendInputFromTapLeaf_def dest: sign_loop_length split: if_splits sum.splits)

lemma total_value_eq: "total_value fs v = v + sum_list (map fund_Value fs)"
  by (induction fs v rule: total_value.induct) (simp_all add: add.assoc)

text \<open>The inputs of a withdrawal, before the witnesses.\<close>

definition funding_input :: "'x wallet_lib_scheme \<Rightarrow> FundingInfo \<Rightarrow> TxIn" where
  "funding_input W f = (NewTxIn W \<lparr>Hash = FundTxHash f, Index = FundTxOutputIndex f\<rparr> [] [])\<lparr>Sequence := ucast (fund_LockTime f)\<rparr>"

lemma add_fundings_eq:
  "add_fundings W key fs (tx, outs, keys, leaves) =
     (tx\<lparr>TxIn := TxIn tx @ map (funding_input W) fs\<rparr>, outs @ map FundTxOutput fs, keys @ map (\<lambda>_. key) fs,
      leaves @ map (RevealedLeaf W \<circ> FundTxSpendInfo) fs)"
  by (induction fs arbitrary: tx outs keys leaves)
    (simp_all add: Let_def AddTxIn_def funding_input_def)

text \<open>The witnesses are set from an index on, one for each signature.\<close>

lemma witness_loop_sets:
  assumes "witness_loop W fs i sigs tx r = (Inr tx', r')" and "i + length sigs = length (TxIn tx)" and "length fs = length (TxIn tx)"
  shows "\<exists>ws. length ws = length sigs \<and>
    (\<forall>j<length sigs. CreateTimeLockPathWitness W (FundTxSpendInfo (fs ! (i + j))) (sigs ! j) = Inr (ws ! j)) \<and>
    tx' = tx\<lparr>TxIn := take i (TxIn tx) @ map2 (\<lambda>txIn w. txIn\<lparr>Witness := w\<rparr>) (drop i (TxIn tx)) ws\<rparr>"
  using assms
proof (induction sigs arbitrary: i tx r)
  case Nil
  then show ?case by (simp add: ret_def)
next
  case (Cons sig sigs)
  let ?next = "\<lambda>w. set_witness i w tx"
  from Cons.prems(1) obtain w r1 where w: "CreateTimeLockPathWitness W (FundTxSpendInfo (fs ! i)) sig = Inr w"
    and rest: "witness_loop W fs (Suc i) sigs (?next w) r1 = (Inr tx', r')"
    by (auto simp: lift_def elim!: bind_Inr_cases)
  have i: "i < length (TxIn tx)" using Cons.prems(2) by simp
  from Cons.IH [OF rest] Cons.prems(2,3) obtain ws where ws: "length ws = length sigs"
    "\<forall>j<length sigs. CreateTimeLockPathWitness W (FundTxSpendInfo (fs ! (Suc i + j))) (sigs ! j) = Inr (ws ! j)"
    "tx' = (?next w)\<lparr>TxIn := take (Suc i) (TxIn (?next w)) @ map2 (\<lambda>txIn w. txIn\<lparr>Witness := w\<rparr>) (drop (Suc i) (TxIn (?next w))) ws\<rparr>"
    by (auto simp: set_witness_def)
  have "tx' = tx\<lparr>TxIn := take i (TxIn tx) @ map2 (\<lambda>txIn w. txIn\<lparr>Witness := w\<rparr>) (drop i (TxIn tx)) (w # ws)\<rparr>"
    using i ws(3) by (simp add: set_witness_def take_Suc_conv_app_nth Cons_nth_drop_Suc [symmetric])
  moreover have "CreateTimeLockPathWitness W (FundTxSpendInfo (fs ! (i + j))) ((sig # sigs) ! j) = Inr ((w # ws) ! j)"
    if "j < Suc (length sigs)" for j
    using that ws(2) w by (cases j) auto
  ultimately show ?case using ws(1) by (intro exI [of _ "w # ws"]) simp
qed

text \<open>
  A withdrawal that is built spends the given outputs in their order with their lock times as
  sequence numbers, pays the given part of the total to the staker, and each input carries
  the witness of its time-lock path.
\<close>

lemma BuildWithdrawTx_built:
  assumes run: "BuildWithdrawTx W key fs net r = (Inr tx, r')"
    and new_tx: "NewMsgTx W 2 = \<lparr>tx_Version = 2, TxIn = [], TxOut = [], LockTime = 0\<rparr>"
  shows "fs \<noteq> [] \<and> length (TxIn tx) = length fs \<and> map Value (TxOut tx) = [MulF64 W (sum_list (map fund_Value fs)) 0.5] \<and>
    (\<forall>i<length fs. \<exists>sig w. TxIn tx ! i = (funding_input W (fs ! i))\<lparr>Witness := w\<rparr> \<and>
       CreateTimeLockPathWitness W (FundTxSpendInfo (fs ! i)) sig = Inr w)"
proof -
  from run obtain script sigs r1 where
    sigs: "SignTxWithMultipleScriptSpendInputFromTapLeaf W
      (Some \<lparr>tx_Version = 2, TxIn = map (funding_input W) fs,
        TxOut = [\<lparr>Value = MulF64 W (sum_list (map fund_Value fs)) 0.5, PkScript = script\<rparr>], LockTime = 0\<rparr>)
      (map FundTxOutput fs) (map (\<lambda>_. key) fs) (map (RevealedLeaf W \<circ> FundTxSpendInfo) fs) = Inr sigs"
    and loop: "witness_loop W fs 0 sigs \<lparr>tx_Version = 2, TxIn = map (funding_input W) fs,
        TxOut = [\<lparr>Value = MulF64 W (sum_list (map fund_Value fs)) 0.5, PkScript = script\<rparr>], LockTime = 0\<rparr> r1 = (Inr tx, r')"
    by (auto simp: BuildWithdrawTx_def Let_def add_fundings_eq AddTxOut_def new_tx total_value_eq require_ok_Inr
        elim!: bind_Inr_cases)
  from sign_length [OF sigs] have "fs \<noteq> []" "length sigs = length fs" by auto
  with witness_loop_sets [OF loop] show ?thesis by fastforce
qed

section \<open>Acceptance by the indexer\<close>

text \<open>What \<open>btcstaking\<close> documents of the witnesses: the script of the path is the last entry but one.\<close>

locale wallet_tools = sorting W + staking_tools "staking_lib.truncate W" for W :: "'x wallet_lib_scheme" +
  assumes unbonding_witness: "CreateUnbondingPathWitness W spend covSigs sig = Inr w \<Longrightarrow>
      \<not> length w < 2 \<and> w ! (length w - 2) = GetPkScriptPath spend"
    and timelock_witness: "CreateTimeLockPathWitness W spend sig = Inr w \<Longrightarrow>
      \<not> length w < 2 \<and> w ! (length w - 2) = GetPkScriptPath spend"
begin

lemma wire: "NewMsgTx W v = \<lparr>tx_Version = v, TxIn = [], TxOut = [], LockTime = 0\<rparr>"
    "NewTxIn W op script wit =
      \<lparr>PreviousOutPoint = op, SignatureScript = script, Witness = wit, Sequence = MaxTxInSequenceNum\<rparr>"
  using new_tx [of v] new_txin [of op script wit] by (simp_all add: staking_lib.truncate_def)

text \<open>The unbonding transactions of the end-to-end tests are valid.\<close>

lemma BuildUnbondingTx_accepted:
  assumes si: "same_lib si (staking_lib.truncate W)" and net: "net = BTCNetParams si"
    and st: "StakerPk st = PubKey W key" "FinalityProviderPk st = fp"
      "unat (StakingOutputIdx st) < length (TxOut (Tx st))" "Value (TxOut (Tx st) ! unat (StakingOutputIdx st)) = amount"
    and info: "rebuildStakingInfo si st params = Inr info" "UnbondingPathSpendInfo info = UnbondingPathSpendInfo stakingInfo"
    and fee: "0 < sint (amount - UnbondingFee params)"
    and run: "BuildUnbondingTx W params key fp amount (TxHash (store si) (Tx st)) (StakingOutputIdx st) stakingInfo
      stakingTx covKeys net r = (Inr (tx, u), r')"
  shows "IsValidUnbondingTx si tx st params = Inr True"
proof -
  from run obtain spend cov sig w where spend: "UnbondingPathSpendInfo stakingInfo = Inr spend"
    and u: "BuildUnbondingInfo W (PubKey W key) [fp] (CovenantPks params) (CovenantQuorum params) (UnbondingTime params)
      (amount - UnbondingFee params) net = Inr u"
    and w: "CreateUnbondingPathWitness W spend cov sig = Inr w"
    and tx: "tx = \<lparr>tx_Version = 2,
      TxIn = [\<lparr>PreviousOutPoint = \<lparr>Hash = TxHash (store si) (Tx st), Index = StakingOutputIdx st\<rparr>,
        SignatureScript = [], Witness = w, Sequence = MaxTxInSequenceNum\<rparr>],
      TxOut = [UnbondingOutput u], LockTime = 0\<rparr>"
    by (auto simp: BuildUnbondingTx_def Let_def AddTxIn_def AddTxOut_def set_witness_def wire ret_def elim!: bind_Inr_cases)
  have "rebuildUnbondingInfo si st params (amount - UnbondingFee params) = Inr u"
    using si u st(1,2) net
    by (simp add: rebuildUnbondingInfo_def same_lib_def staking_lib.truncate_def btcstaking.truncate_def)
  then show ?thesis
    using st(3,4) fee info spend
    by (intro unbonding_form_accepted [OF si _ _ _ info(1) _ unbonding_witness [OF w]]) (simp_all add: tx)
qed

text \<open>Every input of a withdrawal of the end-to-end tests unlocks its time-lock path.\<close>

lemma BuildWithdrawTx_script:
  assumes "BuildWithdrawTx W key fs net r = (Inr tx, r')" and "i < length fs"
  shows "script_from_witness tx i = Inr (GetPkScriptPath (FundTxSpendInfo (fs ! i)))"
proof -
  from BuildWithdrawTx_built [OF assms(1) wire(1)] assms(2) obtain sig w where
    "length (TxIn tx) = length fs" "TxIn tx ! i = (funding_input W (fs ! i))\<lparr>Witness := w\<rparr>"
    "CreateTimeLockPathWitness W (FundTxSpendInfo (fs ! i)) sig = Inr w" by blast
  with timelock_witness [OF this(3)] assms(2) show ?thesis by (auto simp: script_from_witness_Inr)
qed

lemma BuildWithdrawTx_accepted:
  assumes "BuildWithdrawTx W key fs net r = (Inr tx, r')" and "i < length fs"
  shows "rebuildStakingInfo si st params = Inr info \<Longrightarrow> TimeLockPathSpendInfo info = Inr (FundTxSpendInfo (fs ! i)) \<Longrightarrow>
      ValidateWithdrawalTxFromStaking si tx st i params = Inr ()"
    and "rebuildUnbondingInfo si st params (StakingValue st - UnbondingFee params) = Inr uinfo \<Longrightarrow>
      unbonding_TimeLockPathSpendInfo uinfo = Inr (FundTxSpendInfo (fs ! i)) \<Longrightarrow>
      ValidateWithdrawalTxFromUnbonding si tx st i params = Inr ()"
  using BuildWithdrawTx_script [OF assms]
  by (simp_all add: ValidateWithdrawalTxFromStaking_def ValidateWithdrawalTxFromUnbonding_def)

end

end
