(* ===== verification/Sample_Datagen.thy ===== *)
theory Sample_Datagen
  imports Test_Wallet Sample_Env Sample_Scanner
begin

text \<open>
  Concrete sources and libraries for the generators of test data and the wallet helpers: a
  source that counts, and the staking library of \<open>Sample_Env\<close> with the calls that the tests
  make. They meet the laws of \<open>random_source\<close>, \<open>staking_tools\<close> and \<open>wallet_tools\<close>, and the
  examples of the test data are evaluated in them.
\<close>

section \<open>A source\<close>

text \<open>Every second header has an odd nonce.\<close>

definition sample_random :: "nat random" where
  "sample_random =
     \<lparr>next_Intn = (\<lambda>n r. (int r mod n, Suc r)),
      next_Int63n = (\<lambda>n r. (word_of_int (int r mod sint n), Suc r)),
      next_Int31n = (\<lambda>n r. (word_of_int (int r mod sint n), Suc r)),
      next_Int63 = (\<lambda>r. (word_of_nat (r mod 1000), Suc r)),
      next_Uint32 = (\<lambda>r. (word_of_nat r, Suc r)),
      next_Float64 = (\<lambda>r. (1 / 2, Suc r)),
      next_PrivateKey = (\<lambda>r. (Inr r, Suc r)),
      next_ByteArray = (\<lambda>n r. (replicate (unat n) (word_of_nat r), r)),
      next_BtcdHeader = (\<lambda>r. (sample_header\<lparr>Nonce := if even r then 0 else 1\<rparr>, Suc r))\<rparr>"

lemma sint_drawn:
  fixes n :: "'a :: len word"
  assumes "0 < sint n"
  shows "sint (word_of_int (int r mod sint n) :: 'a word) = int r mod sint n"
proof -
  have "int r mod sint n < 2 ^ (LENGTH('a) - 1)"
    using pos_mod_bound [OF assms, of "int r"] sint_lt [of n] by (rule less_trans)
  with assms show ?thesis by (intro sint_small) simp_all
qed

interpretation counting: random_source sample_random
  by unfold_locales (auto simp: sample_random_def sint_drawn)

lemma counting_keys: "returns (NewPrivateKey sample_random)"
  by (simp add: NewPrivateKey_def returns_def bind_def draw_def require_NoError_def ret_def sample_random_def)

section \<open>Blocks\<close>

text \<open>A block is known by its Merkle root.\<close>

definition sample_client :: Client where
  "sample_client = (chain_client 3 103)\<lparr>BlockHash := MerkleRoot\<rparr>"

definition sample_block_lib :: block_lib where
  "sample_block_lib =
     \<lparr>HashH = (\<lambda>b. take 32 (b @ replicate 32 0)), DoubleHashH = (\<lambda>b. take 32 (b @ replicate 32 0)),
      header_BlockHash = BlockHash sample_client,
      BuildMerkleTreeStore = map (\<lambda>tx. Some (sample_TxHash tx)),
      BigToCompact = (\<lambda>_. 545259519),
      ValidateBTCHeader = (\<lambda>h. if Nonce h = 0 then None else Some ''block hash is higher than expected'')\<rparr>"

text \<open>Two rounds find a header.\<close>

lemma sample_finds_headers: "finds_headers sample_random sample_block_lib 2"
proof -
  have "\<exists>x r'. find_header sample_random sample_block_lib (Suc (Suc 0)) root bits prev r = (Inr x, r')" for root bits prev r
    by (cases "even r")
      (auto simp: random_header_def bind_def draw_def ret_def sample_random_def sample_block_lib_def split: option.split)
  then show ?thesis by (simp add: finds_headers_def returns_def numeral_2_eq_2)
qed

lemma sample_merkle: "merkle_ok sample_block_lib"
  by (simp add: merkle_ok_def calcMerkleRoot_def sample_block_lib_def Let_def last_map)

theorem random_blocks_chain_witness:
  "\<exists>ibs r'. GetRandomIndexedBlocks sample_random sample_block_lib 2 100 3 1 = (Inr ibs, r') \<and>
    length ibs = 3 \<and> linked sample_client ibs \<and> consecutive ibs \<and> Height (hd ibs) = 100"
proof -
  obtain ibs r' where ibs: "GetRandomIndexedBlocks sample_random sample_block_lib 2 100 3 1 = (Inr ibs, r')"
    "length ibs = unat (3 :: u64)" "linked sample_client ibs" "consecutive ibs"
    "ibs \<noteq> [] \<longrightarrow> Height (hd ibs) = ucast (100 :: u64)"
    using random_blocks_chain [OF sample_finds_headers sample_merkle, of sample_client 3 100 1]
    by (auto simp: sample_block_lib_def)
  then have "length ibs = 3" by simp
  with ibs show ?thesis by (intro exI [of _ ibs]) auto
qed

section \<open>The libraries of the tests\<close>

definition script_witness :: "SpendInfo \<Rightarrow> bytes list \<Rightarrow> lib_error + bytes list" where
  "script_witness spend sigs = Inr (sigs @ [GetPkScriptPath spend, [0]])"

definition sample_staking_lib :: staking_lib where
  "sample_staking_lib = btcstaking.extend sample_lib
     \<lparr>BuildV0IdentifiableStakingOutputs = (\<lambda>tag pk fp cov quorum time amount net.
        BuildStakingInfo sample_lib pk [fp] cov quorum time amount net),
      BuildV0IdentifiableStakingOutputsAndTx = (\<lambda>tag pk fp cov quorum time amount net.
        case BuildStakingInfo sample_lib pk [fp] cov quorum time amount net of
          Inl e \<Rightarrow> Inl e
        | Inr info \<Rightarrow> Inr (info, \<lparr>tx_Version = 2, TxIn = [],
            TxOut = [\<lparr>Value = amount, PkScript = [5]\<rparr>, \<lparr>Value = 0, PkScript = tag\<rparr>], LockTime = 0\<rparr>)),
      CreateWitness = script_witness,
      NewMsgTx = (\<lambda>v. \<lparr>tx_Version = v, TxIn = [], TxOut = [], LockTime = 0\<rparr>),
      NewTxIn = (\<lambda>op script wit.
        \<lparr>PreviousOutPoint = op, SignatureScript = script, Witness = wit, Sequence = MaxTxInSequenceNum\<rparr>),
      NewTx = (\<lambda>tx. \<lparr>MsgTx_of = tx, tx_Index = - 1\<rparr>),
      MulF64 = (\<lambda>a x. word_of_int (round (real_of_int (sint a) * x))),
      PubKey = Suc, SigNet = ''regtest'', round64 = id\<rparr>"

lemma script_witness_place:
  "script_witness spend sigs = Inr w \<Longrightarrow> \<not> length w < 2 \<and> w ! (length w - 2) = GetPkScriptPath spend"
  by (auto simp: script_witness_def nth_append)

lemmas sample_staking_lib_simps = sample_staking_lib_def btcstaking.defs staking_lib.defs sample_lib_def

interpretation tools: staking_tools sample_staking_lib
proof
  show "CreateWitness sample_staking_lib spend sigs = Inr w \<Longrightarrow>
      \<not> length w < 2 \<and> w ! (length w - 2) = GetPkScriptPath spend" for spend sigs w
    using script_witness_place [of spend sigs w] by (simp add: sample_staking_lib_simps)
qed (auto simp: sample_staking_lib_simps)

section \<open>Examples for staking data\<close>

text \<open>The generated versions, the first of which allows a range of amounts.\<close>

theorem generated_data_valid_witness:
  "\<exists>vs r1. GenerateGlobalParamsVersions sample_random (PubKey sample_staking_lib) 1 = (Inr vs, r1) \<and>
    2 \<le> length vs \<and> sorted_wrt versions_ordered vs \<and> limits_ok (hd vs)"
proof -
  obtain vs r1 where vs: "GenerateGlobalParamsVersions sample_random (PubKey sample_staking_lib) 1 = (Inr vs, r1)"
    "2 \<le> length vs" "sorted_wrt versions_ordered vs" "\<forall>p\<in>set vs. limits_ok p"
    using generated_data_valid [OF counting.random_source_axioms counting_keys, of sample_staking_lib 1] by blast
  moreover have "hd vs \<in> set vs" using vs(2) by (cases vs) auto
  ultimately show ?thesis by blast
qed

definition sample_data :: TestStakingData where
  "sample_data = \<lparr>StakerKey = 1, FinalityProviderKey = 2, StakingAmount = 1000, test_StakingTime = 100\<rparr>"

definition sample_stored :: StoredStakingTransaction where
  "sample_stored = \<lparr>Tx = sample_stake, StakingOutputIdx = 0, InclusionHeight = 100, StakerPk = 1, StakingTime = 100,
     FinalityProviderPk = 2, IsOverflow = False, StakingValue = 1000\<rparr>"

definition generated_unbonding :: btcutil_Tx where
  "generated_unbonding = projr (fst (GenerateUnbondingTxFromStaking sample_staking_lib sample_params sample_data
     (sample_TxHash sample_stake) 0 (0 :: nat)))"

definition generated_withdrawal :: btcutil_Tx where
  "generated_withdrawal = projr (fst (GenerateWithdrawalTxFromStaking sample_random sample_block_lib sample_staking_lib
     sample_params sample_data (sample_TxHash sample_stake) 0 0))"

definition generated_final :: btcutil_Tx where
  "generated_final = projr (fst (GenerateWithdrawalTxFromUnbonding sample_random sample_block_lib sample_staking_lib
     sample_params sample_data (sample_TxHash (MsgTx_of generated_unbonding)) 1))"

lemmas generated_simps = generated_unbonding_def generated_withdrawal_def generated_final_def
  GenerateUnbondingTxFromStaking_def GenerateWithdrawalTxFromStaking_def GenerateWithdrawalTxFromUnbonding_def
  staking_outputs_def unbonding_info_def withdrawal_tx_def random_OutPoint_def require_NoError_def script_witness_def
  bind_def ret_def draw_def Let_def sample_random_def sample_staking_lib_simps

lemma sample_stored_data: "same_lib sample_si sample_staking_lib" "stored_data sample_data sample_stored"
  by (simp_all add: same_lib_def stored_data_def sample_si_def sample_staking_lib_simps sample_data_def sample_stored_def
      sample_stake_def)

theorem generated_txs_accepted_witness:
  "IsValidUnbondingTx sample_si (MsgTx_of generated_unbonding) sample_stored sample_params = Inr True \<and>
   ValidateWithdrawalTxFromStaking sample_si (MsgTx_of generated_withdrawal) sample_stored 0 sample_params = Inr () \<and>
   ValidateWithdrawalTxFromUnbonding sample_si (MsgTx_of generated_final) sample_stored 0 sample_params = Inr ()"
proof (rule generated_txs_accepted [OF tools.staking_tools_axioms sample_stored_data])
  show "0 < sint (StakingAmount sample_data - UnbondingFee sample_params)"
    by (simp add: sample_data_def sample_params_def)
  have st: "TxHash (store sample_si) = sample_TxHash" "Tx sample_stored = sample_stake" "StakingOutputIdx sample_stored = 0"
    by (simp_all add: sample_backend_def sample_stored_def)
  show "GenerateUnbondingTxFromStaking sample_staking_lib sample_params sample_data
      (TxHash (store sample_si) (Tx sample_stored)) (StakingOutputIdx sample_stored) 0 = (Inr generated_unbonding, 0)"
    unfolding st by (simp add: generated_simps)
  show "GenerateWithdrawalTxFromStaking sample_random sample_block_lib sample_staking_lib sample_params sample_data
      (TxHash (store sample_si) (Tx sample_stored)) (StakingOutputIdx sample_stored) 0 = (Inr generated_withdrawal, 1)"
    unfolding st by (simp add: generated_simps)
  show "GenerateWithdrawalTxFromUnbonding sample_random sample_block_lib sample_staking_lib sample_params sample_data
      (TxHash (store sample_si) (MsgTx_of generated_unbonding)) 1 = (Inr generated_final, 2)"
    unfolding st by (simp add: generated_simps)
qed

section \<open>The wallet\<close>

text \<open>Sorting by insertion.\<close>

fun place :: "('a \<Rightarrow> 'a \<Rightarrow> bool) \<Rightarrow> 'a \<Rightarrow> 'a list \<Rightarrow> 'a list" where
  "place Less x [] = [x]"
| "place Less x (y # ys) = (if Less y x then y # place Less x ys else x # y # ys)"

definition insertion_sort :: "('a \<Rightarrow> 'a \<Rightarrow> bool) \<Rightarrow> 'a list \<Rightarrow> 'a list" where
  "insertion_sort Less xs = foldr (place Less) xs []"

lemma place_mset: "mset (place Less x ys) = add_mset x (mset ys)"
  by (induction Less x ys rule: place.induct) simp_all

lemma insertion_sort_mset: "mset (insertion_sort Less xs) = mset xs"
  by (induction xs) (simp_all add: insertion_sort_def place_mset)

lemma place_sorted:
  assumes weak: "\<And>a b c. Less a b \<Longrightarrow> \<not> Less c b \<Longrightarrow> Less a c" and asym: "\<And>a b. Less a b \<Longrightarrow> \<not> Less b a"
    and "sorted_wrt (\<lambda>a b. \<not> Less b a) ys"
  shows "sorted_wrt (\<lambda>a b. \<not> Less b a) (place Less x ys)"
  using assms(3)
proof (induction ys)
  case (Cons y ys)
  have set: "set (place Less x zs) = insert x (set zs)" for zs
    using arg_cong [OF place_mset [of Less x zs], of set_mset] by simp
  show ?case
  proof (cases "Less y x")
    case True
    then have "\<not> Less x y" by (rule asym)
    with Cons True show ?thesis by (auto simp: set)
  next
    case False
    have "\<not> Less z x" if "z \<in> set ys" for z
    proof
      assume "Less z x"
      from weak [OF this False] have "Less z y" .
      with Cons.prems that show False by auto
    qed
    with Cons False show ?thesis by auto
  qed
qed simp

lemma insertion_sort_sorted:
  assumes "\<And>a b c. Less a b \<Longrightarrow> \<not> Less c b \<Longrightarrow> Less a c" and "\<And>a b. Less a b \<Longrightarrow> \<not> Less b a"
  shows "sorted_wrt (\<lambda>a b. \<not> Less b a) (insertion_sort Less xs)"
proof (induction xs)
  case (Cons x xs)
  have "sorted_wrt (\<lambda>a b. \<not> Less b a) (place Less x (insertion_sort Less xs))"
    by (rule place_sorted) (use assms Cons in blast)+
  then show ?case by (simp add: insertion_sort_def)
qed (simp add: insertion_sort_def)

definition sample_wallet :: wallet_lib where
  "sample_wallet = staking_lib.extend sample_staking_lib
     \<lparr>ListUnspent = Inr [], SignRawTransactionWithWallet = (\<lambda>tx. Inr (tx, True)),
      NewAmount = (\<lambda>x. Inr (word_of_int (round (x * 100000000)))),
      NewHashFromStr = (\<lambda>s. Inr (replicate 32 0)), PayToAddrScript = (\<lambda>a. Inr (bytes_of_string a)),
      NewAddressPubKey = (\<lambda>b net. Inr (hex_EncodeToString b)),
      SerializeCompressed = put_nat, schnorr_SerializePubKey = put_nat, Sort = insertion_sort,
      NewUnsignedTransaction = (\<lambda>outputs fee source s change.
        let ((total, ins, vals, scripts), s') = source (sum_list (map Value outputs)) s in
        Inr \<lparr>tx_Version = 1, TxIn = ins, TxOut = outputs, LockTime = 0\<rparr>),
      RevealedLeaf = (\<lambda>spend. \<lparr>LeafVersion = 192, Script = GetPkScriptPath spend\<rparr>),
      SignTxWithOneScriptSpendInputStrict = (\<lambda>tx stx i script key. Inr [word_of_nat key]),
      SignTxWithOneScriptSpendInputFromScript = (\<lambda>tx out key script. Inr [word_of_nat key]),
      CreateUnbondingPathWitness = (\<lambda>spend covSigs sig. script_witness spend (sig # covSigs)),
      CreateTimeLockPathWitness = (\<lambda>spend sig. script_witness spend [sig]),
      NewTxSigHashes = (\<lambda>tx m. []),
      RawTxInTapscriptSignature = (\<lambda>tx sh i v script leaf key. Inr [word_of_nat key]),
      ParseSignature = Inr\<rparr>"

lemma truncate_sample_wallet: "staking_lib.truncate sample_wallet = sample_staking_lib"
  by (simp add: sample_wallet_def staking_lib.defs)

interpretation wallet: wallet_tools sample_wallet
proof -
  have sort: "Sort sample_wallet = insertion_sort" by (simp add: sample_wallet_def staking_lib.defs)
  have "sorting sample_wallet"
    by (rule sorting.intro; unfold sort; rule insertion_sort_mset insertion_sort_sorted; assumption?)
  moreover have "wallet_tools_axioms sample_wallet"
    by unfold_locales (auto simp: sample_wallet_def staking_lib.defs dest: script_witness_place)
  ultimately show "wallet_tools sample_wallet"
    using tools.staking_tools_axioms by (simp add: wallet_tools_def truncate_sample_wallet)
qed

text \<open>A wallet with three outputs; two of them are needed, and the larger ones are taken.\<close>

definition sample_utxo :: "u32 \<Rightarrow> i64 \<Rightarrow> Utxo" where
  "sample_utxo i v = \<lparr>utxo_Amount = v, utxo_OutPoint = \<lparr>Hash = replicate 32 0, Index = i\<rparr>, utxo_PkScript = [ucast i],
     RedeemScript = [], utxo_Address = []\<rparr>"

definition sample_utxos :: "Utxo list" where
  "sample_utxos = [sample_utxo 0 300, sample_utxo 1 200, sample_utxo 2 500]"

definition sample_source :: input_source where
  "sample_source = draw_all sample_wallet [400, 600] (makeInputSource (Sort sample_wallet (Reverse byAmount_Less) sample_utxos))"

theorem funding_uses_fewest_inputs_witness:
  "\<exists>used. mset used + mset (source_utxos sample_source) = mset sample_utxos \<and>
    currentInputValues sample_source = map utxo_Amount used \<and>
    sint (currentTotal sample_source) = (\<Sum>u\<leftarrow>used. sint (utxo_Amount u)) \<and> length used \<le> 2"
proof -
  have fit: "amounts_fit sample_utxos"
    by (simp add: amounts_fit_def sample_utxos_def sample_utxo_def)
  let ?M = "{#sample_utxo 0 300, sample_utxo 2 500#}"
  have "?M \<subseteq># mset sample_utxos" "\<forall>t\<in>set [400, 600 :: i64]. sint t \<le> (\<Sum>u\<in>#?M. sint (utxo_Amount u))"
    by (simp_all add: sample_utxos_def sample_utxo_def)
  moreover have "size ?M = 2" by simp
  ultimately show ?thesis
    using funding_uses_fewest_inputs [OF wallet.sorting_axioms fit, of "[400, 600]" sample_source]
    unfolding sample_source_def by metis
qed

end
