(* ===== verification/Spec2Isabelle.thy ===== *)
theory Spec2Isabelle
  imports Store_Correct Forecast Event_Order Recovery Sample_Commands Program Test_Node Sample_Datagen
begin

text \<open>
  A verification of the Babylon staking indexer, the daemon \<open>sid\<close>.

  \<^bold>\<open>The program.\<close> The daemon follows the best chain of a \<open>bitcoind\<close> node. The scanner
  (\<open>src/btcscanner\<close>) fetches blocks through the RPC client (\<open>src/btcclient\<close>), keeps the last
  \<open>confirmationDepth - 1\<close> of them in a cache and sends the older ones, which are confirmed, with
  the unconfirmed ones, to the indexer (\<open>src/indexer\<close>). The indexer recognises staking, unbonding
  and withdrawal transactions in the confirmed blocks, pushes events to the queue
  (\<open>src/consumer\<close>) and writes to the store (\<open>src/indexerstore\<close>), which also keeps the confirmed
  TVL and the last processed height; over the unconfirmed blocks it only computes the
  unconfirmed TVL. The server (\<open>src/server\<close>) brings the parts up and takes them down; the
  commands (\<open>src/cmd/sid/cli\<close>) build everything from the configuration (\<open>src/config\<close>) and the
  global parameters (\<open>src/params\<close>). The tests draw parameters, staking data, transactions and
  chains of blocks at random (\<open>src/testutils/datagen\<close>), and the end-to-end tests fund, sign and
  send transactions on a node of their own (\<open>src/testutils/utils.go\<close>, \<open>src/itest\<close>).

  \<^bold>\<open>Conventions\<close> (\<open>Prelude\<close>). Go's integers are words, compared through \<open>sint\<close> where they are
  signed. A stateful function is a program from a state to its outcome and the state it leaves,
  also when it fails: an outcome is a value, a returned error, a panic, a \<open>logger.Fatal\<close>, or
  the end of the fuel. Third-party packages are records of functions that the definitions take
  as arguments; what is assumed of them is a locale or a named predicate, and the \<open>Sample\<close>
  theories show that the assumptions can be met. Go's standard library is modelled as far as it
  is used (\<open>Prelude\<close>, \<open>Go_Std\<close>, \<open>Paths\<close>). Of error messages the fixed part is kept.

  \<^bold>\<open>Theories and sources.\<close>
  \<^item> \<open>Chain_Types\<close>: blocks, transactions and parameters (\<open>types/block.go\<close>, \<open>utils/tx.go\<close>).
  \<^item> \<open>Store\<close>: \<open>indexerstore/indexer_store.go\<close> over a transactional key-value database.
    \<open>Ledger\<close> is its specification, with the accounting law and the contract \<open>ledger_store\<close>;
    \<open>Store_Refinement\<close> proves that the store implements it under the laws of the database and of
    the codecs (\<open>store_backend\<close>); \<open>Store_Correct\<close> has the properties: refinement and round trips.
  \<^item> \<open>Indexer\<close>: \<open>indexer/indexer.go\<close>, every handler with its events, writes and metrics.
    \<open>Validation\<close> characterises the checks; \<open>Indexer_Invariants\<close> proves what every run keeps,
    \<open>Block_Spec\<close> what a confirmed block does to the ledger and that doing it again after an
    interruption completes it; \<open>Indexer_Correct\<close> has the properties. \<open>Forecast\<close> relates the TVL
    computed over unconfirmed blocks to what they make of the confirmed TVL later. \<open>Cap\<close> follows
    the active stake and the staking cap over whole runs, \<open>Event_Order\<close> the order of the events.
    \<open>Returns\<close> and \<open>Healthy\<close> prove total correctness: the locale \<open>healthy_env\<close> names what a run
    that never stops relies on, from the database to the rules of the network. \<open>Recovery\<close> adds
    interruptions: the same block attempted while the consumer and the database fail.
  \<^item> \<open>Btc_Cache\<close>, \<open>Btc_Scanner\<close>: \<open>btcscanner/btc_cache.go\<close>, \<open>btc_scanner.go\<close>, \<open>block_handler.go\<close>.
    \<open>Scanner_Correct\<close>: the confirmed blocks form one chain, bootstrapping and new blocks deliver
    everything, and both end, for confirmation depths between 2 and 100; \<open>Scanner_Limits\<close>: depths
    beyond the cache, and what a bootstrap that fails loses; \<open>Scanner_Source\<close>: where the blocks
    come from.
  \<^item> \<open>Lifecycle\<close>: \<open>NewStakingIndexer\<close>, \<open>Start\<close>, \<open>Stop\<close> and the two event loops as a transition
    system with its invariant. \<open>Resume\<close>: the heights of what is handled.
  \<^item> \<open>Config\<close>: the package \<open>config\<close>. \<open>Btc_Client\<close>: \<open>btcclient/client.go\<close> with its retries.
    \<open>System\<close>: the client as the client of the scanner. \<open>Notifier\<close>: \<open>btcscanner/btc_notifier.go\<close>.
    \<open>Paths\<close>: \<open>utils/path.go\<close>, \<open>utils/pubkey.go\<close>, \<open>log/log.go\<close>. \<open>Server\<close>: \<open>server/server.go\<close>,
    \<open>server/prometheus.go\<close>. \<open>Btc_Headers\<close>, \<open>Commands\<close>: \<open>cmd/sid/cli\<close> and \<open>params/params.go\<close>.
    \<open>Program\<close>: the flags of the commands and \<open>main\<close> (\<open>cmd/sid/main.go\<close>).
  \<^item> \<open>Test_Random\<close>: sources of random data with the ranges they promise. \<open>Datagen_Blocks\<close>,
    \<open>Datagen_Params\<close>, \<open>Datagen_Staking\<close>: \<open>testutils/datagen\<close>. \<open>Test_Wallet\<close>: \<open>testutils/utils.go\<close>.
    \<open>Test_Node\<close>: \<open>itest/containers\<close>, \<open>itest/bitcoind_node_setup.go\<close>, \<open>itest/queue_setup.go\<close>.
  \<^item> \<open>Sample_Env\<close>, \<open>Sample_Scanner\<close>, \<open>Sample_System\<close>, \<open>Sample_Server\<close>, \<open>Sample_Commands\<close>,
    \<open>Sample_Datagen\<close>: an in-memory database with codecs, a chain, nodes, a configuration,
    libraries and a random source, on which the theorems are applied.
  \<^item> This theory has the properties of the confirmed TVL over all reachable states of the indexer.

  \<^bold>\<open>What is shown.\<close> In one life of the process, from the command \<open>start\<close> on, over any interleaving of the event loops,
  failures and restarts of calls, the blocks that the indexer handles form one linked chain and
  the store holds exactly what they make of the ledger; no height is left out, and the
  height that \<open>GetStartHeight\<close> returns is the next one; the confirmed TVL is the active stake, and
  the TVL of the unconfirmed blocks is what confirming them adds to it, unless some of it is an
  overflow; the active stake stays below the largest cap plus the largest staking amount, so that
  the TVL never wraps around; everything stored can be read back in every reachable state;
  what is stored is valid and was announced, and the consumer learns of a staking transaction
  before it learns of its unbonding or withdrawal; a block whose handling was interrupted any
  number of times, by a consumer or a database that fails, is completed by handling it again, to
  the same ledger; batching does not matter; where the database, the consumer, the staking library and the
  network keep their promises, the event loop handles every update: nothing ends the process and
  no panic is raised; the scanner delivers every block and ends; the checks accept
  exactly what they should; encodings and records survive being written and read; the client
  retries as configured; the server takes down what it brought up; the configuration written by
  \<open>init\<close> is the one that is loaded. The test data is what the indexer is made for: generated
  chains are linked, generated staking data passes the validation, generated unbonding and
  withdrawal transactions are accepted, and the wallet helpers fund a transaction with as few
  inputs as possible. Some theorems show what goes wrong: a bootstrap that fails can
  lose confirmed blocks (as many as the remainder by 100 of those it has fetched), a depth above 100 never confirms, a failed start leaves the event loop
  of the indexer running, the unconfirmed TVL counts overflows, the generator of staking data
  panics where minimum and maximum amount agree, and a command of the test node that has
  written an error once is repeated in vain (\<open>exec_loop_error_stays\<close>).

  \<^bold>\<open>Fuel.\<close> The loops of \<open>Bootstrap\<close> and of \<open>BtcHeaderInfoList\<close> have as much fuel as there are
  heights to go through, plus one: \<open>Bootstrap_ends\<close> and \<open>BtcHeaderInfoList_returned\<close> show that it
  is enough unless the range reaches the last \<open>uint64\<close>, where the loops of the code do not end.
  The wait for the activation takes fuel as an argument: \<open>waitUntilActivation_ends\<close> shows that the
  number of calls until the tip is high enough suffices. The search of the tests for a valid
  block header takes fuel too: \<open>random_blocks_chain\<close> asks that the source gives one within it.
  The ticks of \<open>require.Eventually\<close> (\<open>Test_Node\<close>) are an argument, as they depend on the clock.

  \<^bold>\<open>Not modelled.\<close> The generated code of the messages (\<open>proto/transaction.pb.go\<close>) beyond their
  fields, and the generated mocks (\<open>testutils/mocks\<close>), which record calls for \<open>gomock\<close>; the texts
  of log lines; mutexes, as every operation under one runs as a whole; timeouts and delays; the
  libraries themselves: \<open>bitcoind\<close>, \<open>lnd\<close>'s notifier, \<open>bbolt\<close>, RabbitMQ, Docker, \<open>btcstaking\<close>,
  \<open>btcwallet\<close>, \<open>zap\<close>, Prometheus, \<open>go-flags\<close>, \<open>urfave/cli\<close>; the test cases (files \<open>*_test.go\<close>)
  and the set-up of the end-to-end tests (\<open>itest/test_manager.go\<close>), which start processes and
  wait for them.
\<close>

section \<open>The confirmed TVL\<close>

text \<open>C18: in every reachable state of the indexer, over any sequence of updates, failures and
  restarts, the confirmed TVL that the store returns is the sum of the values of the stored
  staking transactions that are not overflow, less those of the stored unbonding
  transactions, in \<open>uint64\<close> arithmetic, if the database can be read.\<close>

theorem confirmed_tvl_accounting:
  assumes "store_backend (store si)" and "reachable si C s" and "BeginRead (store si) (db s) = None"
  shows "GetConfirmedTvl (store si) (db s) =
    Inr (staked (ledger_at si s) - unbonded (ledger_at si s))"
proof -
  have "index_ok si C s"
    using indexer_env.reachable_index_ok [OF indexer_env.intro] assms(1,2) by blast
  then have "store_ok (store si) (db s)" and "balanced (ledger_at si s)"
    by (simp_all add: index_ok_def db_ok_def)
  with store_backend.GetConfirmedTvl_ledger [OF assms(1)] assms(3) show ?thesis
    by (simp add: balanced_def ledger_at_def)
qed

theorem confirmed_tvl_accounting_witness:
  "GetConfirmedTvl (store sample_si) (db sample_state) =
    Inr (staked (ledger_at sample_si sample_state) - unbonded (ledger_at sample_si sample_state))"
  by (rule confirmed_tvl_accounting [OF _ reachable_sample_state])
    (simp_all add: sample.store_backend_axioms)

text \<open>C1: where the chain has no double spends, the confirmed TVL is the active stake: the
  total value of the staking transactions that are stored, not overflow and not unbonded, if
  the database can be read.\<close>

theorem confirmed_tvl_is_active_stake:
  assumes "store_backend (store si)" and "reachable si C s" and "BeginRead (store si) (db s) = None"
    and "no_double_spend (store si) C"
  shows "GetConfirmedTvl (store si) (db s) = Inr (word_of_nat (active_stake (ledger_at si s)))"
proof -
  have ok: "index_ok si C s"
    using indexer_env.reachable_index_ok [OF indexer_env.intro] assms(1,2) by blast
  then have "store_ok (store si) (db s)" and "balanced (ledger_at si s)"
    by (simp_all add: index_ok_def db_ok_def)
  then show ?thesis
    using store_backend.GetConfirmedTvl_ledger [OF assms(1)] assms(3)
      balanced_active_stake [OF _ _ index_ok_single_unbonding [OF ok assms(4)]]
    by (simp add: store_ok_def ledger_at_def)
qed

theorem confirmed_tvl_is_active_stake_witness:
  "GetConfirmedTvl (store sample_si) (db sample_state) =
    Inr (word_of_nat (active_stake (ledger_at sample_si sample_state)))"
  by (rule confirmed_tvl_is_active_stake [OF _ reachable_sample_state])
    (simp_all add: sample.store_backend_axioms no_double_spend_sample)

end
